theory Spec2Isabelle
  imports Main "HOL-Library.Word"
begin

unbundle bit_operations_syntax

section \<open>gitbrute: a shallow embedding of gitbrute.go\<close>

text \<open>
  The Go program brute-forces a commit hash prefix by shifting the author and committer
  timestamps of a commit object.  Go's \<^verbatim>\<open>byte\<close> is modelled by \<^typ>\<open>char\<close> (8 bits), a
  \<^verbatim>\<open>string\<close> and the contents of a \<^verbatim>\<open>[]byte\<close> by \<^typ>\<open>char list\<close>.  Go's \<^verbatim>\<open>int64\<close> is a
  64-bit word read in two's complement; Go's \<^verbatim>\<open>int\<close> is taken at its width on 64-bit
  targets, the same 64-bit word.
\<close>

type_synonym int64 = "64 word"
type_synonym go_int = "64 word"

subsection \<open>Slices\<close>

text \<open>
  A slice is a window on a backing array.  \<open>arr\<close> is the backing array from the slice's
  first element to the end of the allocation, so that the capacity is its length;
  \<open>len\<close> is the slice's length.  Two slices with the same first element share \<open>arr\<close>.
\<close>

record slice =
  arr :: "char list"
  len :: nat

definition cap :: "slice \<Rightarrow> nat" where
  "cap v = length (arr v)"

definition bytes_of :: "slice \<Rightarrow> char list" where
  "bytes_of v = take (len v) (arr v)"

text \<open>\<^verbatim>\<open>[]byte(s)\<close> for a string \<open>s\<close>: the runtime rounds the allocation up, \<open>spare\<close> is
  the number of zeroed bytes it adds.\<close>

definition bytes_slice :: "string \<Rightarrow> nat \<Rightarrow> slice" where
  "bytes_slice s spare = \<lparr>arr = s @ replicate spare (CHR 0x00), len = length s\<rparr>"

text \<open>\<^verbatim>\<open>make([]byte, 0, n)\<close>.\<close>

definition make_empty :: "nat \<Rightarrow> slice" where
  "make_empty n = \<lparr>arr = replicate n (CHR 0x00), len = 0\<rparr>"

text \<open>\<^verbatim>\<open>v[:i]\<close> panics when \<open>i\<close> exceeds the capacity (\<open>None\<close>).\<close>

definition reslice :: "slice \<Rightarrow> nat \<Rightarrow> slice option" where
  "reslice v i = (if i \<le> cap v then Some (v\<lparr>len := i\<rparr>) else None)"

text \<open>
  \<^verbatim>\<open>append(dst, s...)\<close>: when the capacity suffices the bytes are written into the shared
  backing array behind \<open>dst\<close>; otherwise a fresh array is allocated and the old one is left
  as it was.  How much room a fresh array has is the runtime's choice; the model gives it
  none.
\<close>

definition fits :: "slice \<Rightarrow> char list \<Rightarrow> bool" where
  "fits dst s = (len dst + length s \<le> cap dst)"

text \<open>The array \<open>xs\<close> with the bytes \<open>s\<close> written over it from position \<open>i\<close> on.\<close>

definition overwrite :: "char list \<Rightarrow> nat \<Rightarrow> char list \<Rightarrow> char list" where
  "overwrite xs i s = take i xs @ s @ drop (i + length s) xs"

definition append_slice :: "slice \<Rightarrow> char list \<Rightarrow> slice" where
  "append_slice dst s =
    (if fits dst s
     then \<lparr>arr = overwrite (arr dst) (len dst) s, len = len dst + length s\<rparr>
     else \<lparr>arr = bytes_of dst @ s, len = len dst + length s\<rparr>)"

definition index :: "'a list \<Rightarrow> nat \<Rightarrow> 'a option" where
  "index xs i = (if i < length xs then Some (xs ! i) else None)"

subsection \<open>hexInPlace\<close>

definition hex :: string where
  "hex = ''0123456789abcdef''"

text \<open>
  The loop of \<^verbatim>\<open>hexInPlace\<close>: \<open>hex_loop n k a\<close> runs the iterations \<open>i = k - 1, \<dots>, 0\<close> on the
  backing array \<open>a\<close> shared by \<open>v\<close> (of length \<open>n\<close>) and \<open>h\<close> (of length \<open>2 * n\<close>).  Every index
  expression of the body is checked against the length of the slice it indexes; a failed
  check is the run-time panic, \<open>None\<close>.
\<close>

fun hex_loop :: "nat \<Rightarrow> nat \<Rightarrow> char list \<Rightarrow> char list option" where
  "hex_loop n 0 a = Some a"
| "hex_loop n (Suc i) a =
    (if i < n \<and> i * 2 + 1 < n * 2 \<and> n * 2 \<le> length a then
       (let b = (of_char (a ! i) :: 8 word) in
        case (index hex (unat (drop_bit 4 b)), index hex (unat (b AND 0xf))) of
          (Some hi, Some lo) \<Rightarrow> hex_loop n i (a[i * 2 + 0 := hi, i * 2 + 1 := lo])
        | _ \<Rightarrow> None)
     else None)"

definition hexInPlace :: "slice \<Rightarrow> slice option" where
  "hexInPlace v =
    (if len v * 2 \<le> cap v then
       (case hex_loop (len v) (len v) (arr v) of
          Some a \<Rightarrow> Some \<lparr>arr = a, len = len v * 2\<rparr>
        | None \<Rightarrow> None)
     else None)"

text \<open>The hexadecimal rendering of a byte string, as a specification: two characters per
  byte, high nibble first.\<close>

definition hex_encode :: "char list \<Rightarrow> string" where
  "hex_encode bs = concat (map (\<lambda>b. [hex ! (of_char b div 16), hex ! (of_char b mod 16)]) bs)"

text \<open>Decoding, as \<^verbatim>\<open>encoding/hex\<close> does it: both letter cases are read, a character that
  is no hexadecimal digit and an odd length are errors.\<close>

definition fromHexChar :: "char \<Rightarrow> nat option" where
  "fromHexChar c =
    (let k = (of_char c :: nat) in
     if 48 \<le> k \<and> k \<le> 57 then Some (k - 48)
     else if 97 \<le> k \<and> k \<le> 102 then Some (k - 97 + 10)
     else if 65 \<le> k \<and> k \<le> 70 then Some (k - 65 + 10)
     else None)"

fun hex_decode :: "string \<Rightarrow> char list option" where
  "hex_decode [] = Some []"
| "hex_decode [c] = None"
| "hex_decode (c1 # c2 # cs) =
    (case (fromHexChar c1, fromHexChar c2) of
       (Some a, Some b) \<Rightarrow> map_option ((#) (char_of (a * 16 + b))) (hex_decode cs)
     | _ \<Rightarrow> None)"

definition lower_hex_char :: "char \<Rightarrow> bool" where
  "lower_hex_char c = (c \<in> set hex)"

subsection \<open>strconv\<close>

text \<open>
  The standard library's \<^verbatim>\<open>strconv.ParseInt(s, base, 64)\<close>, after its source.  The
  accumulator of \<^verbatim>\<open>ParseUint\<close> is a \<^verbatim>\<open>uint64\<close>; it is modelled by a natural number, the
  two overflow tests of the source written out: \<open>n \<ge> cutoff\<close> (the product would
  overflow) and the sum exceeding \<open>maxUint64\<close> (in the source: the sum wrapping below the
  product, or exceeding the maximum).  Underscores are read only with base 0, which the
  program never passes.
\<close>

datatype num_error = ErrSyntax | ErrRange

definition maxUint64 :: nat where
  "maxUint64 = 2 ^ 64 - 1"

text \<open>\<^verbatim>\<open>lower(c) = c | ('x' - 'X')\<close>.\<close>

definition lower :: "char \<Rightarrow> char" where
  "lower c = char_of ((of_char c :: nat) OR 32)"

definition digit_of :: "char \<Rightarrow> nat option" where
  "digit_of c =
    (let k = (of_char c :: nat); l = (of_char (lower c) :: nat) in
     if 48 \<le> k \<and> k \<le> 57 then Some (k - 48)
     else if 97 \<le> l \<and> l \<le> 122 then Some (l - 97 + 10)
     else None)"

fun parse_digits :: "nat \<Rightarrow> nat \<Rightarrow> string \<Rightarrow> num_error + nat" where
  "parse_digits base n [] = Inr n"
| "parse_digits base n (c # cs) =
    (case digit_of c of
       None \<Rightarrow> Inl ErrSyntax
     | Some d \<Rightarrow>
         if base \<le> d then Inl ErrSyntax
         else if maxUint64 div base + 1 \<le> n then Inl ErrRange
         else (let n1 = n * base + d in
               if maxUint64 < n1 then Inl ErrRange else parse_digits base n1 cs))"

definition ParseUint :: "string \<Rightarrow> nat \<Rightarrow> num_error + nat" where
  "ParseUint s base = (if s = [] then Inl ErrSyntax else parse_digits base 0 s)"

text \<open>
  \<^verbatim>\<open>ParseInt\<close> picks off a leading sign, converts the rest unsigned, and checks the range:
  with a range error of \<^verbatim>\<open>ParseUint\<close> the value in hand is the maximum, which then fails
  the range check here as well.
\<close>

definition convert_signed :: "bool \<Rightarrow> string \<Rightarrow> nat \<Rightarrow> num_error + int64" where
  "convert_signed neg s1 base =
    (case ParseUint s1 base of
       Inl ErrSyntax \<Rightarrow> Inl ErrSyntax
     | r \<Rightarrow>
        (let un = (case r of Inr u \<Rightarrow> u | Inl _ \<Rightarrow> maxUint64);
             cutoff = 2 ^ 63
         in if \<not> neg \<and> cutoff \<le> un then Inl ErrRange
            else if neg \<and> cutoff < un then Inl ErrRange
            else Inr (if neg then - of_nat un else of_nat un)))"

definition ParseInt :: "string \<Rightarrow> nat \<Rightarrow> num_error + int64" where
  "ParseInt s base =
    (if s = [] then Inl ErrSyntax
     else if hd s = CHR ''+'' then convert_signed False (tl s) base
     else if hd s = CHR ''-'' then convert_signed True (tl s) base
     else convert_signed False s base)"

text \<open>The decimal rendering of \<^verbatim>\<open>strconv.AppendInt(dst, i, 10)\<close> and of the verb
  \<^verbatim>\<open>%d\<close>: a minus sign for a negative value, then the digits without leading zeros.\<close>

fun dec :: "nat \<Rightarrow> string" where
  "dec n = (if n < 10 then [char_of (48 + n)] else dec (n div 10) @ [char_of (48 + n mod 10)])"

declare dec.simps [simp del]

definition FormatInt :: "int64 \<Rightarrow> string" where
  "FormatInt i = (if sint i < 0 then CHR ''-'' # dec (nat (- sint i)) else dec (nat (sint i)))"

subsection \<open>strings and bytes\<close>

text \<open>\<^verbatim>\<open>strings.Index(v, " ")\<close> for a single character: the first position, or none (-1).\<close>

definition str_index :: "string \<Rightarrow> char \<Rightarrow> nat option" where
  "str_index v c = (if c \<in> set v then Some (length (takeWhile (\<lambda>x. x \<noteq> c) v)) else None)"

text \<open>\<^verbatim>\<open>strings.ToLower\<close> on ASCII text, the only text that passes the check of the prefix
  in \<^verbatim>\<open>main\<close>.\<close>

definition ToLower :: "string \<Rightarrow> string" where
  "ToLower s =
    map (\<lambda>c. if 65 \<le> (of_char c :: nat) \<and> (of_char c :: nat) \<le> 90 then char_of ((of_char c :: nat) + 32) else c) s"

definition HasPrefix :: "char list \<Rightarrow> char list \<Rightarrow> bool" where
  "HasPrefix s p = (length p \<le> length s \<and> take (length p) s = p)"

subsection \<open>Dates and getDate\<close>

text \<open>The struct \<^verbatim>\<open>date\<close>; its fields \<^verbatim>\<open>n\<close> and \<^verbatim>\<open>tz\<close> are \<open>date_n\<close> and \<open>date_tz\<close> here.\<close>

record date =
  date_n :: int64
  date_tz :: string

text \<open>\<^verbatim>\<open>func (d date) String() string { return fmt.Sprintf("%d %s", d.n, d.tz) }\<close>\<close>

definition date_String :: "date \<Rightarrow> string" where
  "date_String d = FormatInt (date_n d) @ '' '' @ date_tz d"

record solution =
  author :: date
  committer :: date

text \<open>
  The two patterns are \<^verbatim>\<open>(?m)^author.+> (.+)\<close> and \<^verbatim>\<open>(?m)^committer.+> (.+)\<close>; a
  pattern of this shape is given by its label.  \<open>FindSubmatchIndex\<close> gives the bounds
  \<^verbatim>\<open>m[2]\<close>, \<^verbatim>\<open>m[3]\<close> of the group of the leftmost match, as the \<^verbatim>\<open>regexp\<close> package
  finds it: a match starts where a line starts (at 0 or after a newline) with the label;
  the first \<^verbatim>\<open>.+\<close> is greedy, so the \<^verbatim>\<open>"> "\<close> taken is the last one of the line that
  leaves a character before it and one after it; the group runs to the end of the line
  (\<^verbatim>\<open>.\<close> does not match a newline).
\<close>

definition nl :: char where
  "nl = CHR 0x0A"

definition line_start :: "string \<Rightarrow> nat \<Rightarrow> bool" where
  "line_start h p = (p = 0 \<or> h ! (p - 1) = nl)"

definition line_end :: "string \<Rightarrow> nat \<Rightarrow> nat" where
  "line_end h s = s + length (takeWhile (\<lambda>c. c \<noteq> nl) (drop s h))"

definition match_at :: "string \<Rightarrow> string \<Rightarrow> nat \<Rightarrow> (nat \<times> nat) option" where
  "match_at label h p =
    (if line_start h p \<and> take (length label) (drop p h) = label then
       (let s = p + length label; e = line_end h s;
            qs = filter (\<lambda>q. h ! q = CHR ''>'' \<and> h ! (q + 1) = CHR '' '') [s + 1 ..< e - 2]
        in if qs = [] then None else Some (last qs + 2, e))
     else None)"

fun find_first :: "(nat \<Rightarrow> 'a option) \<Rightarrow> nat list \<Rightarrow> 'a option" where
  "find_first f [] = None"
| "find_first f (p # ps) = (case f p of None \<Rightarrow> find_first f ps | Some m \<Rightarrow> Some m)"

definition FindSubmatchIndex :: "string \<Rightarrow> string \<Rightarrow> (nat \<times> nat) option" where
  "FindSubmatchIndex label h = find_first (match_at label h) [0 ..< Suc (length h)]"

definition authorDateRx :: string where
  "authorDateRx = ''author''"

definition committerDateRx :: string where
  "committerDateRx = ''committer''"

text \<open>\<^verbatim>\<open>log.Fatalf\<close> ends the process; the value says which call it was.\<close>

datatype fatal = FailedToMatch | UnexpectedDate

definition getDate :: "string \<Rightarrow> string \<Rightarrow> fatal + (date \<times> nat)" where
  "getDate h rx =
    (case FindSubmatchIndex rx h of
       None \<Rightarrow> Inl FailedToMatch
     | Some (m2, m3) \<Rightarrow>
         (let v = take (m3 - m2) (drop m2 h) in
          case str_index v (CHR '' '') of
            None \<Rightarrow> Inl UnexpectedDate
          | Some space \<Rightarrow>
              (case ParseInt (take space v) 10 of
                 Inl _ \<Rightarrow> Inl UnexpectedDate
               | Inr n \<Rightarrow> Inr (\<lparr>date_n = n, date_tz = drop (space + 1) v\<rparr>, m2))))"

subsection \<open>explore\<close>

text \<open>The struct \<^verbatim>\<open>try\<close>.\<close>

record try_t =
  commitBehind :: go_int
  authorBehind :: go_int

text \<open>
  \<^verbatim>\<open>explore\<close> never returns; it is modelled by its steps.  A state is the loop the
  control is in, the value of \<^verbatim>\<open>max\<close> and the value of the loop variable (\<^verbatim>\<open>i\<close> or
  \<^verbatim>\<open>j\<close>).  A step evaluates the condition of that loop once: when it holds, the body sends
  a \<^verbatim>\<open>try\<close> on the channel and the variable is incremented; when it fails, control moves
  to the next loop.  The comparisons are signed, the arithmetic wraps around.
\<close>

datatype explore_state = FirstLoop go_int go_int | SecondLoop go_int go_int

fun explore_step :: "explore_state \<Rightarrow> try_t option \<times> explore_state" where
  "explore_step (FirstLoop mx i) =
    (if i \<le>s mx - 1
     then (Some \<lparr>commitBehind = i, authorBehind = mx\<rparr>, FirstLoop mx (i + 1))
     else (None, SecondLoop mx 0))"
| "explore_step (SecondLoop mx j) =
    (if j \<le>s mx
     then (Some \<lparr>commitBehind = mx, authorBehind = j\<rparr>, SecondLoop mx (j + 1))
     else (None, FirstLoop (mx + 1) 0))"

fun explore_run :: "nat \<Rightarrow> explore_state \<Rightarrow> try_t list \<times> explore_state" where
  "explore_run 0 s = ([], s)"
| "explore_run (Suc k) s =
    (case explore_step s of
       (out, s') \<Rightarrow> (case explore_run k s' of (ts, s'') \<Rightarrow> (case out of None \<Rightarrow> ts | Some t \<Rightarrow> t # ts, s'')))"

text \<open>What \<^verbatim>\<open>explore\<close> has sent after \<open>k\<close> steps from its start, in order.\<close>

definition explore :: "nat \<Rightarrow> try_t list" where
  "explore k = fst (explore_run k (FirstLoop 0 0))"

text \<open>The pair with the committer shift \<open>c\<close> and the author shift \<open>a\<close>.\<close>

definition mk_try :: "nat \<Rightarrow> nat \<Rightarrow> try_t" where
  "mk_try c a = \<lparr>commitBehind = of_nat c, authorBehind = of_nat a\<rparr>"

text \<open>The pairs of level \<open>m\<close> in the order the specification gives: \<open>(i, m)\<close> for
  \<open>i = 0, \<dots>, m - 1\<close>, then \<open>(m, j)\<close> for \<open>j = 0, \<dots>, m\<close>, the committer shift first.\<close>

definition level :: "nat \<Rightarrow> try_t list" where
  "level m = map (\<lambda>i. mk_try i m) [0 ..< m] @ map (\<lambda>j. mk_try m j) [0 ..< Suc m]"

text \<open>The larger of the two shifts of a pair, read unsigned.\<close>

definition shift_max :: "try_t \<Rightarrow> nat" where
  "shift_max t = max (unat (commitBehind t)) (unat (authorBehind t))"

text \<open>The number of steps that complete the levels \<open>0, \<dots>, m\<close>: level \<open>l\<close> takes
  \<open>2 * l + 1\<close> sends and two failed conditions.\<close>

definition steps_through :: "nat \<Rightarrow> nat" where
  "steps_through m = (m + 1) * (m + 3)"

subsection \<open>crypto/sha1\<close>

text \<open>
  The digest of the standard library, \<^verbatim>\<open>s1.Reset(); s1.Write(blob); s1.Sum(...)\<close>, is
  SHA-1 of the bytes written, defined here after FIPS 180-4: the message is padded with
  the byte \<open>0x80\<close>, zeros and its length in bits as 8 bytes, to a multiple of 64 bytes;
  every block of 16 big-endian words is expanded and run through 80 rounds.  The schedule
  is kept as its last 16 words.
\<close>

type_synonym word32 = "32 word"
type_synonym sha1_state = "word32 \<times> word32 \<times> word32 \<times> word32 \<times> word32"

definition rotl :: "nat \<Rightarrow> word32 \<Rightarrow> word32" where
  "rotl k x = push_bit k x OR drop_bit (32 - k) x"

definition sha1_pad :: "char list \<Rightarrow> char list" where
  "sha1_pad msg =
    (let l = length msg
     in msg @ [CHR 0x80] @ replicate ((119 - l mod 64) mod 64) (CHR 0x00)
        @ map (\<lambda>i. char_of ((l * 8) div 256 ^ (7 - i))) [0 ..< 8])"

definition be32 :: "char list \<Rightarrow> word32" where
  "be32 bs = foldl (\<lambda>w b. push_bit 8 w OR of_char b) 0 (take 4 bs)"

fun block_words :: "char list \<Rightarrow> word32 list" where
  "block_words [] = []"
| "block_words (b # bs) = be32 (b # bs) # block_words (drop 3 bs)"

definition sha1_f :: "nat \<Rightarrow> word32 \<Rightarrow> word32 \<Rightarrow> word32 \<Rightarrow> word32" where
  "sha1_f t b c d =
    (if t < 20 then (b AND c) OR (NOT b AND d)
     else if t < 40 then b XOR c XOR d
     else if t < 60 then (b AND c) OR (b AND d) OR (c AND d)
     else b XOR c XOR d)"

definition sha1_k :: "nat \<Rightarrow> word32" where
  "sha1_k t =
    (if t < 20 then 0x5A827999
     else if t < 40 then 0x6ED9EBA1
     else if t < 60 then 0x8F1BBCDC
     else 0xCA62C1D6)"

fun sha1_round :: "word32 list \<times> sha1_state \<Rightarrow> nat \<Rightarrow> word32 list \<times> sha1_state" where
  "sha1_round (w, (a, b, c, d, e)) t =
     (tl w @ [rotl 1 (w ! 13 XOR w ! 8 XOR w ! 2 XOR w ! 0)],
      (rotl 5 a + sha1_f t b c d + e + hd w + sha1_k t, a, rotl 30 b, c, d))"

fun sha1_block :: "sha1_state \<Rightarrow> char list \<Rightarrow> sha1_state" where
  "sha1_block (h0, h1, h2, h3, h4) bs =
    (case snd (foldl sha1_round (block_words bs, (h0, h1, h2, h3, h4)) [0 ..< 80]) of
       (a, b, c, d, e) \<Rightarrow> (h0 + a, h1 + b, h2 + c, h3 + d, h4 + e))"

fun sha1_blocks :: "sha1_state \<Rightarrow> char list \<Rightarrow> sha1_state" where
  "sha1_blocks h [] = h"
| "sha1_blocks h (b # bs) = sha1_blocks (sha1_block h (take 64 (b # bs))) (drop 63 bs)"

definition word_bytes :: "word32 \<Rightarrow> char list" where
  "word_bytes w = map (\<lambda>i. char_of (unat (drop_bit (8 * (3 - i)) w))) [0 ..< 4]"

definition sha1 :: "char list \<Rightarrow> char list" where
  "sha1 msg =
    (case sha1_blocks (0x67452301, 0xEFCDAB89, 0x98BADCFE, 0x10325476, 0xC3D2E1F0) (sha1_pad msg) of
       (a, b, c, d, e) \<Rightarrow> concat (map word_bytes [a, b, c, d, e]))"

subsection \<open>bruteForce\<close>

text \<open>\<^verbatim>\<open>fmt.Sprintf("commit %d\x00%s", len(obj), obj)\<close>\<close>

definition mkblob :: "string \<Rightarrow> string" where
  "mkblob obj = ''commit '' @ dec (length obj) @ [CHR 0x00] @ obj"

text \<open>
  The two slices a worker owns: \<^verbatim>\<open>blob\<close>, which it rewrites in place, and \<^verbatim>\<open>hexBuf\<close>,
  whose backing array receives the digest and then its hexadecimal rendering.
\<close>

record worker =
  blob :: slice
  hexBuf :: slice

text \<open>
  The statement \<^verbatim>\<open>strconv.AppendInt(blob[:i], x, 10)\<close>, whose result is dropped: its
  effect on \<^verbatim>\<open>blob\<close>.  When the digits fit the capacity they are written over the bytes
  from \<open>i\<close> on; when they do not, \<^verbatim>\<open>append\<close> writes to a fresh array and \<^verbatim>\<open>blob\<close> keeps
  its bytes.  \<open>None\<close> is the panic of \<^verbatim>\<open>blob[:i]\<close>.
\<close>

definition write_date :: "slice \<Rightarrow> nat \<Rightarrow> int64 \<Rightarrow> slice option" where
  "write_date b i x =
    (case reslice b i of
       None \<Rightarrow> None
     | Some dst \<Rightarrow>
         Some (if fits dst (FormatInt x) then b\<lparr>arr := arr (append_slice dst (FormatInt x))\<rparr> else b))"

text \<open>Lines 109 to 112: the two dates of a candidate and the rewriting of the blob.\<close>

definition shifted :: "date \<Rightarrow> go_int \<Rightarrow> date" where
  "shifted d behind = \<lparr>date_n = date_n d - behind, date_tz = date_tz d\<rparr>"

definition rewrite :: "date \<Rightarrow> nat \<Rightarrow> date \<Rightarrow> nat \<Rightarrow> slice \<Rightarrow> try_t \<Rightarrow> slice option" where
  "rewrite authorDate adatei commitDate cdatei b t =
    (let ad = shifted authorDate (authorBehind t);
         cd = shifted commitDate (commitBehind t)
     in case write_date b adatei (date_n ad) of
          None \<Rightarrow> None
        | Some b1 \<Rightarrow> write_date b1 cdatei (date_n cd))"

text \<open>
  One pass through the \<^verbatim>\<open>default\<close> branch for the candidate \<open>t\<close>: the worker after it,
  the solution it would send, and whether the prefix matched.  \<open>None\<close> is a panic.
\<close>

definition attempt ::
  "string \<Rightarrow> date \<Rightarrow> nat \<Rightarrow> date \<Rightarrow> nat \<Rightarrow> worker \<Rightarrow> try_t \<Rightarrow> (worker \<times> solution \<times> bool) option" where
  "attempt wantHexPrefix authorDate adatei commitDate cdatei w t =
    (let ad = shifted authorDate (authorBehind t);
         cd = shifted commitDate (commitBehind t)
     in case rewrite authorDate adatei commitDate cdatei (blob w) t of
          None \<Rightarrow> None
        | Some b \<Rightarrow>
           (case reslice (hexBuf w) 0 of
              None \<Rightarrow> None
            | Some hb0 \<Rightarrow>
               (let digest = sha1 (bytes_of b);
                    sum = append_slice hb0 digest
                in case hexInPlace sum of
                     None \<Rightarrow> None
                   | Some h \<Rightarrow>
                       Some (\<lparr>blob = b,
                              hexBuf = (if fits hb0 digest then (hexBuf w)\<lparr>arr := arr h\<rparr> else hexBuf w)\<rparr>,
                             \<lparr>author = ad, committer = cd\<rparr>,
                             HasPrefix (bytes_of h) wantHexPrefix))))"

text \<open>
  How a worker ends.  It has been sent a solution on \<^verbatim>\<open>winner\<close> (\<open>Won\<close>), it has seen
  \<^verbatim>\<open>done\<close> closed (\<open>Cancelled\<close>), it waits for a candidate that has not come (\<open>Blocked\<close>),
  the process has ended in \<^verbatim>\<open>log.Fatalf\<close>, or it has panicked.
\<close>

datatype outcome = Fatal fatal | Panic | Won solution | Cancelled | Blocked

text \<open>
  The loop over the channel.  An event is a candidate the worker has received and whether
  the \<^verbatim>\<open>select\<close> that follows finds \<^verbatim>\<open>done\<close> closed.  The channel is never closed, so a
  worker with no event left waits.
\<close>

fun worker_loop ::
  "string \<Rightarrow> date \<Rightarrow> nat \<Rightarrow> date \<Rightarrow> nat \<Rightarrow> worker \<Rightarrow> (try_t \<times> bool) list \<Rightarrow> outcome" where
  "worker_loop p authorDate adatei commitDate cdatei w [] = Blocked"
| "worker_loop p authorDate adatei commitDate cdatei w ((t, closed) # rest) =
    (if closed then Cancelled
     else case attempt p authorDate adatei commitDate cdatei w t of
            None \<Rightarrow> Panic
          | Some (w', s, hit) \<Rightarrow>
              if hit then Won s else worker_loop p authorDate adatei commitDate cdatei w' rest)"

text \<open>\<open>spare\<close> is the room the runtime leaves behind the bytes of \<^verbatim>\<open>blob\<close>.\<close>

definition bruteForce :: "string \<Rightarrow> string \<Rightarrow> nat \<Rightarrow> (try_t \<times> bool) list \<Rightarrow> outcome" where
  "bruteForce prefix obj spare events =
    (let b = bytes_slice (mkblob obj) spare in
     case getDate (bytes_of b) authorDateRx of
       Inl e \<Rightarrow> Fatal e
     | Inr (authorDate, adatei) \<Rightarrow>
        (case getDate (bytes_of b) committerDateRx of
           Inl e \<Rightarrow> Fatal e
         | Inr (commitDate, cdatei) \<Rightarrow>
             worker_loop (ToLower prefix) authorDate adatei commitDate cdatei
               \<lparr>blob = b, hexBuf = make_empty 40\<rparr> events))"

subsection \<open>The check of the prefix in main\<close>

text \<open>\<^verbatim>\<open>if _, err := strconv.ParseInt(*prefix, 16, 64); err != nil { log.Fatalf(...) }\<close>:
  whether the program goes on.\<close>

definition prefix_accepted :: "string \<Rightarrow> bool" where
  "prefix_accepted p = (case ParseInt p 16 of Inl _ \<Rightarrow> False | Inr _ \<Rightarrow> True)"

subsection \<open>Notions of the specification\<close>


definition in_run :: "(nat \<times> nat) option \<Rightarrow> nat \<Rightarrow> bool" where
  "in_run r i = (case r of None \<Rightarrow> False | Some (off, l) \<Rightarrow> off \<le> i \<and> i < off + l)"

text \<open>The header that \<^verbatim>\<open>bruteForce\<close> puts before the object.\<close>

definition header :: "string \<Rightarrow> string" where
  "header obj = ''commit '' @ dec (length obj) @ [CHR 0x00]"

text \<open>The text between two offsets replaced by another.\<close>

definition replace_range :: "string \<Rightarrow> nat \<times> nat \<Rightarrow> string \<Rightarrow> string" where
  "replace_range h r new = take (fst r) h @ new @ drop (snd r) h"

text \<open>
  The record rebuilt with the timestamps of a solution: in the serialized commit, the
  timestamp field of the author line and that of the committer line are replaced by the
  two dates as \<^verbatim>\<open>String\<close> renders them, and the header is written anew for the
  resulting length.  The field further down is replaced first, so that the offsets of the
  other stay as they are.
\<close>

definition rebuild :: "string \<Rightarrow> solution \<Rightarrow> string" where
  "rebuild obj s =
    (let b = mkblob obj; hl = length b - length obj in
     case (FindSubmatchIndex authorDateRx b, FindSubmatchIndex committerDateRx b) of
       (Some a, Some c) \<Rightarrow>
         (let b' = (if fst a \<le> fst c
                    then replace_range (replace_range b c (date_String (committer s))) a (date_String (author s))
                    else replace_range (replace_range b a (date_String (author s))) c (date_String (committer s)))
          in mkblob (drop hl b'))
     | _ \<Rightarrow> b)"


text \<open>Decimal text in the form \<^verbatim>\<open>%d\<close> writes: no plus sign, no leading zero, no
  negative zero.\<close>

definition is_digit :: "char \<Rightarrow> bool" where
  "is_digit c = (48 \<le> (of_char c :: nat) \<and> (of_char c :: nat) \<le> 57)"

definition canonical_nat :: "string \<Rightarrow> bool" where
  "canonical_nat ds = (ds \<noteq> [] \<and> list_all is_digit ds \<and> (hd ds = CHR ''0'' \<longrightarrow> ds = ''0''))"

definition canonical_dec :: "string \<Rightarrow> bool" where
  "canonical_dec ds =
    (canonical_nat ds \<or> (ds \<noteq> [] \<and> hd ds = CHR ''-'' \<and> canonical_nat (tl ds) \<and> tl ds \<noteq> ''0''))"

text \<open>Hexadecimal text: one digit or more, in either case of the letters.\<close>

definition is_hex_digit :: "char \<Rightarrow> bool" where
  "is_hex_digit c = (fromHexChar c \<noteq> None)"

definition is_hex_string :: "string \<Rightarrow> bool" where
  "is_hex_string s = (s \<noteq> [] \<and> list_all is_hex_digit s)"

fun hex_value :: "nat \<Rightarrow> string \<Rightarrow> nat" where
  "hex_value n [] = n"
| "hex_value n (c # cs) =
    hex_value (n * 16 + (case fromHexChar c of None \<Rightarrow> 0 | Some d \<Rightarrow> d)) cs"

text \<open>The number a string of decimal digits denotes, continuing from \<open>n\<close>.\<close>

fun dec_value :: "nat \<Rightarrow> string \<Rightarrow> nat" where
  "dec_value n [] = n"
| "dec_value n (c # cs) = dec_value (n * 10 + (of_char c - 48)) cs"

text \<open>The same for the digits that \<^verbatim>\<open>ParseUint\<close> reads in a base.\<close>

definition valid_digit :: "nat \<Rightarrow> char \<Rightarrow> bool" where
  "valid_digit b c = (case digit_of c of None \<Rightarrow> False | Some d \<Rightarrow> d < b)"

fun digits_value :: "nat \<Rightarrow> nat \<Rightarrow> string \<Rightarrow> nat" where
  "digits_value b n [] = n"
| "digits_value b n (c # cs) =
    digits_value b (n * b + (case digit_of c of None \<Rightarrow> 0 | Some d \<Rightarrow> d)) cs"

text \<open>A commit object to try the definitions on: the empty tree, one author and committer
  line each with the given seconds, the message \<^verbatim>\<open>initial commit\<close>.\<close>

definition example_commit :: "string \<Rightarrow> string \<Rightarrow> string" where
  "example_commit a c =
    ''tree 4b825dc642cb6eb9a060e54bf8d69288fbee4904'' @ [nl]
    @ ''author a <a> '' @ a @ '' +0000'' @ [nl]
    @ ''committer a <a> '' @ c @ '' +0000'' @ [nl, nl]
    @ ''initial commit'' @ [nl]"

subsection \<open>main and its goroutines\<close>

text \<open>
  The part of \<^verbatim>\<open>main\<close> from the making of the channels on, with the goroutine of
  \<^verbatim>\<open>explore\<close> and the goroutines of \<^verbatim>\<open>bruteForce\<close>, as a transition system in which one
  goroutine moves at a time.

  A worker has not yet run (\<open>Starting\<close>); it is at the head of its loop, about to receive
  from \<^verbatim>\<open>possibilities\<close> (\<open>Ready\<close>); it has received a candidate and taken the \<^verbatim>\<open>default\<close>
  branch of the \<^verbatim>\<open>select\<close> (\<open>Working\<close>); it is at \<^verbatim>\<open>winner <- solution{ad, cd}\<close>, which
  on the unbuffered channel waits for the receiver (\<open>Sending\<close>); its send has been taken
  and it has returned (\<open>Sent\<close>); or it has found \<^verbatim>\<open>done\<close> closed and returned
  (\<open>Returned\<close>).
\<close>

record wstate =
  w_author :: date
  w_adatei :: nat
  w_committer :: date
  w_cdatei :: nat
  buffers :: worker

datatype wstatus =
  Starting | Ready wstate | Working wstate try_t | Sending solution | Sent solution | Returned

text \<open>
  \<^verbatim>\<open>main\<close> is at \<^verbatim>\<open>w := <-winner\<close> (\<open>Receiving\<close>), has received \<open>w\<close> and is about to
  \<^verbatim>\<open>close(done)\<close> (\<open>Received\<close>), or has closed \<^verbatim>\<open>done\<close> and goes on to amend the commit
  with \<open>w\<close> (\<open>Closed\<close>).
\<close>

datatype mstatus = Receiving | Received solution | Closed solution

text \<open>
  \<open>sequencer\<close> is where \<^verbatim>\<open>explore\<close> stands, \<open>possibilities\<close> the content of the buffered
  channel, oldest first, \<open>done_closed\<close> whether \<^verbatim>\<open>done\<close> is closed, and \<open>exited\<close> whether the
  process has ended: in \<^verbatim>\<open>log.Fatalf\<close>, in a panic, or because \<^verbatim>\<open>main\<close> has returned.
\<close>

record system =
  sequencer :: explore_state
  possibilities :: "try_t list"
  workers :: "wstatus list"
  coordinator :: mstatus
  done_closed :: bool
  exited :: bool

text \<open>The state when \<^verbatim>\<open>main\<close> has started \<open>P\<close> workers (\<^verbatim>\<open>*cpu\<close>) and nothing has run.\<close>

definition init :: "nat \<Rightarrow> system" where
  "init P = \<lparr>sequencer = FirstLoop 0 0, possibilities = [], workers = replicate P Starting,
             coordinator = Receiving, done_closed = False, exited = False\<rparr>"

text \<open>
  The moves, for the prefix \<open>p\<close> and the commit \<open>obj\<close>.  \<^verbatim>\<open>explore\<close> evaluates a loop
  condition, and sends when the channel has room for one more of its 512 elements.  A
  worker starts (the room behind its blob is the runtime's choice), ends the process when
  \<^verbatim>\<open>getDate\<close> fails, receives a candidate and returns when \<^verbatim>\<open>done\<close> is closed, or tries
  the candidate.  \<^verbatim>\<open>main\<close> receives from a worker that is sending, closes \<^verbatim>\<open>done\<close>, and
  returns.
\<close>

inductive sys_step :: "string \<Rightarrow> string \<Rightarrow> system \<Rightarrow> system \<Rightarrow> bool" for p obj where
  explore_loop:
    "\<not> exited \<sigma> \<Longrightarrow> explore_step (sequencer \<sigma>) = (None, g)
     \<Longrightarrow> sys_step p obj \<sigma> (\<sigma>\<lparr>sequencer := g\<rparr>)"
| explore_send:
    "\<not> exited \<sigma> \<Longrightarrow> explore_step (sequencer \<sigma>) = (Some t, g) \<Longrightarrow> length (possibilities \<sigma>) < 512
     \<Longrightarrow> sys_step p obj \<sigma> (\<sigma>\<lparr>sequencer := g, possibilities := possibilities \<sigma> @ [t]\<rparr>)"
| worker_start:
    "\<not> exited \<sigma> \<Longrightarrow> i < length (workers \<sigma>) \<Longrightarrow> workers \<sigma> ! i = Starting
     \<Longrightarrow> getDate (mkblob obj) authorDateRx = Inr (aD, ai)
     \<Longrightarrow> getDate (mkblob obj) committerDateRx = Inr (cD, ci)
     \<Longrightarrow> sys_step p obj \<sigma>
          (\<sigma>\<lparr>workers := (workers \<sigma>)[i := Ready \<lparr>w_author = aD, w_adatei = ai, w_committer = cD,
                 w_cdatei = ci,
                 buffers = \<lparr>blob = bytes_slice (mkblob obj) spare, hexBuf = make_empty 40\<rparr>\<rparr>]\<rparr>)"
| worker_fatal:
    "\<not> exited \<sigma> \<Longrightarrow> i < length (workers \<sigma>) \<Longrightarrow> workers \<sigma> ! i = Starting
     \<Longrightarrow> getDate (mkblob obj) authorDateRx = Inl e
         \<or> (\<exists>r. getDate (mkblob obj) authorDateRx = Inr r) \<and> getDate (mkblob obj) committerDateRx = Inl e
     \<Longrightarrow> sys_step p obj \<sigma> (\<sigma>\<lparr>exited := True\<rparr>)"
| worker_cancelled:
    "\<not> exited \<sigma> \<Longrightarrow> i < length (workers \<sigma>) \<Longrightarrow> workers \<sigma> ! i = Ready r
     \<Longrightarrow> possibilities \<sigma> = t # q \<Longrightarrow> done_closed \<sigma>
     \<Longrightarrow> sys_step p obj \<sigma> (\<sigma>\<lparr>possibilities := q, workers := (workers \<sigma>)[i := Returned]\<rparr>)"
| worker_take:
    "\<not> exited \<sigma> \<Longrightarrow> i < length (workers \<sigma>) \<Longrightarrow> workers \<sigma> ! i = Ready r
     \<Longrightarrow> possibilities \<sigma> = t # q \<Longrightarrow> \<not> done_closed \<sigma>
     \<Longrightarrow> sys_step p obj \<sigma> (\<sigma>\<lparr>possibilities := q, workers := (workers \<sigma>)[i := Working r t]\<rparr>)"
| worker_miss:
    "\<not> exited \<sigma> \<Longrightarrow> i < length (workers \<sigma>) \<Longrightarrow> workers \<sigma> ! i = Working r t
     \<Longrightarrow> attempt (ToLower p) (w_author r) (w_adatei r) (w_committer r) (w_cdatei r) (buffers r) t
           = Some (w', s, False)
     \<Longrightarrow> sys_step p obj \<sigma> (\<sigma>\<lparr>workers := (workers \<sigma>)[i := Ready (r\<lparr>buffers := w'\<rparr>)]\<rparr>)"
| worker_hit:
    "\<not> exited \<sigma> \<Longrightarrow> i < length (workers \<sigma>) \<Longrightarrow> workers \<sigma> ! i = Working r t
     \<Longrightarrow> attempt (ToLower p) (w_author r) (w_adatei r) (w_committer r) (w_cdatei r) (buffers r) t
           = Some (w', s, True)
     \<Longrightarrow> sys_step p obj \<sigma> (\<sigma>\<lparr>workers := (workers \<sigma>)[i := Sending s]\<rparr>)"
| worker_panic:
    "\<not> exited \<sigma> \<Longrightarrow> i < length (workers \<sigma>) \<Longrightarrow> workers \<sigma> ! i = Working r t
     \<Longrightarrow> attempt (ToLower p) (w_author r) (w_adatei r) (w_committer r) (w_cdatei r) (buffers r) t = None
     \<Longrightarrow> sys_step p obj \<sigma> (\<sigma>\<lparr>exited := True\<rparr>)"
| deliver:
    "\<not> exited \<sigma> \<Longrightarrow> coordinator \<sigma> = Receiving \<Longrightarrow> i < length (workers \<sigma>)
     \<Longrightarrow> workers \<sigma> ! i = Sending s
     \<Longrightarrow> sys_step p obj \<sigma> (\<sigma>\<lparr>workers := (workers \<sigma>)[i := Sent s], coordinator := Received s\<rparr>)"
| close_done:
    "\<not> exited \<sigma> \<Longrightarrow> coordinator \<sigma> = Received s
     \<Longrightarrow> sys_step p obj \<sigma> (\<sigma>\<lparr>coordinator := Closed s, done_closed := True\<rparr>)"
| main_return:
    "\<not> exited \<sigma> \<Longrightarrow> coordinator \<sigma> = Closed s
     \<Longrightarrow> sys_step p obj \<sigma> (\<sigma>\<lparr>exited := True\<rparr>)"

text \<open>The solutions whose send has been taken, and the solutions \<^verbatim>\<open>main\<close> holds.\<close>

fun sent_of :: "wstatus \<Rightarrow> solution list" where
  "sent_of (Sent s) = [s]"
| "sent_of _ = []"

definition delivered :: "system \<Rightarrow> solution list" where
  "delivered \<sigma> = concat (map sent_of (workers \<sigma>))"

fun received :: "mstatus \<Rightarrow> solution list" where
  "received Receiving = []"
| "received (Received s) = [s]"
| "received (Closed s) = [s]"

text \<open>
  What holds in every state the system reaches: there are \<open>P\<close> workers; the sends that have
  been taken are the solutions \<^verbatim>\<open>main\<close> holds; \<^verbatim>\<open>done\<close> is closed exactly when \<^verbatim>\<open>main\<close> has
  passed \<^verbatim>\<open>close(done)\<close>.
\<close>

definition sys_inv :: "nat \<Rightarrow> system \<Rightarrow> bool" where
  "sys_inv P \<sigma> \<longleftrightarrow> length (workers \<sigma>) = P \<and> delivered \<sigma> = received (coordinator \<sigma>)
      \<and> (done_closed \<sigma> \<longleftrightarrow> (\<exists>s. coordinator \<sigma> = Closed s))"

section \<open>Properties\<close>

subsection \<open>hexInPlace\<close>

lemma unat_of_char8: "unat (of_char c :: 8 word) = of_char c"
proof -
  have "(of_char c :: 8 word) = of_nat (of_char c)" by (simp add: of_nat_of_char)
  then show ?thesis by (simp add: unat_of_nat)
qed

lemma nibble_hi: "unat (drop_bit 4 (of_char c :: 8 word)) = of_char c div 16"
  by (simp add: unat_div unat_of_char8 drop_bit_eq_div)

lemma nibble_lo: "unat ((of_char c :: 8 word) AND 0xf) = of_char c mod 16"
proof -
  have "(0xf :: 8 word) = mask 4" by (simp add: mask_eq_exp_minus_1)
  then have "(of_char c :: 8 word) AND 0xf = take_bit 4 (of_char c :: 8 word)"
    by (simp add: take_bit_eq_mask)
  then show ?thesis by (simp add: unat_mod unat_of_char8 take_bit_eq_mod)
qed

lemma length_hex: "length hex = 16"
  by (simp add: hex_def)

lemma of_char_div16: "(of_char c :: nat) div 16 < 16"
proof -
  have "(of_char c :: nat) < 256" by (rule nat_of_char_less_256)
  then show ?thesis by arith
qed

lemma index_hex_hi: "index hex (unat (drop_bit 4 (of_char c :: 8 word))) = Some (hex ! (of_char c div 16))"
  by (simp add: index_def nibble_hi length_hex of_char_div16)

lemma index_hex_lo: "index hex (unat ((of_char c :: 8 word) AND 0xf)) = Some (hex ! (of_char c mod 16))"
  by (simp add: index_def nibble_lo length_hex)

lemma drop_update2:
  "j + 1 < length a \<Longrightarrow> drop j (a[j := x, j + 1 := y]) = x # y # drop (j + 2) a"
  by (simp add: list_eq_iff_nth_eq nth_list_update nth_Cons split: nat.splits)

lemma hex_encode_snoc: "hex_encode (bs @ [b]) = hex_encode bs @ [hex ! (of_char b div 16), hex ! (of_char b mod 16)]"
  by (simp add: hex_encode_def)

lemma hex_loop_eq:
  "k \<le> n \<Longrightarrow> n * 2 \<le> length a \<Longrightarrow>
   hex_loop n k a = Some (hex_encode (take k a) @ drop (k * 2) a)"
proof (induction k arbitrary: a)
  case 0
  then show ?case by (simp add: hex_encode_def)
next
  case (Suc i)
  let ?hi = "hex ! (of_char (a ! i) div 16)"
  let ?lo = "hex ! (of_char (a ! i) mod 16)"
  let ?a' = "a[i * 2 + 0 := ?hi, i * 2 + 1 := ?lo]"
  from Suc.prems have i: "i < n" "i * 2 + 1 < n * 2" "i * 2 + 1 < length a" "i < length a" by auto
  have step: "hex_loop n (Suc i) a = hex_loop n i ?a'"
    using i Suc.prems by (simp add: index_hex_hi index_hex_lo Let_def)
  have "hex_loop n i ?a' = Some (hex_encode (take i ?a') @ drop (i * 2) ?a')"
    using Suc.prems by (intro Suc.IH) auto
  moreover have "take i ?a' = take i a" by simp
  moreover have "drop (i * 2) ?a' = ?hi # ?lo # drop (i * 2 + 2) a"
    using drop_update2[of "i * 2" a ?hi ?lo] i by simp
  moreover have "hex_encode (take (Suc i) a) = hex_encode (take i a) @ [?hi, ?lo]"
    using i by (simp add: take_Suc_conv_app_nth hex_encode_snoc)
  ultimately show ?case using step by simp
qed

lemma hexInPlace_encode:
  assumes "len v * 2 \<le> cap v"
  shows "hexInPlace v = Some \<lparr>arr = hex_encode (bytes_of v) @ drop (len v * 2) (arr v), len = len v * 2\<rparr>"
  using assms hex_loop_eq[of "len v" "len v" "arr v"]
  by (simp add: hexInPlace_def cap_def bytes_of_def)

lemma length_hex_encode: "length (hex_encode bs) = 2 * length bs"
  by (induction bs) (simp_all add: hex_encode_def)

lemma hex_nth_mem: "k < 16 \<Longrightarrow> hex ! k \<in> set hex"
  by (simp add: length_hex)

lemma hex_encode_lower: "c \<in> set (hex_encode bs) \<Longrightarrow> lower_hex_char c"
  by (induction bs) (auto simp: hex_encode_def lower_hex_char_def of_char_div16 intro!: hex_nth_mem)

lemma small_cases:
  "(k::nat) < 16 \<Longrightarrow> k \<in> set [0, 1, 2, 3, 4, 5, 6, 7, 8, 9, 10, 11, 12, 13, 14, 15]"
  by (simp only: set_simps insert_iff empty_iff) arith

lemma fromHexChar_hex: "k < 16 \<Longrightarrow> fromHexChar (hex ! k) = Some k"
  using small_cases[of k] by (auto simp: hex_def fromHexChar_def)

lemma char_of_div_mod: "char_of ((of_char c :: nat) div 16 * 16 + of_char c mod 16) = c"
  by simp

lemma hex_decode_encode: "hex_decode (hex_encode bs) = Some bs"
proof (induction bs)
  case Nil
  then show ?case by (simp add: hex_encode_def)
next
  case (Cons b bs)
  have "hex_encode (b # bs) = hex ! (of_char b div 16) # hex ! (of_char b mod 16) # hex_encode bs"
    by (simp add: hex_encode_def)
  then show ?case
    using Cons.IH by (simp add: fromHexChar_hex of_char_div16 char_of_div_mod)
qed

lemma bytes_of_hexInPlace:
  assumes "len v * 2 \<le> cap v"
  shows "map_option bytes_of (hexInPlace v) = Some (hex_encode (bytes_of v))"
proof -
  have "length (hex_encode (bytes_of v)) = len v * 2"
    using assms by (simp add: length_hex_encode bytes_of_def cap_def)
  then show ?thesis
    using hexInPlace_encode[OF assms] by (simp add: bytes_of_def)
qed

text \<open>
  C9: \<^verbatim>\<open>hexInPlace\<close> needs a slice whose capacity is at least twice its length.  For every
  such slice the re-slicing and every index access of the loop are in bounds (the result is
  not the panic \<open>None\<close>), and the slice returned, over the same backing array, holds the
  hexadecimal rendering of the bytes that the argument held on entry: the loop runs from
  the highest index down, so no input byte is overwritten before it is read.  The bytes of
  the array beyond the result are left as they were.  With less capacity the re-slicing
  panics.
\<close>

theorem hexInPlace_capacity_precondition:
  "(len v * 2 \<le> cap v \<longrightarrow>
      (\<exists>h. hexInPlace v = Some h \<and> len h = len v * 2 \<and> cap h = cap v
         \<and> bytes_of h = hex_encode (bytes_of v)
         \<and> drop (len h) (arr h) = drop (len h) (arr v)))
   \<and> (cap v < len v * 2 \<longrightarrow> hexInPlace v = None)"
proof (intro conjI impI)
  assume c: "len v * 2 \<le> cap v"
  let ?h = "\<lparr>arr = hex_encode (bytes_of v) @ drop (len v * 2) (arr v), len = len v * 2\<rparr>"
  have l: "length (hex_encode (bytes_of v)) = len v * 2"
    using c by (simp add: length_hex_encode bytes_of_def cap_def)
  have "hexInPlace v = Some ?h" by (rule hexInPlace_encode[OF c])
  moreover have "cap ?h = cap v" using c l by (simp add: cap_def)
  moreover have "bytes_of ?h = hex_encode (bytes_of v)" using l by (simp add: bytes_of_def)
  moreover have "drop (len ?h) (arr ?h) = drop (len ?h) (arr v)" using l by simp
  ultimately show "\<exists>h. hexInPlace v = Some h \<and> len h = len v * 2 \<and> cap h = cap v
         \<and> bytes_of h = hex_encode (bytes_of v)
         \<and> drop (len h) (arr h) = drop (len h) (arr v)"
    by (intro exI[of _ ?h]) simp
next
  assume "cap v < len v * 2"
  then show "hexInPlace v = None" by (simp add: hexInPlace_def)
qed

theorem hexInPlace_capacity_precondition_witness:
  "hexInPlace \<lparr>arr = [CHR 0xAB, CHR 0x01, CHR ''x'', CHR ''y'', CHR ''z''], len = 2\<rparr>
     = Some \<lparr>arr = ''ab01z'', len = 4\<rparr>
   \<and> hexInPlace \<lparr>arr = [CHR 0xAB, CHR 0x01, CHR ''x''], len = 2\<rparr> = None"
proof -
  let ?v = "\<lparr>arr = [CHR 0xAB, CHR 0x01, CHR ''x'', CHR ''y'', CHR ''z''], len = 2\<rparr>"
  let ?u = "\<lparr>arr = [CHR 0xAB, CHR 0x01, CHR ''x''], len = 2\<rparr>"
  have "len ?v * 2 \<le> cap ?v" by (simp add: cap_def)
  with hexInPlace_capacity_precondition[of ?v]
  obtain h where h: "hexInPlace ?v = Some h" "len h = 4" "bytes_of h = hex_encode (bytes_of ?v)"
    "drop (len h) (arr h) = drop (len h) (arr ?v)" "cap h = cap ?v"
    by auto
  have "arr h = take (len h) (arr h) @ drop (len h) (arr h)" by simp
  also have "\<dots> = ''ab01z''"
    using h by (simp add: bytes_of_def hex_encode_def hex_def)
  finally have "h = \<lparr>arr = ''ab01z'', len = 4\<rparr>" using h(2) by simp
  moreover have "cap ?u < len ?u * 2" by (simp add: cap_def)
  with hexInPlace_capacity_precondition[of ?u] have "hexInPlace ?u = None" by blast
  ultimately show ?thesis using h(1) by simp
qed

text \<open>
  C5 (as amended): for every byte buffer held in a slice whose capacity is at least twice
  its length, the hex encoder returns an output of exactly twice the length, made of
  lowercase hexadecimal characters only; the output is a function of the bytes alone (any
  other slice with the same bytes and enough capacity gives the same output), and decoding
  it gives the bytes back.
\<close>

theorem hex_encoder_roundtrip:
  assumes "len v * 2 \<le> cap v"
  shows "\<exists>h. hexInPlace v = Some h
          \<and> length (bytes_of h) = 2 * length (bytes_of v)
          \<and> list_all lower_hex_char (bytes_of h)
          \<and> hex_decode (bytes_of h) = Some (bytes_of v)
          \<and> (\<forall>v'. len v' * 2 \<le> cap v' \<and> bytes_of v' = bytes_of v
                \<longrightarrow> map_option bytes_of (hexInPlace v') = Some (bytes_of h))"
proof -
  from bytes_of_hexInPlace[OF assms]
  obtain h where h: "hexInPlace v = Some h" "bytes_of h = hex_encode (bytes_of v)"
    by auto
  have "list_all lower_hex_char (hex_encode (bytes_of v))"
    by (simp add: list_all_iff hex_encode_lower)
  moreover have "\<forall>v'. len v' * 2 \<le> cap v' \<and> bytes_of v' = bytes_of v
                \<longrightarrow> map_option bytes_of (hexInPlace v') = Some (hex_encode (bytes_of v))"
    using bytes_of_hexInPlace by metis
  ultimately show ?thesis
    using h by (simp add: length_hex_encode hex_decode_encode)
qed

theorem hex_encoder_roundtrip_witness:
  "\<exists>h. hexInPlace \<lparr>arr = [CHR 0xAB, CHR 0x01, CHR ''x'', CHR ''y'', CHR ''z''], len = 2\<rparr> = Some h
     \<and> bytes_of h = ''ab01'' \<and> hex_decode (bytes_of h) = Some [CHR 0xAB, CHR 0x01]"
proof -
  let ?v = "\<lparr>arr = [CHR 0xAB, CHR 0x01, CHR ''x'', CHR ''y'', CHR ''z''], len = 2\<rparr>"
  let ?w = "\<lparr>arr = [CHR 0xAB, CHR 0x01, CHR ''x'', CHR ''y'', CHR ''z''], len = 2\<rparr>"
  have c: "len ?v * 2 \<le> cap ?v" by (simp add: cap_def)
  from hex_encoder_roundtrip[OF c]
  obtain h where h: "hexInPlace ?v = Some h" "hex_decode (bytes_of h) = Some (bytes_of ?v)"
    "length (bytes_of h) = 2 * length (bytes_of ?v)"
    by blast
  have "hexInPlace ?v = Some \<lparr>arr = ''ab01z'', len = 4\<rparr>"
    using hexInPlace_encode[OF c] by (simp add: bytes_of_def hex_encode_def hex_def)
  with h have e: "h = \<lparr>arr = ''ab01z'', len = 4\<rparr>" by simp
  then have "bytes_of h = ''ab01''" by (simp add: bytes_of_def)
  with h show ?thesis by (simp add: bytes_of_def)
qed

text \<open>The claim as stated fails for a one-byte slice of capacity one, such as the
  literal \<^verbatim>\<open>[]byte{0xab}\<close>: the encoder panics.\<close>

theorem hex_encoder_small_capacity_counterexample:
  "hexInPlace \<lparr>arr = [CHR 0xAB], len = 1\<rparr> = None"
  by (simp add: hexInPlace_def cap_def)

subsection \<open>One candidate\<close>

lemma length_word_bytes: "length (word_bytes w) = 4"
  by (simp add: word_bytes_def)

lemma length_sha1: "length (sha1 m) = 20"
  by (simp add: sha1_def length_word_bytes split: prod.splits)

lemma append_slice_in_place:
  assumes "fits dst s"
  shows "cap (append_slice dst s) = cap dst"
    and "bytes_of (append_slice dst s) = bytes_of dst @ s"
  using assms by (simp_all add: append_slice_def fits_def cap_def bytes_of_def overwrite_def)

lemma write_date_cases:
  assumes "i \<le> cap b"
  shows "write_date b i x =
           Some (if i + length (FormatInt x) \<le> cap b
                 then b\<lparr>arr := overwrite (arr b) i (FormatInt x)\<rparr>
                 else b)"
  using assms by (simp add: write_date_def reslice_def fits_def append_slice_def cap_def)

lemma write_date_shape:
  assumes "i \<le> cap b"
  obtains b' where "write_date b i x = Some b'" "cap b' = cap b" "len b' = len b"
  using assms by (simp add: write_date_cases cap_def overwrite_def)

lemma rewrite_shape:
  assumes "adatei \<le> cap b" "cdatei \<le> cap b"
  obtains b' where "rewrite authorDate adatei commitDate cdatei b t = Some b'"
    "cap b' = cap b" "len b' = len b"
proof -
  obtain b1 where b1: "write_date b adatei (date_n (shifted authorDate (authorBehind t))) = Some b1"
    "cap b1 = cap b" "len b1 = len b"
    using assms(1) by (rule write_date_shape)
  obtain b2 where b2: "write_date b1 cdatei (date_n (shifted commitDate (commitBehind t))) = Some b2"
    "cap b2 = cap b1" "len b2 = len b1"
  proof -
    have "cdatei \<le> cap b1" using assms(2) b1(2) by simp
    then show thesis by (rule write_date_shape) (rule that)
  qed
  show thesis
    using b1 b2 by (intro that[of b2]) (simp_all add: rewrite_def Let_def)
qed

lemma digest_hex:
  assumes "40 \<le> cap hb"
  shows "\<exists>h. hexInPlace (append_slice (hb\<lparr>len := 0\<rparr>) (sha1 m)) = Some h
           \<and> bytes_of h = hex_encode (sha1 m) \<and> cap h = cap hb"
proof -
  let ?s = "append_slice (hb\<lparr>len := 0\<rparr>) (sha1 m)"
  have f: "fits (hb\<lparr>len := 0\<rparr>) (sha1 m)"
    using assms by (simp add: fits_def cap_def length_sha1)
  have c: "cap ?s = cap hb" using append_slice_in_place(1)[OF f] by (simp add: cap_def)
  have b: "bytes_of ?s = sha1 m" using append_slice_in_place(2)[OF f] by (simp add: bytes_of_def)
  have l: "len ?s = 20" using f by (simp add: append_slice_def length_sha1)
  have pre: "len ?s * 2 \<le> cap ?s" using assms c l by simp
  from hexInPlace_encode[OF pre] bytes_of_hexInPlace[OF pre] b c l assms
  show ?thesis
    by (auto simp: cap_def length_hex_encode length_sha1)
qed

lemma attempt_Some:
  assumes "adatei \<le> cap (blob w)" "cdatei \<le> cap (blob w)" "40 \<le> cap (hexBuf w)"
  obtains w' hit where
    "attempt p authorDate adatei commitDate cdatei w t =
       Some (w', \<lparr>author = shifted authorDate (authorBehind t),
                  committer = shifted commitDate (commitBehind t)\<rparr>, hit)"
    "rewrite authorDate adatei commitDate cdatei (blob w) t = Some (blob w')"
    "hit = HasPrefix (hex_encode (sha1 (bytes_of (blob w')))) p"
    "cap (blob w') = cap (blob w)" "len (blob w') = len (blob w)" "cap (hexBuf w') = cap (hexBuf w)"
proof -
  obtain b where b: "rewrite authorDate adatei commitDate cdatei (blob w) t = Some b"
    "cap b = cap (blob w)" "len b = len (blob w)"
    using assms(1,2) by (rule rewrite_shape)
  have r: "reslice (hexBuf w) 0 = Some ((hexBuf w)\<lparr>len := 0\<rparr>)"
    by (simp add: reslice_def)
  obtain h where h: "hexInPlace (append_slice ((hexBuf w)\<lparr>len := 0\<rparr>) (sha1 (bytes_of b))) = Some h"
    "bytes_of h = hex_encode (sha1 (bytes_of b))" "cap h = cap (hexBuf w)"
    using digest_hex[OF assms(3)] by blast
  let ?w' = "\<lparr>blob = b,
      hexBuf = (if fits ((hexBuf w)\<lparr>len := 0\<rparr>) (sha1 (bytes_of b)) then (hexBuf w)\<lparr>arr := arr h\<rparr> else hexBuf w)\<rparr>"
  have "attempt p authorDate adatei commitDate cdatei w t =
       Some (?w', \<lparr>author = shifted authorDate (authorBehind t),
                  committer = shifted commitDate (commitBehind t)\<rparr>,
             HasPrefix (hex_encode (sha1 (bytes_of b))) p)"
    using b(1) r h(1,2) by (simp add: attempt_def Let_def)
  moreover have "cap (hexBuf ?w') = cap (hexBuf w)"
    using h(3) by (simp add: cap_def)
  ultimately show thesis
    using b by (intro that[of ?w']) simp_all
qed

subsection \<open>explore\<close>

lemma sint_of_nat64: "k < 2 ^ 63 \<Longrightarrow> sint (of_nat k :: 64 word) = int k"
proof -
  assume k: "k < 2 ^ 63"
  have "int k < 2 ^ 63" using k by (metis of_nat_less_iff of_nat_numeral of_nat_power)
  then have "signed_take_bit 63 (int k) = int k"
    by (intro signed_take_bit_int_eq_self) simp_all
  moreover have "(of_nat k :: 64 word) = word_of_int (int k)" by simp
  ultimately show ?thesis by (simp only: sint_sbintrunc') simp
qed

lemma sint_min64: "sint (of_nat (2 ^ 63) :: 64 word) = - (2 ^ 63)"
  by simp

lemma sle_of_nat64:
  "i < 2 ^ 63 \<Longrightarrow> m < 2 ^ 63 \<Longrightarrow> (of_nat i :: 64 word) \<le>s of_nat m \<longleftrightarrow> i \<le> m"
  by (simp add: word_sle_eq sint_of_nat64)

lemma sint_pred64: "m < 2 ^ 63 \<Longrightarrow> sint (of_nat m - 1 :: 64 word) = int m - 1"
proof -
  assume m: "m < 2 ^ 63"
  have b: "int m < 2 ^ 63" using m by (metis of_nat_less_iff of_nat_numeral of_nat_power)
  have "sint (of_nat m - 1 :: 64 word) = signed_take_bit 63 (sint (of_nat m :: 64 word) - sint (1 :: 64 word))"
    by (simp add: sint_word_diff)
  also have "\<dots> = signed_take_bit 63 (int m - 1)" using m by (simp add: sint_of_nat64)
  also have "\<dots> = int m - 1" using b by (intro signed_take_bit_int_eq_self) simp_all
  finally show ?thesis .
qed

lemma first_cond64:
  "i < 2 ^ 63 \<Longrightarrow> m < 2 ^ 63 \<Longrightarrow> (of_nat i :: 64 word) \<le>s of_nat m - 1 \<longleftrightarrow> i < m"
  by (auto simp add: word_sle_eq sint_of_nat64 sint_pred64)

lemma explore_run_add:
  "explore_run (a + b) s =
    (fst (explore_run a s) @ fst (explore_run b (snd (explore_run a s))),
     snd (explore_run b (snd (explore_run a s))))"
  by (induction a arbitrary: s) (auto split: prod.splits option.splits)

lemma first_loop_run:
  assumes "m < 2 ^ 63" "i \<le> m"
  shows "explore_run (Suc (m - i)) (FirstLoop (of_nat m) (of_nat i))
           = (map (\<lambda>i. mk_try i m) [i ..< m], SecondLoop (of_nat m) 0)"
  using assms
proof (induction "m - i" arbitrary: i)
  case 0
  then have "i = m" by simp
  then show ?case using 0 by (simp add: first_cond64)
next
  case (Suc d)
  then have i: "i < m" "i < 2 ^ 63" "Suc i \<le> m" "d = m - Suc i" by auto
  have step: "explore_step (FirstLoop (of_nat m) (of_nat i))
                = (Some (mk_try i m), FirstLoop (of_nat m) (of_nat (Suc i)))"
    using i Suc.prems by (simp add: first_cond64 mk_try_def)
  have "explore_run (Suc (m - Suc i)) (FirstLoop (of_nat m) (of_nat (Suc i)))
           = (map (\<lambda>i. mk_try i m) [Suc i ..< m], SecondLoop (of_nat m) 0)"
    using Suc.hyps(1)[OF i(4) Suc.prems(1) i(3)] .
  moreover have "Suc (m - i) = Suc (Suc (m - Suc i))" using i by simp
  ultimately show ?case
    using step i by (simp add: upt_conv_Cons del: upt_Suc)
qed

lemma second_loop_run:
  assumes "m < 2 ^ 63" "j \<le> Suc m"
  shows "explore_run (Suc m - j) (SecondLoop (of_nat m) (of_nat j))
           = (map (\<lambda>j. mk_try m j) [j ..< Suc m], SecondLoop (of_nat m) (of_nat (Suc m)))"
  using assms
proof (induction "Suc m - j" arbitrary: j)
  case 0
  then have "j = Suc m" by simp
  then show ?case by simp
next
  case (Suc d)
  then have j: "j \<le> m" "j < 2 ^ 63" "Suc j \<le> Suc m" "d = Suc m - Suc j" by auto
  have step: "explore_step (SecondLoop (of_nat m) (of_nat j))
                = (Some (mk_try m j), SecondLoop (of_nat m) (of_nat (Suc j)))"
    using j Suc.prems by (simp add: sle_of_nat64 mk_try_def)
  have "explore_run (Suc m - Suc j) (SecondLoop (of_nat m) (of_nat (Suc j)))
           = (map (\<lambda>j. mk_try m j) [Suc j ..< Suc m], SecondLoop (of_nat m) (of_nat (Suc m)))"
    using Suc.hyps(1)[OF j(4) Suc.prems(1) j(3)] .
  moreover have "Suc m - j = Suc (Suc m - Suc j)" using j by simp
  ultimately show ?case
    using step j by (simp add: upt_conv_Cons del: upt_Suc)
qed

lemma second_loop_exit:
  assumes "Suc m < 2 ^ 63"
  shows "explore_step (SecondLoop (of_nat m) (of_nat (Suc m))) = (None, FirstLoop (of_nat (Suc m)) 0)"
proof -
  have "\<not> (of_nat (Suc m) :: 64 word) \<le>s of_nat m"
    using assms sle_of_nat64[of "Suc m" m] by simp
  then show ?thesis by simp
qed

lemma level_run:
  assumes "Suc m < 2 ^ 63"
  shows "explore_run (2 * m + 3) (FirstLoop (of_nat m) 0) = (level m, FirstLoop (of_nat (Suc m)) 0)"
proof -
  have m: "m < 2 ^ 63" using assms by simp
  have a: "explore_run (Suc m) (FirstLoop (of_nat m) 0)
             = (map (\<lambda>i. mk_try i m) [0 ..< m], SecondLoop (of_nat m) 0)"
    using first_loop_run[OF m, of 0] by simp
  have b: "explore_run (Suc m) (SecondLoop (of_nat m) 0)
             = (map (\<lambda>j. mk_try m j) [0 ..< Suc m], SecondLoop (of_nat m) (of_nat (Suc m)))"
    using second_loop_run[OF m, of 0] by simp
  have c: "explore_run 1 (SecondLoop (of_nat m) (of_nat (Suc m))) = ([], FirstLoop (of_nat (Suc m)) 0)"
    using second_loop_exit[OF assms] by simp
  have "explore_run (Suc m + (Suc m + 1)) (FirstLoop (of_nat m) 0)
          = (level m, FirstLoop (of_nat (Suc m)) 0)"
    by (simp only: explore_run_add a b c level_def fst_conv snd_conv append_Nil2)
  moreover have "2 * m + 3 = Suc m + (Suc m + 1)" by simp
  ultimately show ?thesis by (simp only:)
qed

lemma steps_through_Suc: "steps_through (Suc m) = steps_through m + (2 * Suc m + 3)"
  by (simp add: steps_through_def algebra_simps)

lemma levels_run:
  assumes "Suc m < 2 ^ 63"
  shows "explore_run (steps_through m) (FirstLoop 0 0)
           = (concat (map level [0 ..< Suc m]), FirstLoop (of_nat (Suc m)) 0)"
  using assms
proof (induction m)
  case 0
  have "explore_run (2 * 0 + 3) (FirstLoop (of_nat 0) 0) = (level 0, FirstLoop (of_nat (Suc 0)) 0)"
    by (rule level_run) simp
  then show ?case by (simp add: steps_through_def)
next
  case (Suc m)
  then have ih: "explore_run (steps_through m) (FirstLoop 0 0)
           = (concat (map level [0 ..< Suc m]), FirstLoop (of_nat (Suc m)) 0)" by simp
  have l: "explore_run (2 * Suc m + 3) (FirstLoop (of_nat (Suc m)) 0)
             = (level (Suc m), FirstLoop (of_nat (Suc (Suc m))) 0)"
    using Suc.prems by (rule level_run)
  have "concat (map level [0 ..< Suc (Suc m)]) = concat (map level [0 ..< Suc m]) @ level (Suc m)"
    by simp
  moreover have "explore_run (steps_through m + (2 * Suc m + 3)) (FirstLoop 0 0)
      = (concat (map level [0 ..< Suc m]) @ level (Suc m), FirstLoop (of_nat (Suc (Suc m))) 0)"
    unfolding explore_run_add[of "steps_through m" "2 * Suc m + 3"] ih fst_conv snd_conv l ..
  ultimately show ?case
    by (simp only: steps_through_Suc)
qed


lemma length_level: "length (level m) = 2 * m + 1"
  by (simp add: level_def)

lemma unat_of_nat64: "k < 2 ^ 64 \<Longrightarrow> unat (of_nat k :: 64 word) = k"
  by (simp add: unat_of_nat)

lemma level_cases:
  assumes "t \<in> set (level m)"
  obtains i where "i < m" "t = mk_try i m" | j where "j \<le> m" "t = mk_try m j"
  using assms by (auto simp: level_def less_Suc_eq_le simp del: upt_Suc)

lemma level_shift_max:
  assumes "t \<in> set (level m)" "m < 2 ^ 64"
  shows "shift_max t = m"
  using assms(1)
proof (cases rule: level_cases)
  case (1 i)
  then show ?thesis using assms(2) by (simp add: shift_max_def mk_try_def unat_of_nat64)
next
  case (2 j)
  then show ?thesis using assms(2) by (simp add: shift_max_def mk_try_def unat_of_nat64)
qed

lemma level_nonneg:
  assumes "t \<in> set (level m)" "m < 2 ^ 63"
  shows "0 \<le> sint (commitBehind t) \<and> 0 \<le> sint (authorBehind t)
         \<and> max (sint (commitBehind t)) (sint (authorBehind t)) = int m"
  using assms(1)
proof (cases rule: level_cases)
  case (1 i)
  then show ?thesis using assms(2) by (simp add: mk_try_def sint_of_nat64)
next
  case (2 j)
  then show ?thesis using assms(2) by (simp add: mk_try_def sint_of_nat64)
qed

lemma mk_try_inj:
  assumes "mk_try c a = mk_try c' a'" "c < 2 ^ 64" "a < 2 ^ 64" "c' < 2 ^ 64" "a' < 2 ^ 64"
  shows "c = c' \<and> a = a'"
proof -
  from assms(1) have "(of_nat c :: 64 word) = of_nat c'" "(of_nat a :: 64 word) = of_nat a'"
    by (simp_all add: mk_try_def)
  then have "unat (of_nat c :: 64 word) = unat (of_nat c' :: 64 word)"
    "unat (of_nat a :: 64 word) = unat (of_nat a' :: 64 word)" by simp_all
  then show ?thesis using assms(2-) by (simp add: unat_of_nat64)
qed

lemma distinct_level:
  assumes "m < 2 ^ 64"
  shows "distinct (level m)"
proof -
  have "inj_on (\<lambda>i. mk_try i m) (set [0 ..< m])"
    using assms by (auto simp: inj_on_def dest!: mk_try_inj)
  moreover have "inj_on (\<lambda>j. mk_try m j) (set [0 ..< Suc m])"
    using assms by (auto simp: inj_on_def dest!: mk_try_inj)
  moreover have "mk_try i m \<noteq> mk_try m j" if "i < m" for i j
  proof
    assume "mk_try i m = mk_try m j"
    then have "(of_nat i :: 64 word) = of_nat m" by (simp add: mk_try_def)
    then have "unat (of_nat i :: 64 word) = unat (of_nat m :: 64 word)" by simp
    then show False using that assms by (simp add: unat_of_nat64)
  qed
  ultimately show ?thesis
    by (auto simp: level_def distinct_map simp del: upt_Suc)
qed

lemma levels_shift_max:
  assumes "t \<in> set (concat (map level [0 ..< k]))" "k \<le> 2 ^ 64"
  shows "shift_max t < k"
proof -
  from assms(1) obtain l where l: "l < k" "t \<in> set (level l)" by auto
  then have "shift_max t = l" using assms(2) by (intro level_shift_max) simp_all
  then show ?thesis using l by simp
qed

lemma distinct_levels:
  assumes "k \<le> 2 ^ 64"
  shows "distinct (concat (map level [0 ..< k]))"
  using assms
proof (induction k)
  case 0
  then show ?case by simp
next
  case (Suc k)
  have "set (concat (map level [0 ..< k])) \<inter> set (level k) = {}"
  proof (rule ccontr)
    assume "set (concat (map level [0 ..< k])) \<inter> set (level k) \<noteq> {}"
    then obtain t where t: "t \<in> set (concat (map level [0 ..< k]))" "t \<in> set (level k)" by blast
    have "shift_max t < k" using t(1) Suc.prems by (intro levels_shift_max) simp_all
    moreover have "shift_max t = k" using t(2) Suc.prems by (intro level_shift_max) simp_all
    ultimately show False by simp
  qed
  moreover have "distinct (level k)" using Suc.prems by (intro distinct_level) simp
  moreover have "distinct (concat (map level [0 ..< k]))" using Suc by simp
  ultimately show ?case by simp
qed

lemma explore_prefix: "explore (k + d) = explore k @ fst (explore_run d (snd (explore_run k (FirstLoop 0 0))))"
  by (simp add: explore_def explore_run_add)

text \<open>
  C2 (as amended): for every level \<open>m\<close> below the largest value of an \<^verbatim>\<open>int\<close>, that is
  \<open>m < 2^63 - 1\<close>, what \<^verbatim>\<open>explore\<close> has sent when it has completed level \<open>m\<close> is the
  pairs of the levels \<open>0, \<dots>, m\<close> in turn, the pairs of level \<open>m\<close> after all pairs of the
  levels below it and in the order \<open>(i, m)\<close> for \<open>i = 0, \<dots>, m - 1\<close>, then \<open>(m, j)\<close> for
  \<open>j = 0, \<dots>, m\<close>; what it had sent at any earlier step is a prefix of that.  Level \<open>m\<close> has
  exactly \<open>2 * m + 1\<close> pairs, each with non-negative shifts whose maximum is \<open>m\<close>, and no
  pair occurs twice among the pairs of the levels \<open>0, \<dots>, m\<close>.
\<close>

theorem explore_levels:
  assumes "m < 2 ^ 63 - 1"
  shows "explore (steps_through m) = concat (map level [0 ..< Suc m])
     \<and> (\<forall>k \<le> steps_through m. \<exists>ys. explore (steps_through m) = explore k @ ys)
     \<and> length (level m) = 2 * m + 1
     \<and> (\<forall>t \<in> set (level m). 0 \<le> sint (commitBehind t) \<and> 0 \<le> sint (authorBehind t)
            \<and> max (sint (commitBehind t)) (sint (authorBehind t)) = int m)
     \<and> distinct (concat (map level [0 ..< Suc m]))"
proof (intro conjI)
  have m: "Suc m < 2 ^ 63" "m < 2 ^ 63" using assms by simp_all
  show "explore (steps_through m) = concat (map level [0 ..< Suc m])"
    using levels_run[OF m(1)] by (simp add: explore_def)
  show "\<forall>k \<le> steps_through m. \<exists>ys. explore (steps_through m) = explore k @ ys"
  proof (intro allI impI)
    fix k assume "k \<le> steps_through m"
    then have "steps_through m = k + (steps_through m - k)" by simp
    then show "\<exists>ys. explore (steps_through m) = explore k @ ys"
      using explore_prefix[of k "steps_through m - k"] by auto
  qed
  show "length (level m) = 2 * m + 1" by (rule length_level)
  show "\<forall>t \<in> set (level m). 0 \<le> sint (commitBehind t) \<and> 0 \<le> sint (authorBehind t)
            \<and> max (sint (commitBehind t)) (sint (authorBehind t)) = int m"
    using level_nonneg[OF _ m(2)] by blast
  have "Suc m \<le> 2 ^ 64" using m(1) by simp
  then show "distinct (concat (map level [0 ..< Suc m]))" by (rule distinct_levels)
qed

theorem explore_levels_witness:
  "explore 15 =
     [\<lparr>commitBehind = 0, authorBehind = 0\<rparr>,
      \<lparr>commitBehind = 0, authorBehind = 1\<rparr>,
      \<lparr>commitBehind = 1, authorBehind = 0\<rparr>,
      \<lparr>commitBehind = 1, authorBehind = 1\<rparr>,
      \<lparr>commitBehind = 0, authorBehind = 2\<rparr>,
      \<lparr>commitBehind = 1, authorBehind = 2\<rparr>,
      \<lparr>commitBehind = 2, authorBehind = 0\<rparr>,
      \<lparr>commitBehind = 2, authorBehind = 1\<rparr>,
      \<lparr>commitBehind = 2, authorBehind = 2\<rparr>]"
proof -
  have "(2::nat) < 2 ^ 63 - 1" by simp
  from explore_levels[OF this]
  have "explore (steps_through 2) = concat (map level [0 ..< Suc 2])" by blast
  moreover have "steps_through 2 = 15" by (simp add: steps_through_def)
  moreover have "[0 ..< Suc 2] = [0, 1, 2]" by (simp add: upt_rec)
  moreover have "level 0 = [mk_try 0 0]" "level 1 = [mk_try 0 1, mk_try 1 0, mk_try 1 1]"
    "level 2 = [mk_try 0 2, mk_try 1 2, mk_try 2 0, mk_try 2 1, mk_try 2 2]"
    by (simp_all add: level_def upt_rec mk_try_def)
  ultimately show ?thesis by (simp add: mk_try_def)
qed

text \<open>
  The claim as stated, for every level, fails at level \<open>2^63 - 1\<close>, the largest \<^verbatim>\<open>int\<close>:
  there \<^verbatim>\<open>j <= max\<close> holds for every \<^verbatim>\<open>j\<close>, so after the pair \<open>(max, max)\<close> the increment
  wraps around and the next pair sent, the \<open>(2^126 + 2^64)\<close>-th step of \<^verbatim>\<open>explore\<close>, has the
  author shift \<open>- 2^63\<close>.
\<close>

theorem explore_overflow_counterexample:
  "explore (2 ^ 126 + 2 ^ 64)
     = explore (2 ^ 126 + 2 ^ 64 - 1)
       @ [\<lparr>commitBehind = 9223372036854775807, authorBehind = - 9223372036854775808\<rparr>]
   \<and> sint (- 9223372036854775808 :: 64 word) = - 9223372036854775808"
proof -
  let ?M = "9223372036854775807 :: nat"
  let ?s0 = "FirstLoop 0 0"
  have a: "explore_run (steps_through (?M - 1)) ?s0
             = (concat (map level [0 ..< Suc (?M - 1)]), FirstLoop (of_nat (Suc (?M - 1))) 0)"
    by (rule levels_run) simp
  have b: "explore_run (Suc (?M - 0)) (FirstLoop (of_nat ?M) (of_nat 0))
             = (map (\<lambda>i. mk_try i ?M) [0 ..< ?M], SecondLoop (of_nat ?M) 0)"
    by (rule first_loop_run) simp_all
  have c: "explore_run (Suc ?M - 0) (SecondLoop (of_nat ?M) (of_nat 0))
             = (map (\<lambda>j. mk_try ?M j) [0 ..< Suc ?M], SecondLoop (of_nat ?M) (of_nat (Suc ?M)))"
    by (rule second_loop_run) simp_all
  have s: "Suc (?M - 1) = ?M" by simp
  have "explore_run (steps_through (?M - 1) + (Suc ?M + Suc ?M)) ?s0
          = (concat (map level [0 ..< ?M]) @ map (\<lambda>i. mk_try i ?M) [0 ..< ?M]
               @ map (\<lambda>j. mk_try ?M j) [0 ..< Suc ?M],
             SecondLoop (of_nat ?M) (of_nat (Suc ?M)))"
    using a b c
    unfolding explore_run_add[of "steps_through (?M - 1)"] explore_run_add[of "Suc ?M" "Suc ?M"] s
    by (simp del: explore_run.simps upt_Suc)
  moreover have "steps_through (?M - 1) + (Suc ?M + Suc ?M) = 2 ^ 126 + 2 ^ 64 - 1"
    by (simp add: steps_through_def)
  ultimately have st: "snd (explore_run (2 ^ 126 + 2 ^ 64 - 1) ?s0)
      = SecondLoop (of_nat ?M) (of_nat (Suc ?M))"
    by simp
  have w: "(of_nat ?M :: 64 word) = 9223372036854775807"
    "(of_nat (Suc ?M) :: 64 word) = - 9223372036854775808"
    by simp_all
  have sle: "(- 9223372036854775808 :: 64 word) \<le>s 9223372036854775807"
    by (simp add: word_sle_eq)
  have "explore ((2 ^ 126 + 2 ^ 64 - 1) + 1)
     = explore (2 ^ 126 + 2 ^ 64 - 1)
       @ [\<lparr>commitBehind = 9223372036854775807, authorBehind = - 9223372036854775808\<rparr>]"
    unfolding explore_prefix st w using sle by simp
  moreover have "(2 ^ 126 + 2 ^ 64 - 1) + 1 = (2 ^ 126 + 2 ^ 64 :: nat)" by simp
  ultimately show ?thesis by simp
qed

subsection \<open>strconv\<close>

lemma or_32: "(k::nat) OR 32 = (if odd (k div 32) then k else k + 32)"
proof -
  have "k OR 32 = set_bit 5 k" by (simp add: set_bit_eq_or)
  also have "\<dots> = k + of_bool (\<not> bit k 5) * 2 ^ 5" by (rule set_bit_eq)
  also have "\<dots> = (if odd (k div 32) then k else k + 32)" by (simp add: bit_iff_odd)
  finally show ?thesis .
qed

lemma or_32_ranges:
  fixes k :: nat
  shows "k < 64 \<Longrightarrow> k OR 32 < 64"
    and "64 \<le> k \<Longrightarrow> k < 96 \<Longrightarrow> k OR 32 = k + 32"
    and "96 \<le> k \<Longrightarrow> k < 128 \<Longrightarrow> k OR 32 = k"
    and "128 \<le> k \<Longrightarrow> k < 256 \<Longrightarrow> 128 \<le> k OR 32 \<and> k OR 32 < 256"
proof -
  show "k OR 32 < 64" if "k < 64"
  proof (cases "k < 32")
    case True
    then have "k div 32 = 0" by simp
    then show ?thesis using True by (simp add: or_32)
  next
    case False
    then have "k div 32 = 1" using that by arith
    then show ?thesis using that by (simp add: or_32)
  qed
  show "k OR 32 = k + 32" if "64 \<le> k" "k < 96"
  proof -
    have "k div 32 = 2" using that by arith
    then show ?thesis by (simp add: or_32)
  qed
  show "k OR 32 = k" if "96 \<le> k" "k < 128"
  proof -
    have "k div 32 = 3" using that by arith
    then show ?thesis by (simp add: or_32)
  qed
  show "128 \<le> k OR 32 \<and> k OR 32 < 256" if "128 \<le> k" "k < 256"
  proof (cases "k < 224")
    case True
    then show ?thesis using that by (simp add: or_32)
  next
    case False
    then have "k div 32 = 7" using that by arith
    then show ?thesis using that by (simp add: or_32)
  qed
qed

lemma digit_of_dec:
  "valid_digit 10 c \<longleftrightarrow> is_digit c"
  "valid_digit 10 c \<Longrightarrow> digit_of c = Some (of_char c - 48)"
  by (auto simp: valid_digit_def digit_of_def is_digit_def Let_def split: if_splits)

lemma digit_of_hex_aux:
  "(valid_digit 16 c \<longleftrightarrow> is_hex_digit c) \<and> (valid_digit 16 c \<longrightarrow> digit_of c = fromHexChar c)"
proof -
  let ?k = "of_char c :: nat"
  have k: "?k < 256" by (rule nat_of_char_less_256)
  consider "?k < 64" | "64 \<le> ?k" "?k < 96" | "96 \<le> ?k" "?k < 128" | "128 \<le> ?k" by linarith
  then show ?thesis
  proof cases
    case 1
    then have "?k OR 32 < 64" by (rule or_32_ranges)
    then have "(of_char (lower c) :: nat) < 64" by (simp add: lower_def)
    then show ?thesis using 1
      by (auto simp: valid_digit_def digit_of_def is_hex_digit_def fromHexChar_def Let_def)
  next
    case 2
    then have "?k OR 32 = ?k + 32" by (rule or_32_ranges)
    then have "(of_char (lower c) :: nat) = ?k + 32" using 2 by (simp add: lower_def)
    then show ?thesis using 2
      by (auto simp: valid_digit_def digit_of_def is_hex_digit_def fromHexChar_def Let_def)
  next
    case 3
    then have "?k OR 32 = ?k" by (rule or_32_ranges)
    then have "(of_char (lower c) :: nat) = ?k" by (simp add: lower_def)
    then show ?thesis using 3
      by (auto simp: valid_digit_def digit_of_def is_hex_digit_def fromHexChar_def Let_def)
  next
    case 4
    then have "128 \<le> ?k OR 32 \<and> ?k OR 32 < 256" using k by (rule or_32_ranges)
    then have "128 \<le> (of_char (lower c) :: nat)" by (simp add: lower_def)
    then show ?thesis using 4
      by (auto simp: valid_digit_def digit_of_def is_hex_digit_def fromHexChar_def Let_def)
  qed
qed

lemma digit_of_hex:
  "valid_digit 16 c \<longleftrightarrow> is_hex_digit c"
  "valid_digit 16 c \<Longrightarrow> digit_of c = fromHexChar c"
  using digit_of_hex_aux[of c] by blast+

lemma digits_value_ge: "1 \<le> b \<Longrightarrow> n \<le> digits_value b n ds"
proof (induction ds arbitrary: n)
  case Nil
  then show ?case by simp
next
  case (Cons c cs)
  let ?d = "case digit_of c of None \<Rightarrow> 0 | Some d \<Rightarrow> d"
  have "n \<le> n * b" using Cons.prems by simp
  also have "\<dots> \<le> n * b + ?d" by simp
  also have "\<dots> \<le> digits_value b (n * b + ?d) cs" using Cons by simp
  finally show ?case by simp
qed

lemma cutoff_iff: "1 \<le> b \<Longrightarrow> (maxUint64 div b + 1 \<le> n) \<longleftrightarrow> maxUint64 < n * b"
proof -
  assume "1 \<le> b"
  then have "0 < b" by simp
  then have "(maxUint64 div b < n) = (maxUint64 < n * b)" by (rule div_less_iff_less_mult)
  then show ?thesis by auto
qed

lemma parse_digits_iff:
  assumes "1 \<le> b" "n \<le> maxUint64"
  shows "parse_digits b n ds = Inr r \<longleftrightarrow>
           list_all (valid_digit b) ds \<and> digits_value b n ds \<le> maxUint64 \<and> r = digits_value b n ds"
  using assms(2)
proof (induction ds arbitrary: n)
  case Nil
  then show ?case by auto
next
  case (Cons c cs)
  show ?case
  proof (cases "digit_of c")
    case None
    then show ?thesis by (simp add: valid_digit_def)
  next
    case (Some d)
    show ?thesis
    proof (cases "d < b")
      case False
      then show ?thesis using Some by (simp add: valid_digit_def)
    next
      case d: True
      have ge: "n * b + d \<le> digits_value b (n * b + d) cs"
        using assms(1) by (rule digits_value_ge)
      show ?thesis
      proof (cases "maxUint64 < n * b + d")
        case True
        then have "parse_digits b n (c # cs) = Inl ErrRange"
          using Some d cutoff_iff[OF assms(1), of n] by (simp add: Let_def)
        moreover have "\<not> digits_value b n (c # cs) \<le> maxUint64"
          using True ge Some by simp
        ultimately show ?thesis by simp
      next
        case False
        then have le: "n * b + d \<le> maxUint64" by simp
        then have "\<not> maxUint64 < n * b" by simp
        then have "parse_digits b n (c # cs) = parse_digits b (n * b + d) cs"
          using Some d False cutoff_iff[OF assms(1), of n] by (simp add: Let_def)
        then show ?thesis
          using Cons.IH[OF le] Some d by (simp add: valid_digit_def)
      qed
    qed
  qed
qed

lemma parse_digits_error_cases:
  "parse_digits b n ds = Inl e \<Longrightarrow> e = ErrSyntax \<or> e = ErrRange"
  by (cases e) simp_all

lemma convert_signed_iff:
  assumes "1 \<le> b"
  shows "convert_signed neg s1 b = Inr v \<longleftrightarrow>
     s1 \<noteq> [] \<and> list_all (valid_digit b) s1
     \<and> (if neg then digits_value b 0 s1 \<le> 2 ^ 63 \<and> v = - of_nat (digits_value b 0 s1)
        else digits_value b 0 s1 < 2 ^ 63 \<and> v = of_nat (digits_value b 0 s1))"
proof (cases "s1 = []")
  case True
  then show ?thesis by (simp add: convert_signed_def ParseUint_def)
next
  case s1: False
  define u where "u = digits_value b 0 s1"
  have m: "(0::nat) \<le> maxUint64" by simp
  have big: "(2::nat) ^ 63 < maxUint64" by (simp add: maxUint64_def)
  show ?thesis
  proof (cases "parse_digits b 0 s1")
    case (Inl e)
    have nr: "\<not> (list_all (valid_digit b) s1 \<and> u \<le> maxUint64)"
      using parse_digits_iff[OF assms m, of s1] Inl by (auto simp: u_def)
    have "convert_signed neg s1 b \<noteq> Inr v"
    proof (cases e)
      case ErrSyntax
      then show ?thesis using s1 Inl by (simp add: convert_signed_def ParseUint_def)
    next
      case ErrRange
      then show ?thesis using s1 Inl big by (simp add: convert_signed_def ParseUint_def Let_def)
    qed
    moreover have "\<not> (list_all (valid_digit b) s1
         \<and> (if neg then u \<le> 2 ^ 63 \<and> v = - of_nat u else u < 2 ^ 63 \<and> v = of_nat u))"
      using nr big by (auto split: if_splits)
    ultimately show ?thesis unfolding u_def by auto
  next
    case (Inr r)
    then have r: "list_all (valid_digit b) s1" "r = u"
      using parse_digits_iff[OF assms m, of s1 r] by (auto simp: u_def)
    have "convert_signed neg s1 b =
          (if \<not> neg \<and> 2 ^ 63 \<le> u then Inl ErrRange
           else if neg \<and> 2 ^ 63 < u then Inl ErrRange
           else Inr (if neg then - of_nat u else of_nat u))"
      using s1 Inr r(2) by (simp add: convert_signed_def ParseUint_def Let_def)
    then show ?thesis
      using s1 r(1) unfolding u_def by auto
  qed
qed

lemma hex_digits_value:
  "list_all (valid_digit 16) ds \<Longrightarrow> digits_value 16 n ds = hex_value n ds"
  by (induction ds arbitrary: n) (simp_all add: digit_of_hex(2))

lemma valid_hex_digits: "list_all (valid_digit 16) ds \<longleftrightarrow> list_all is_hex_digit ds"
  by (induction ds) (simp_all add: digit_of_hex(1))

lemma convert_signed_hex:
  "(\<exists>v. convert_signed neg ds 16 = Inr v) \<longleftrightarrow>
     is_hex_string ds \<and> (if neg then hex_value 0 ds \<le> 2 ^ 63 else hex_value 0 ds < 2 ^ 63)"
proof -
  have "(1::nat) \<le> 16" by simp
  from convert_signed_iff[OF this, of neg ds] show ?thesis
    by (auto simp: is_hex_string_def valid_hex_digits hex_digits_value)
qed

lemma sign_not_hex: "\<not> is_hex_digit (CHR ''+'')" "\<not> is_hex_digit (CHR ''-'')"
  by (simp_all add: is_hex_digit_def fromHexChar_def)

lemma prefix_accepted_iff:
  "prefix_accepted p \<longleftrightarrow>
     (\<exists>sign ds. p = sign @ ds \<and> (sign = [] \<or> sign = ''+'' \<or> sign = ''-'') \<and> is_hex_string ds
        \<and> (hex_value 0 ds < 2 ^ 63 \<or> (sign = ''-'' \<and> hex_value 0 ds = 2 ^ 63)))"
  (is "?L \<longleftrightarrow> ?R")
proof -
  have acc: "prefix_accepted p \<longleftrightarrow> (\<exists>v. ParseInt p 16 = Inr v)"
    by (cases "ParseInt p 16") (simp_all add: prefix_accepted_def)
  show ?thesis
  proof
    assume ?L
    then obtain v where v: "ParseInt p 16 = Inr v" using acc by blast
    then have ne: "p \<noteq> []" by (auto simp: ParseInt_def)
    consider "hd p = CHR ''+''" | "hd p = CHR ''-''" | "hd p \<noteq> CHR ''+''" "hd p \<noteq> CHR ''-''"
      by blast
    then show ?R
    proof cases
      case 1
      then have "\<exists>v. convert_signed False (tl p) 16 = Inr v" using v ne by (auto simp: ParseInt_def)
      then have "is_hex_string (tl p)" "hex_value 0 (tl p) < 2 ^ 63"
        by (simp_all add: convert_signed_hex)
      moreover have "p = ''+'' @ tl p" using 1 ne by (cases p) simp_all
      ultimately show ?thesis by blast
    next
      case 2
      then have "\<exists>v. convert_signed True (tl p) 16 = Inr v" using v ne by (auto simp: ParseInt_def)
      then have "is_hex_string (tl p)" "hex_value 0 (tl p) \<le> 2 ^ 63"
        by (simp_all add: convert_signed_hex)
      moreover have "p = ''-'' @ tl p" using 2 ne by (cases p) simp_all
      ultimately show ?thesis by (metis le_neq_implies_less)
    next
      case 3
      then have "\<exists>v. convert_signed False p 16 = Inr v" using v ne by (auto simp: ParseInt_def)
      then have "is_hex_string p" "hex_value 0 p < 2 ^ 63"
        by (simp_all add: convert_signed_hex)
      moreover have "p = [] @ p" by simp
      ultimately show ?thesis by blast
    qed
  next
    assume ?R
    then obtain sign ds where r: "p = sign @ ds" "sign = [] \<or> sign = ''+'' \<or> sign = ''-''"
      "is_hex_string ds" "hex_value 0 ds < 2 ^ 63 \<or> (sign = ''-'' \<and> hex_value 0 ds = 2 ^ 63)"
      by blast
    from r(3) have ds: "ds \<noteq> []" "is_hex_digit (hd ds)"
      by (cases ds; simp add: is_hex_string_def)+
    then have hd: "hd ds \<noteq> CHR ''+''" "hd ds \<noteq> CHR ''-''"
      using sign_not_hex by metis+
    from r(2) consider "sign = []" | "sign = ''+''" | "sign = ''-''" by blast
    then have "\<exists>v. ParseInt p 16 = Inr v"
    proof cases
      case 1
      then have "hex_value 0 ds < 2 ^ 63" using r(4) by simp
      then have "\<exists>v. convert_signed False ds 16 = Inr v"
        using r(3) by (simp add: convert_signed_hex)
      then show ?thesis using 1 r(1) ds hd by (simp add: ParseInt_def)
    next
      case 2
      then have "hex_value 0 ds < 2 ^ 63" using r(4) by simp
      then have "\<exists>v. convert_signed False ds 16 = Inr v"
        using r(3) by (simp add: convert_signed_hex)
      then show ?thesis using 2 r(1) by (simp add: ParseInt_def)
    next
      case 3
      then have "hex_value 0 ds \<le> 2 ^ 63" using r(4) by auto
      then have "\<exists>v. convert_signed True ds 16 = Inr v"
        using r(3) by (simp add: convert_signed_hex)
      then show ?thesis using 3 r(1) by (simp add: ParseInt_def)
    qed
    then show ?L using acc by blast
  qed
qed

lemma hex_value_ge: "n * 16 ^ length ds \<le> hex_value n ds"
proof (induction ds arbitrary: n)
  case Nil
  then show ?case by simp
next
  case (Cons c cs)
  let ?d = "case fromHexChar c of None \<Rightarrow> 0 | Some d \<Rightarrow> d"
  have "n * 16 ^ length (c # cs) = (n * 16) * 16 ^ length cs" by simp
  also have "\<dots> \<le> (n * 16 + ?d) * 16 ^ length cs" by simp
  also have "\<dots> \<le> hex_value (n * 16 + ?d) cs" by (rule Cons.IH)
  finally show ?case by simp
qed

lemma leading_digit_positive:
  assumes "is_hex_digit c" "c \<noteq> CHR ''0''"
  shows "1 \<le> (case fromHexChar c of None \<Rightarrow> 0 | Some d \<Rightarrow> d)"
proof -
  have "(of_char c :: nat) \<noteq> 48"
  proof
    assume "(of_char c :: nat) = 48"
    then have "(of_char c :: nat) = of_char (CHR ''0'')" by simp
    then have "c = CHR ''0''" by (simp only: of_char_eq_iff)
    then show False using assms(2) by simp
  qed
  then show ?thesis
    using assms(1) by (auto simp: is_hex_digit_def fromHexChar_def Let_def split: if_splits)
qed

lemma long_hex_rejected:
  assumes "is_hex_string ds" "16 < length ds" "hd ds \<noteq> CHR ''0''"
  shows "\<not> prefix_accepted ds"
proof -
  from assms(1,2) obtain c cs where ds: "ds = c # cs" "is_hex_digit c" "16 \<le> length cs"
    by (cases ds) (auto simp: is_hex_string_def)
  let ?d = "case fromHexChar c of None \<Rightarrow> 0 | Some d \<Rightarrow> d"
  have d: "1 \<le> ?d" using ds assms(3) by (intro leading_digit_positive) simp_all
  have "(2::nat) ^ 64 = 16 ^ 16" by simp
  also have "\<dots> \<le> 16 ^ length cs" using ds(3) by (intro power_increasing) simp_all
  also have "\<dots> \<le> ?d * 16 ^ length cs" using d by simp
  also have "\<dots> \<le> hex_value ?d cs" by (rule hex_value_ge)
  finally have big: "2 ^ 64 \<le> hex_value 0 ds" using ds(1) by simp
  have nosign: "sign = []" if "ds = sign @ ds'" "sign = [] \<or> sign = ''+'' \<or> sign = ''-''" for sign ds'
    using that ds(1,2) sign_not_hex by (auto simp: Cons_eq_append_conv)
  show ?thesis
  proof
    assume "prefix_accepted ds"
    then obtain sign ds' where r: "ds = sign @ ds'" "sign = [] \<or> sign = ''+'' \<or> sign = ''-''"
      "hex_value 0 ds' < 2 ^ 63 \<or> (sign = ''-'' \<and> hex_value 0 ds' = 2 ^ 63)"
      unfolding prefix_accepted_iff by blast
    from nosign[OF r(1,2)] r have "hex_value 0 ds < 2 ^ 63" by simp
    with big show False by simp
  qed
qed

text \<open>
  C10 (as amended): the check of the prefix in \<^verbatim>\<open>main\<close> accepts a string exactly when
  \<^verbatim>\<open>strconv.ParseInt(prefix, 16, 64)\<close> succeeds, that is exactly when the string is an
  optional \<^verbatim>\<open>+\<close> or \<^verbatim>\<open>-\<close> followed by one or more hexadecimal digits whose value is below
  \<open>2^63\<close> (or is \<open>2^63\<close> after a \<^verbatim>\<open>-\<close>).  So the empty string is rejected, and so is every
  string of more than 16 hexadecimal digits that does not begin with \<^verbatim>\<open>0\<close>, though it is
  hexadecimal text; and a string of hexadecimal digits of value below \<open>2^63\<close> is accepted
  with a \<^verbatim>\<open>+\<close> or a \<^verbatim>\<open>-\<close> before it, though it is then no string of hexadecimal digits.
\<close>

theorem prefix_check_is_ParseInt:
  "(prefix_accepted p \<longleftrightarrow> (\<exists>n. ParseInt p 16 = Inr n))
   \<and> (prefix_accepted p \<longleftrightarrow>
        (\<exists>sign ds. p = sign @ ds \<and> (sign = [] \<or> sign = ''+'' \<or> sign = ''-'') \<and> is_hex_string ds
           \<and> (hex_value 0 ds < 2 ^ 63 \<or> (sign = ''-'' \<and> hex_value 0 ds = 2 ^ 63))))
   \<and> \<not> prefix_accepted []
   \<and> (is_hex_string p \<and> 16 < length p \<and> hd p \<noteq> CHR ''0'' \<longrightarrow> \<not> prefix_accepted p)
   \<and> (is_hex_string p \<and> hex_value 0 p < 2 ^ 63 \<longrightarrow>
        prefix_accepted (CHR ''+'' # p) \<and> prefix_accepted (CHR ''-'' # p)
        \<and> \<not> is_hex_string (CHR ''+'' # p) \<and> \<not> is_hex_string (CHR ''-'' # p))"
proof (intro conjI impI)
  show "prefix_accepted p \<longleftrightarrow> (\<exists>n. ParseInt p 16 = Inr n)"
    by (cases "ParseInt p 16") (simp_all add: prefix_accepted_def)
  show "prefix_accepted p \<longleftrightarrow>
        (\<exists>sign ds. p = sign @ ds \<and> (sign = [] \<or> sign = ''+'' \<or> sign = ''-'') \<and> is_hex_string ds
           \<and> (hex_value 0 ds < 2 ^ 63 \<or> (sign = ''-'' \<and> hex_value 0 ds = 2 ^ 63)))"
    by (rule prefix_accepted_iff)
  show "\<not> prefix_accepted []"
    by (simp add: prefix_accepted_def ParseInt_def)
  show "\<not> prefix_accepted p" if "is_hex_string p \<and> 16 < length p \<and> hd p \<noteq> CHR ''0''"
    using that long_hex_rejected by blast
next
  assume a: "is_hex_string p \<and> hex_value 0 p < 2 ^ 63"
  have "CHR ''+'' # p = ''+'' @ p" "CHR ''-'' # p = ''-'' @ p" by simp_all
  with a show "prefix_accepted (CHR ''+'' # p)" "prefix_accepted (CHR ''-'' # p)"
    unfolding prefix_accepted_iff by blast+
  show "\<not> is_hex_string (CHR ''+'' # p)" "\<not> is_hex_string (CHR ''-'' # p)"
    using sign_not_hex by (simp_all add: is_hex_string_def)
qed

theorem prefix_check_is_ParseInt_witness:
  "prefix_accepted ''bf'' \<and> prefix_accepted ''+bf'' \<and> prefix_accepted ''-bf''
   \<and> \<not> is_hex_string ''-bf'' \<and> \<not> prefix_accepted ''10000000000000000''"
proof -
  have h: "is_hex_string ''bf''" "hex_value 0 ''bf'' < 2 ^ 63"
    by (simp_all add: is_hex_string_def is_hex_digit_def fromHexChar_def)
  have l: "is_hex_string ''10000000000000000''" "16 < length ''10000000000000000''"
    "hd ''10000000000000000'' \<noteq> CHR ''0''"
    by (simp_all add: is_hex_string_def is_hex_digit_def fromHexChar_def)
  have "''bf'' = [] @ ''bf''" by simp
  with h have "prefix_accepted ''bf''"
    using prefix_check_is_ParseInt[of "''bf''"] by blast
  moreover have "prefix_accepted ''+bf''" "prefix_accepted ''-bf''" "\<not> is_hex_string ''-bf''"
    using prefix_check_is_ParseInt[of "''bf''"] h by blast+
  moreover have "\<not> prefix_accepted ''10000000000000000''"
    using prefix_check_is_ParseInt[of "''10000000000000000''"] l by blast
  ultimately show ?thesis by blast
qed

text \<open>The claim as stated fails for seventeen zeros: a string of more than 16 hexadecimal
  digits that the check accepts.\<close>

theorem prefix_check_long_zeros_counterexample:
  "prefix_accepted ''00000000000000000'' \<and> length ''00000000000000000'' = 17
   \<and> is_hex_string ''00000000000000000''"
proof -
  have h: "is_hex_string ''00000000000000000''" "hex_value 0 ''00000000000000000'' < 2 ^ 63"
    by (simp_all add: is_hex_string_def is_hex_digit_def fromHexChar_def)
  have "''00000000000000000'' = [] @ ''00000000000000000''" by simp
  with h have "prefix_accepted ''00000000000000000''"
    unfolding prefix_accepted_iff by blast
  with h show ?thesis by simp
qed

text \<open>
  C7: the check the program makes of the prefix is not the check for hexadecimal text that
  its message ("Prefix ... isn't hex.") announces.  The string \<^verbatim>\<open>-bf\<close> is not hexadecimal
  and is accepted; the string of sixteen \<^verbatim>\<open>f\<close> is hexadecimal and is rejected.
\<close>

theorem prefix_check_not_hex_check:
  "prefix_accepted ''-bf'' \<and> \<not> is_hex_string ''-bf''
   \<and> \<not> prefix_accepted ''ffffffffffffffff'' \<and> is_hex_string ''ffffffffffffffff''"
proof -
  have h: "is_hex_string ''bf''" "hex_value 0 ''bf'' < 2 ^ 63"
    by (simp_all add: is_hex_string_def is_hex_digit_def fromHexChar_def)
  have "''-bf'' = ''-'' @ ''bf''" by simp
  with h have a: "prefix_accepted ''-bf''"
    unfolding prefix_accepted_iff by blast
  have b: "\<not> is_hex_string ''-bf''"
    using sign_not_hex by (simp add: is_hex_string_def)
  have f: "is_hex_string ''ffffffffffffffff''" "hex_value 0 ''ffffffffffffffff'' = 2 ^ 64 - 1"
    by (simp_all add: is_hex_string_def is_hex_digit_def fromHexChar_def)
  have c: "\<not> prefix_accepted ''ffffffffffffffff''"
  proof
    assume "prefix_accepted ''ffffffffffffffff''"
    then obtain sign ds where r: "''ffffffffffffffff'' = sign @ ds"
      "sign = [] \<or> sign = ''+'' \<or> sign = ''-''"
      "hex_value 0 ds < 2 ^ 63 \<or> (sign = ''-'' \<and> hex_value 0 ds = 2 ^ 63)"
      unfolding prefix_accepted_iff by blast
    from r(1,2) have "sign = []" by (auto simp: Cons_eq_append_conv)
    with r have "hex_value 0 ''ffffffffffffffff'' < 2 ^ 63" by simp
    with f(2) show False by simp
  qed
  from a b c f(1) show ?thesis by blast
qed

subsection \<open>Decimal text\<close>

lemma dec_value_snoc: "dec_value n (xs @ [x]) = dec_value n xs * 10 + (of_char x - 48)"
  by (induction xs arbitrary: n) simp_all

lemma digit_char: "is_digit x \<Longrightarrow> char_of (48 + ((of_char x :: nat) - 48)) = x"
  by (simp add: is_digit_def)

lemma dec_step: "0 < v \<Longrightarrow> d < 10 \<Longrightarrow> dec (v * 10 + d) = dec v @ [char_of (48 + d)]"
  by (subst dec.simps) simp

lemma digit_less: "is_digit x \<Longrightarrow> (of_char x :: nat) - 48 < 10"
  by (auto simp: is_digit_def)

lemma digit_zero: "is_digit x \<Longrightarrow> (of_char x :: nat) - 48 = 0 \<Longrightarrow> x = CHR ''0''"
proof -
  assume "is_digit x" "(of_char x :: nat) - 48 = 0"
  then have "(of_char x :: nat) = of_char (CHR ''0'')" by (simp add: is_digit_def)
  then show ?thesis by (simp only: of_char_eq_iff)
qed

lemma dec_of_digits:
  assumes "list_all is_digit ds" "ds \<noteq> []" "hd ds \<noteq> CHR ''0''"
  shows "dec (dec_value 0 ds) = ds \<and> 0 < dec_value 0 ds"
  using assms
proof (induction ds rule: rev_induct)
  case Nil
  then show ?case by simp
next
  case (snoc x xs)
  have x: "is_digit x" using snoc.prems(1) by simp
  show ?case
  proof (cases "xs = []")
    case True
    then have "x \<noteq> CHR ''0''" using snoc.prems(3) by simp
    then have "(of_char x :: nat) - 48 \<noteq> 0" using digit_zero[OF x] by blast
    then have "0 < (of_char x :: nat) - 48" by simp
    moreover have "dec (of_char x - 48) = [x]"
      using digit_less[OF x] digit_char[OF x] by (subst dec.simps) simp
    ultimately show ?thesis using True by simp
  next
    case False
    then have "list_all is_digit xs" "hd xs \<noteq> CHR ''0''" using snoc.prems by simp_all
    then have ih: "dec (dec_value 0 xs) = xs" "0 < dec_value 0 xs"
      using snoc.IH False by simp_all
    show ?thesis
      using ih dec_step[OF ih(2) digit_less[OF x]] digit_char[OF x]
      by (simp add: dec_value_snoc)
  qed
qed

lemma dec_canonical: "canonical_nat ds \<Longrightarrow> dec (dec_value 0 ds) = ds"
proof -
  assume c: "canonical_nat ds"
  show ?thesis
  proof (cases "hd ds = CHR ''0''")
    case True
    then have "ds = ''0''" using c by (simp add: canonical_nat_def)
    moreover have "is_digit (CHR ''0'')" by (simp add: is_digit_def)
    then have "char_of (48 + ((of_char (CHR ''0'') :: nat) - 48)) = CHR ''0''" by (rule digit_char)
    then have "char_of (48 :: nat) = CHR ''0''" by simp
    ultimately show ?thesis by (simp add: dec.simps)
  next
    case False
    then show ?thesis using c dec_of_digits by (simp add: canonical_nat_def)
  qed
qed

lemma dec_digits_value:
  "list_all is_digit ds \<Longrightarrow> digits_value 10 n ds = dec_value n ds"
  by (induction ds arbitrary: n) (simp_all add: digit_of_dec)

lemma valid_dec_digits: "list_all (valid_digit 10) ds \<longleftrightarrow> list_all is_digit ds"
  by (induction ds) (simp_all add: digit_of_dec(1))

lemma sign_not_digit: "\<not> is_digit (CHR ''+'')" "\<not> is_digit (CHR ''-'')"
  by (simp_all add: is_digit_def)

lemma sint_of_nat_small: "u < 2 ^ 63 \<Longrightarrow> sint (of_nat u :: 64 word) = int u"
  by (rule sint_of_nat64)

lemma sint_neg_of_nat:
  assumes "u \<le> 2 ^ 63"
  shows "sint (- of_nat u :: 64 word) = - int u"
proof -
  have b: "int u \<le> 2 ^ 63" using assms by (metis of_nat_le_iff of_nat_numeral of_nat_power)
  have "(- of_nat u :: 64 word) = word_of_int (- int u)" by simp
  moreover have "signed_take_bit 63 (- int u) = - int u"
    using b by (intro signed_take_bit_int_eq_self) simp_all
  ultimately show ?thesis by (simp only: sint_sbintrunc') simp
qed

lemma ParseInt_dec_unsigned:
  assumes "list_all is_digit ds" "ds \<noteq> []"
  shows "ParseInt ds 10 = Inr n \<longleftrightarrow> dec_value 0 ds < 2 ^ 63 \<and> n = of_nat (dec_value 0 ds)"
proof -
  have "is_digit (hd ds)" using assms by (cases ds) simp_all
  then have "hd ds \<noteq> CHR ''+''" "hd ds \<noteq> CHR ''-''" using sign_not_digit by metis+
  then have "ParseInt ds 10 = convert_signed False ds 10" using assms(2) by (simp add: ParseInt_def)
  moreover have "(1::nat) \<le> 10" by simp
  ultimately show ?thesis
    using assms by (simp add: convert_signed_iff valid_dec_digits dec_digits_value)
qed

lemma ParseInt_dec_negative:
  assumes "list_all is_digit ds" "ds \<noteq> []"
  shows "ParseInt (CHR ''-'' # ds) 10 = Inr n \<longleftrightarrow> dec_value 0 ds \<le> 2 ^ 63 \<and> n = - of_nat (dec_value 0 ds)"
proof -
  have "ParseInt (CHR ''-'' # ds) 10 = convert_signed True ds 10" by (simp add: ParseInt_def)
  moreover have "(1::nat) \<le> 10" by simp
  ultimately show ?thesis
    using assms by (simp add: convert_signed_iff valid_dec_digits dec_digits_value)
qed

lemma FormatInt_ParseInt:
  assumes "canonical_dec ds" "ParseInt ds 10 = Inr n"
  shows "FormatInt n = ds"
proof (cases "canonical_nat ds")
  case True
  then have d: "list_all is_digit ds" "ds \<noteq> []" by (simp_all add: canonical_nat_def)
  from assms(2) have n: "dec_value 0 ds < 2 ^ 63" "n = of_nat (dec_value 0 ds)"
    using ParseInt_dec_unsigned[OF d] by simp_all
  then have "sint n = int (dec_value 0 ds)" by (simp add: sint_of_nat64)
  then show ?thesis using dec_canonical[OF True] by (simp add: FormatInt_def)
next
  case False
  then obtain ds' where ds: "ds = CHR ''-'' # ds'" "canonical_nat ds'" "ds' \<noteq> ''0''"
    using assms(1) by (cases ds) (auto simp: canonical_dec_def)
  then have d: "list_all is_digit ds'" "ds' \<noteq> []" "hd ds' \<noteq> CHR ''0''"
    by (auto simp: canonical_nat_def)
  from assms(2) have n: "dec_value 0 ds' \<le> 2 ^ 63" "n = - of_nat (dec_value 0 ds')"
    using ParseInt_dec_negative[OF d(1,2)] ds(1) by simp_all
  have pos: "0 < dec_value 0 ds'" and rt: "dec (dec_value 0 ds') = ds'"
    using dec_of_digits[OF d] by simp_all
  have "sint n = - int (dec_value 0 ds')" using n by (simp add: sint_neg_of_nat)
  then show ?thesis using pos rt ds(1) by (simp add: FormatInt_def)
qed

subsection \<open>getDate\<close>








lemma str_index_SomeD:
  assumes "str_index v c = Some sp"
  shows "sp < length v" "v ! sp = c" "c \<notin> set (take sp v)" "v = take sp v @ [c] @ drop (sp + 1) v"
proof -
  from assms have c: "c \<in> set v" and sp: "sp = length (takeWhile (\<lambda>x. x \<noteq> c) v)"
    by (auto simp: str_index_def split: if_splits)
  from c obtain ys zs where v: "v = ys @ c # zs" "c \<notin> set ys"
    by (auto dest: split_list_first)
  have "takeWhile (\<lambda>x. x \<noteq> c) v = takeWhile (\<lambda>x. x \<noteq> c) ys"
    unfolding v(1) by (rule takeWhile_tail) simp
  also have "\<dots> = ys" using v(2) by (auto simp: takeWhile_eq_all_conv)
  finally have l: "sp = length ys" unfolding sp by simp
  show "sp < length v" unfolding l v(1) by simp
  show "v ! sp = c" unfolding l v(1) by simp
  show "c \<notin> set (take sp v)" unfolding l v(1) using v(2) by simp
  show "v = take sp v @ [c] @ drop (sp + 1) v" unfolding l v(1) by simp
qed


text \<open>
  C6 (as amended): for every record text in which the pattern matches, the field has a
  space and the text before it parses, \<^verbatim>\<open>getDate\<close> returns the date whose seconds are the
  signed base-10 64-bit parse of that text (for a text of digits only, the number they
  denote) and whose time zone is the text after the space, verbatim, together with the
  offset \<^verbatim>\<open>m[2]\<close> at which the digit run begins.  When the digit text is in the form
  that \<^verbatim>\<open>%d\<close> writes (no plus sign, no leading zero, no negative zero), formatting the
  date as \<^verbatim>\<open>"<seconds> <timezone>"\<close> gives the matched field back exactly.
\<close>

theorem getDate_roundtrip:
  assumes "FindSubmatchIndex rx h = Some (m2, m3)"
    and "v = take (m3 - m2) (drop m2 h)"
    and "str_index v (CHR '' '') = Some sp"
    and "ParseInt (take sp v) 10 = Inr n"
  shows "getDate h rx = Inr (\<lparr>date_n = n, date_tz = drop (sp + 1) v\<rparr>, m2)
     \<and> take sp (drop m2 h) = take sp v
     \<and> (list_all is_digit (take sp v) \<longrightarrow> sint n = int (dec_value 0 (take sp v)))
     \<and> (canonical_dec (take sp v) \<longrightarrow> date_String \<lparr>date_n = n, date_tz = drop (sp + 1) v\<rparr> = v)"
proof (intro conjI impI)
  show "getDate h rx = Inr (\<lparr>date_n = n, date_tz = drop (sp + 1) v\<rparr>, m2)"
    using assms by (simp add: getDate_def Let_def)
  have sp: "sp < length v" and split: "v = take sp v @ [CHR '' ''] @ drop (sp + 1) v"
    using str_index_SomeD[OF assms(3)] by simp_all
  then have "sp \<le> m3 - m2" using assms(2) by simp
  then show "take sp (drop m2 h) = take sp v"
    unfolding assms(2) by (simp add: min_def)
  have ne: "take sp v \<noteq> []"
  proof
    assume "take sp v = []"
    then have "ParseInt (take sp v) 10 = Inl ErrSyntax" by (simp add: ParseInt_def)
    then show False using assms(4) by simp
  qed
  show "sint n = int (dec_value 0 (take sp v))" if "list_all is_digit (take sp v)"
  proof -
    from assms(4) have "dec_value 0 (take sp v) < 2 ^ 63" "n = of_nat (dec_value 0 (take sp v))"
      using ParseInt_dec_unsigned[OF that ne] by simp_all
    then show ?thesis by (simp add: sint_of_nat64)
  qed
  show "date_String \<lparr>date_n = n, date_tz = drop (sp + 1) v\<rparr> = v" if "canonical_dec (take sp v)"
  proof -
    have "FormatInt n = take sp v" using that assms(4) by (rule FormatInt_ParseInt)
    then have "date_String \<lparr>date_n = n, date_tz = drop (sp + 1) v\<rparr>
                 = take sp v @ [CHR '' ''] @ drop (sp + 1) v"
      by (simp add: date_String_def)
    then show ?thesis using split by simp
  qed
qed

lemma field_example:
  "FindSubmatchIndex authorDateRx ''author a <a> 1000000000 +0000'' = Some (13, 29)"
  "str_index ''1000000000 +0000'' (CHR '' '') = Some 10"
  by code_simp+

lemma parse_example: "ParseInt ''1000000000'' 10 = Inr 1000000000"
  by (simp add: ParseInt_def convert_signed_def ParseUint_def digit_of_def lower_def maxUint64_def Let_def)

theorem getDate_roundtrip_witness:
  "getDate ''author a <a> 1000000000 +0000'' authorDateRx
     = Inr (\<lparr>date_n = 1000000000, date_tz = ''+0000''\<rparr>, 13)
   \<and> sint (1000000000 :: int64) = 1000000000
   \<and> date_String \<lparr>date_n = 1000000000, date_tz = ''+0000''\<rparr> = ''1000000000 +0000''"
proof -
  let ?h = "''author a <a> 1000000000 +0000''"
  let ?v = "''1000000000 +0000''"
  have v: "?v = take (29 - 13) (drop 13 ?h)" by simp
  have d: "take 10 ?v = ''1000000000''" "drop (10 + 1) ?v = ''+0000''" by simp_all
  have p: "ParseInt (take 10 ?v) 10 = Inr 1000000000" unfolding d by (rule parse_example)
  have c: "canonical_dec (take 10 ?v)" "list_all is_digit (take 10 ?v)"
    unfolding d by (simp_all add: canonical_dec_def canonical_nat_def is_digit_def)
  have e: "dec_value 0 ''1000000000'' = 1000000000" by simp
  from getDate_roundtrip[OF field_example(1) v field_example(2) p] c
  show ?thesis unfolding d e by simp
qed

text \<open>
  The claim as stated fails for a zero-padded timestamp: the pattern matches and the
  number parses, but formatting the date gives \<^verbatim>\<open>1 +0000\<close> for the field \<^verbatim>\<open>01 +0000\<close>.
\<close>

lemma padded_example:
  "FindSubmatchIndex authorDateRx ''author a <a> 01 +0000'' = Some (13, 21)"
  "str_index ''01 +0000'' (CHR '' '') = Some 2"
  "date_String \<lparr>date_n = 1, date_tz = ''+0000''\<rparr> = ''1 +0000''"
  by code_simp+

lemma padded_parse: "ParseInt ''01'' 10 = Inr 1"
  by (simp add: ParseInt_def convert_signed_def ParseUint_def digit_of_def lower_def maxUint64_def Let_def)

theorem getDate_zero_padded_counterexample:
  "getDate ''author a <a> 01 +0000'' authorDateRx = Inr (\<lparr>date_n = 1, date_tz = ''+0000''\<rparr>, 13)
   \<and> FindSubmatchIndex authorDateRx ''author a <a> 01 +0000'' = Some (13, 21)
   \<and> take (21 - 13) (drop 13 ''author a <a> 01 +0000'') = ''01 +0000''
   \<and> date_String \<lparr>date_n = 1, date_tz = ''+0000''\<rparr> = ''1 +0000''"
  by (simp add: getDate_def padded_example padded_parse)

subsection \<open>The blob and its two fields\<close>

lemma length_overwrite: "i + length s \<le> length xs \<Longrightarrow> length (overwrite xs i s) = length xs"
  by (simp add: overwrite_def)





lemma header_start: "take 7 (header obj) = ''commit ''" "7 < length (header obj)"
  by (simp_all add: header_def)






lemma take_overwrite:
  assumes "i + length s \<le> n" "n \<le> length xs"
  shows "take n (overwrite xs i s) = overwrite (take n xs) i s"
proof -
  show ?thesis
  proof (cases "n = i")
    case True
    then have "s = []" using assms by simp
    then show ?thesis using True by (simp add: overwrite_def)
  next
    case False
    then have "i < n" "length s \<le> n - i" using assms by simp_all
    then show ?thesis
      using assms by (simp add: overwrite_def drop_take min_def)
  qed
qed

lemma write_date_bytes:
  assumes "i + length (FormatInt x) \<le> len b" "len b \<le> cap b"
  obtains b' where "write_date b i x = Some b'" "len b' = len b" "cap b' = cap b"
    "bytes_of b' = overwrite (bytes_of b) i (FormatInt x)"
proof -
  let ?b' = "b\<lparr>arr := overwrite (arr b) i (FormatInt x)\<rparr>"
  have i: "i \<le> cap b" "i + length (FormatInt x) \<le> cap b" using assms by simp_all
  have "write_date b i x = Some ?b'" using i by (simp add: write_date_cases)
  moreover have "cap ?b' = cap b" using i by (simp add: cap_def length_overwrite)
  moreover have "bytes_of ?b' = overwrite (bytes_of b) i (FormatInt x)"
    using assms by (simp add: bytes_of_def take_overwrite cap_def)
  ultimately show thesis by (intro that[of ?b']) simp_all
qed

lemma rewrite_bytes:
  assumes "ai + length (FormatInt (date_n aD - authorBehind t)) \<le> len b"
    and "ci + length (FormatInt (date_n cD - commitBehind t)) \<le> len b"
    and "len b \<le> cap b"
  obtains b' where "rewrite aD ai cD ci b t = Some b'" "len b' = len b" "cap b' = cap b"
    "bytes_of b' = overwrite (overwrite (bytes_of b) ai (FormatInt (date_n aD - authorBehind t)))
                     ci (FormatInt (date_n cD - commitBehind t))"
proof -
  obtain b1 where b1: "write_date b ai (date_n aD - authorBehind t) = Some b1" "len b1 = len b"
    "cap b1 = cap b" "bytes_of b1 = overwrite (bytes_of b) ai (FormatInt (date_n aD - authorBehind t))"
    using assms(1,3) by (rule write_date_bytes)
  have "ci + length (FormatInt (date_n cD - commitBehind t)) \<le> len b1" "len b1 \<le> cap b1"
    using assms(2,3) b1 by simp_all
  then obtain b2 where b2: "write_date b1 ci (date_n cD - commitBehind t) = Some b2" "len b2 = len b1"
    "cap b2 = cap b1" "bytes_of b2 = overwrite (bytes_of b1) ci (FormatInt (date_n cD - commitBehind t))"
    by (rule write_date_bytes)
  show thesis
    using b1 b2 by (intro that[of b2]) (simp_all add: rewrite_def shifted_def)
qed


lemma bytes_slice_shape:
  "len (bytes_slice s spare) = length s" "cap (bytes_slice s spare) = length s + spare"
  "bytes_of (bytes_slice s spare) = s"
  by (simp_all add: bytes_slice_def cap_def bytes_of_def)









subsection \<open>The definitions on the example commits\<close>

lemma parse_decimal_examples:
  "ParseInt ''1700000000'' 10 = Inr 1700000000"
  "ParseInt ''1699999998'' 10 = Inr 1699999998"
  "ParseInt ''1699999999'' 10 = Inr 1699999999"
  "ParseInt ''1000000000'' 10 = Inr 1000000000"
  "ParseInt ''999999999'' 10 = Inr 999999999"
  by (simp_all add: ParseInt_def convert_signed_def ParseUint_def digit_of_def lower_def maxUint64_def Let_def)

lemma format_decimal_examples:
  "FormatInt 1700000000 = ''1700000000''"
  "FormatInt 1699999998 = ''1699999998''"
  "FormatInt 1699999999 = ''1699999999''"
  "FormatInt 1000000000 = ''1000000000''"
  "FormatInt 999999999 = ''999999999''"
  by (rule FormatInt_ParseInt, simp add: canonical_dec_def canonical_nat_def is_digit_def,
      rule parse_decimal_examples)+




subsection \<open>The buffer that is hashed and the rebuilt record\<close>









lemma example_fields_10:
  "FindSubmatchIndex authorDateRx (mkblob (example_commit ''1000000000'' ''1000000000'')) = Some (70, 86)"
  "FindSubmatchIndex committerDateRx (mkblob (example_commit ''1000000000'' ''1000000000'')) = Some (103, 119)"
  "take 16 (drop 70 (mkblob (example_commit ''1000000000'' ''1000000000''))) = ''1000000000 +0000''"
  "take 16 (drop 103 (mkblob (example_commit ''1000000000'' ''1000000000''))) = ''1000000000 +0000''"
  "str_index ''1000000000 +0000'' (CHR '' '') = Some 10"
  "length (mkblob (example_commit ''1000000000'' ''1000000000'')) = 136"
  by code_simp+

lemma example_getDate_10:
  "getDate (mkblob (example_commit ''1000000000'' ''1000000000'')) authorDateRx
     = Inr (\<lparr>date_n = 1000000000, date_tz = ''+0000''\<rparr>, 70)"
  "getDate (mkblob (example_commit ''1000000000'' ''1000000000'')) committerDateRx
     = Inr (\<lparr>date_n = 1000000000, date_tz = ''+0000''\<rparr>, 103)"
  by (simp_all add: getDate_def example_fields_10 parse_decimal_examples)



lemma example_overwrite_10:
  "overwrite (overwrite (mkblob (example_commit ''1000000000'' ''1000000000'')) 70 ''999999999'') 103 ''1000000000''
     = mkblob (example_commit ''9999999990'' ''1000000000'')"
  by code_simp

lemma example_rebuild_10_text:
  "(let b = mkblob (example_commit ''1000000000'' ''1000000000'') in
    mkblob (drop (length b - length (example_commit ''1000000000'' ''1000000000''))
      (replace_range (replace_range b (103, 119) ''1000000000 +0000'') (70, 86) ''999999999 +0000'')))
   = mkblob (example_commit ''999999999'' ''1000000000'')"
  "length (mkblob (example_commit ''999999999'' ''1000000000'')) = 135"
  by code_simp+

lemma example_rebuild_10_solution:
  "rebuild (example_commit ''1000000000'' ''1000000000'')
     \<lparr>author = \<lparr>date_n = 999999999, date_tz = ''+0000''\<rparr>,
      committer = \<lparr>date_n = 1000000000, date_tz = ''+0000''\<rparr>\<rparr>
   = mkblob (example_commit ''999999999'' ''1000000000'')"
  using example_rebuild_10_text(1)
  by (simp add: rebuild_def example_fields_10 date_String_def format_decimal_examples Let_def)








subsection \<open>Three digests\<close>

lemma sha1_round_eval:
  "sha1_round (w, (a, b, c, d, e)) t =
     (tl w @ [of_nat (unat (rotl 1 (w ! 13 XOR w ! 8 XOR w ! 2 XOR w ! 0)))],
      (of_nat (unat (rotl 5 a + sha1_f t b c d + e + hd w + sha1_k t)), a, of_nat (unat (rotl 30 b)), c, d))"
  by simp

lemma rounds_split:
  "foldl f s [0 ..< 80] = foldl f (foldl f (foldl f (foldl f s [0 ..< 20]) [20 ..< 40]) [40 ..< 60]) [60 ..< 80]"
proof -
  have "[0 ..< 80] = (([0 ..< 20] @ [20 ..< 40]) @ [40 ..< 60]) @ [60 ..< (80::nat)]"
    using upt_add_eq_append[of 0 20 20] upt_add_eq_append[of 0 40 20] upt_add_eq_append[of 0 60 20]
    by simp
  then show ?thesis by (simp only: foldl_append)
qed

lemma sha1_blocks_step:
  "p \<noteq> [] \<Longrightarrow> sha1_blocks h p = sha1_blocks (sha1_block h (take 64 p)) (drop 64 p)"
  by (cases p) simp_all

lemma sha1_blocks_192:
  assumes "length p = 192"
  shows "sha1_blocks h p
    = sha1_block (sha1_block (sha1_block h (take 64 p)) (take 64 (drop 64 p))) (take 64 (drop 128 p))"
proof -
  have 1: "p \<noteq> []" "drop 64 p \<noteq> []" "drop 128 p \<noteq> []" using assms by auto
  have "sha1_blocks h p = sha1_blocks (sha1_block h (take 64 p)) (drop 64 p)"
    using 1(1) by (rule sha1_blocks_step)
  also have "\<dots> = sha1_blocks (sha1_block (sha1_block h (take 64 p)) (take 64 (drop 64 p))) (drop 64 (drop 64 p))"
    using 1(2) by (rule sha1_blocks_step)
  also have "drop 64 (drop 64 p) = drop 128 p" by simp
  also have "sha1_blocks (sha1_block (sha1_block h (take 64 p)) (take 64 (drop 64 p))) (drop 128 p)
      = sha1_blocks (sha1_block (sha1_block (sha1_block h (take 64 p)) (take 64 (drop 64 p))) (take 64 (drop 128 p)))
          (drop 64 (drop 128 p))"
    using 1(3) by (rule sha1_blocks_step)
  also have "drop 64 (drop 128 p) = []" using assms by simp
  finally show ?thesis by simp
qed

lemma length_pad_bytes:
  "char_of (0::nat) = CHR 0x00" "char_of (4::nat) = CHR 0x04"
  "char_of (1088::nat) = CHR 0x40" "char_of (1080::nat) = CHR 0x38"
  by (simp_all add: char_of_def bit_Suc_0_iff)

lemma zeros:
  "replicate 47 c = [c, c, c, c, c, c, c, c, c, c, c, c, c, c, c, c, c, c, c, c, c, c, c, c, c, c, c, c, c, c, c, c, c, c, c, c, c, c, c, c, c, c, c, c, c, c, c]"
  "replicate 48 c = [c, c, c, c, c, c, c, c, c, c, c, c, c, c, c, c, c, c, c, c, c, c, c, c, c, c, c, c, c, c, c, c, c, c, c, c, c, c, c, c, c, c, c, c, c, c, c, c]"
  by (simp_all add: numeral_eq_Suc)

lemma sha1_pad_136:
  assumes "length m = 136"
  shows "sha1_pad m = m @ [CHR 0x80] @ replicate 47 (CHR 0x00)
      @ [CHR 0x00, CHR 0x00, CHR 0x00, CHR 0x00, CHR 0x00, CHR 0x00, CHR 0x04, CHR 0x40]"
  using assms by (simp add: sha1_pad_def Let_def upt_rec length_pad_bytes)

lemma sha1_pad_135:
  assumes "length m = 135"
  shows "sha1_pad m = m @ [CHR 0x80] @ replicate 48 (CHR 0x00)
      @ [CHR 0x00, CHR 0x00, CHR 0x00, CHR 0x00, CHR 0x00, CHR 0x00, CHR 0x04, CHR 0x38]"
  using assms by (simp add: sha1_pad_def Let_def upt_rec length_pad_bytes)

lemma text_orig:
  "mkblob (example_commit ''1000000000'' ''1000000000'') = ''commit 125'' @ [CHR 0x00] @ example_commit ''1000000000'' ''1000000000''"
  "length (mkblob (example_commit ''1000000000'' ''1000000000'')) = 136"
  by code_simp+

lemma padded_orig:
  "sha1_pad (mkblob (example_commit ''1000000000'' ''1000000000'')) = ''commit 125'' @ [CHR 0x00] @ example_commit ''1000000000'' ''1000000000'' @ [CHR 0x80] @ replicate 47 (CHR 0x00)
      @ [CHR 0x00, CHR 0x00, CHR 0x00, CHR 0x00, CHR 0x00, CHR 0x00, CHR 0x04, CHR 0x40]"
  "length (sha1_pad (mkblob (example_commit ''1000000000'' ''1000000000''))) = 192"
  by (simp_all only: sha1_pad_136[OF text_orig(2)], simp_all only: text_orig(1), simp_all add: example_commit_def)

lemma words_orig_0:
  "block_words (take 64 (drop 0 (sha1_pad (mkblob (example_commit ''1000000000'' ''1000000000''))))) = [0x636F6D6D, 0x69742031, 0x32350074, 0x72656520, 0x34623832, 0x35646336, 0x34326362, 0x36656239, 0x61303630, 0x65353462, 0x66386436, 0x39323838, 0x66626565, 0x34393034, 0x0A617574, 0x686F7220]"
  unfolding padded_orig(1) zeros by (simp add: example_commit_def nl_def be32_def)

lemma rounds_orig_0_0:
  "foldl sha1_round ([0x636F6D6D, 0x69742031, 0x32350074, 0x72656520, 0x34623832, 0x35646336, 0x34326362, 0x36656239, 0x61303630, 0x65353462, 0x66386436, 0x39323838, 0x66626565, 0x34393034, 0x0A617574, 0x686F7220], (0x67452301, 0xEFCDAB89, 0x98BADCFE, 0x10325476, 0xC3D2E1F0)) [0 ..< 20] = ([0x1D706C77, 0x4E70DB36, 0x6491E01D, 0x4C9E9018, 0x83BCBE14, 0xA039C893, 0xB9899BD6, 0xC738CC60, 0xA29569EB, 0x575E05E9, 0x42DD1E67, 0xDDDD07BA, 0x988862CF, 0xCE8A1DA5, 0xD2495976, 0xF9D74B63], (0xDCFC819E, 0x35F17223, 0x4C177FF5, 0x6CDAC62F, 0x06F59066))"
  by (simp add: upt_rec rotl_def sha1_f_def sha1_k_def sha1_round_eval del: sha1_round.simps)

lemma rounds_orig_0_20:
  "foldl sha1_round ([0x1D706C77, 0x4E70DB36, 0x6491E01D, 0x4C9E9018, 0x83BCBE14, 0xA039C893, 0xB9899BD6, 0xC738CC60, 0xA29569EB, 0x575E05E9, 0x42DD1E67, 0xDDDD07BA, 0x988862CF, 0xCE8A1DA5, 0xD2495976, 0xF9D74B63], (0xDCFC819E, 0x35F17223, 0x4C177FF5, 0x6CDAC62F, 0x06F59066)) [20 ..< 40] = ([0x5A9ED0DD, 0x238A1E98, 0xF8B5EB73, 0x665EA46E, 0xD07F32B9, 0xFB898C86, 0x088B9DB8, 0xEC4EECA9, 0xD7ACCFC5, 0x38B9ABCC, 0xDA9F5DC9, 0x8FAE1F56, 0xF6EAFE4E, 0x37D741BC, 0xCBEA8852, 0x1842A51A], (0x8047BF2E, 0x757DC8C5, 0xEAC79B43, 0x76B93778, 0x6A255A75))"
  by (simp add: upt_rec rotl_def sha1_f_def sha1_k_def sha1_round_eval del: sha1_round.simps)

lemma rounds_orig_0_40:
  "foldl sha1_round ([0x5A9ED0DD, 0x238A1E98, 0xF8B5EB73, 0x665EA46E, 0xD07F32B9, 0xFB898C86, 0x088B9DB8, 0xEC4EECA9, 0xD7ACCFC5, 0x38B9ABCC, 0xDA9F5DC9, 0x8FAE1F56, 0xF6EAFE4E, 0x37D741BC, 0xCBEA8852, 0x1842A51A], (0x8047BF2E, 0x757DC8C5, 0xEAC79B43, 0x76B93778, 0x6A255A75)) [40 ..< 60] = ([0x8622C73C, 0xE87CC741, 0x72FAC41C, 0x952E4A86, 0xC3DC7DC6, 0x51C484AF, 0xDAEB5664, 0xAC2B361A, 0xD5CC6B1F, 0x3A04EB06, 0x233423F5, 0x6B5F6CA4, 0x52AF7EBB, 0x649E5B54, 0xC7717F9F, 0x76906F82], (0x0CEBB2C0, 0xE2695AA3, 0xF024E975, 0xD0D34C64, 0x0204CAEF))"
  by (simp add: upt_rec rotl_def sha1_f_def sha1_k_def sha1_round_eval del: sha1_round.simps)

lemma rounds_orig_0_60:
  "foldl sha1_round ([0x8622C73C, 0xE87CC741, 0x72FAC41C, 0x952E4A86, 0xC3DC7DC6, 0x51C484AF, 0xDAEB5664, 0xAC2B361A, 0xD5CC6B1F, 0x3A04EB06, 0x233423F5, 0x6B5F6CA4, 0x52AF7EBB, 0x649E5B54, 0xC7717F9F, 0x76906F82], (0x0CEBB2C0, 0xE2695AA3, 0xF024E975, 0xD0D34C64, 0x0204CAEF)) [60 ..< 80] = ([0x97ACCF48, 0xA0E80574, 0x022B94A5, 0xEE26FBAC, 0xBA085691, 0xA67C4374, 0xAD709B72, 0xF915D3AF, 0x481D1A31, 0x3F2D55A0, 0x6EB6BC87, 0xA1CB7945, 0x8E691D79, 0x038E8BF1, 0xA4258C48, 0x3DAE8629], (0x30D28BF3, 0xBD8DDCE0, 0x2A500D93, 0x5C137A84, 0xF9445403))"
  by (simp add: upt_rec rotl_def sha1_f_def sha1_k_def sha1_round_eval del: sha1_round.simps)

lemma block_orig_0:
  "sha1_block (0x67452301, 0xEFCDAB89, 0x98BADCFE, 0x10325476, 0xC3D2E1F0) (take 64 (drop 0 (sha1_pad (mkblob (example_commit ''1000000000'' ''1000000000''))))) = (0x9817AEF4, 0xAD5B8869, 0xC30AEA91, 0x6C45CEFA, 0xBD1735F3)"
  unfolding sha1_block.simps words_orig_0 rounds_split rounds_orig_0_0 rounds_orig_0_20 rounds_orig_0_40 rounds_orig_0_60
  by simp

lemma words_orig_1:
  "block_words (take 64 (drop 64 (sha1_pad (mkblob (example_commit ''1000000000'' ''1000000000''))))) = [0x61203C61, 0x3E203130, 0x30303030, 0x30303030, 0x202B3030, 0x30300A63, 0x6F6D6D69, 0x74746572, 0x2061203C, 0x613E2031, 0x30303030, 0x30303030, 0x30202B30, 0x3030300A, 0x0A696E69, 0x7469616C]"
  unfolding padded_orig(1) zeros by (simp add: example_commit_def nl_def be32_def)

lemma rounds_orig_1_0:
  "foldl sha1_round ([0x61203C61, 0x3E203130, 0x30303030, 0x30303030, 0x202B3030, 0x30300A63, 0x6F6D6D69, 0x74746572, 0x2061203C, 0x613E2031, 0x30303030, 0x30303030, 0x30202B30, 0x3030300A, 0x0A696E69, 0x7469616C], (0x9817AEF4, 0xAD5B8869, 0xC30AEA91, 0x6C45CEFA, 0xBD1735F3)) [0 ..< 20] = ([0x6BD1D1B3, 0xB9E1FB47, 0x40028CCE, 0x15E5EB38, 0x5665A70A, 0xB70404FF, 0x7AE2A501, 0x660384D6, 0xCD39202B, 0x0EB41E41, 0x5DD4BD7F, 0xCC76699E, 0xE5AE467A, 0x8A7484D6, 0xEB837F28, 0xBE50B960], (0x66A8E811, 0x41FB6804, 0x8760467B, 0x45A1BEE3, 0x5D30F3BF))"
  by (simp add: upt_rec rotl_def sha1_f_def sha1_k_def sha1_round_eval del: sha1_round.simps)

lemma rounds_orig_1_20:
  "foldl sha1_round ([0x6BD1D1B3, 0xB9E1FB47, 0x40028CCE, 0x15E5EB38, 0x5665A70A, 0xB70404FF, 0x7AE2A501, 0x660384D6, 0xCD39202B, 0x0EB41E41, 0x5DD4BD7F, 0xCC76699E, 0xE5AE467A, 0x8A7484D6, 0xEB837F28, 0xBE50B960], (0x66A8E811, 0x41FB6804, 0x8760467B, 0x45A1BEE3, 0x5D30F3BF)) [20 ..< 40] = ([0xB69F4CBA, 0x616AB691, 0x66182162, 0xC0F0DE9A, 0x5175B18A, 0x6D796922, 0x2698F451, 0xF0476CE2, 0xAB963995, 0xE7ACFEEC, 0x49C38351, 0x8EA17886, 0x0845C7A3, 0xB311C5D9, 0xEAC13FB5, 0xEC79EEC7], (0x0454112F, 0x9DC2BB4B, 0xAC5BC77A, 0xBC528F8C, 0x2B0130BB))"
  by (simp add: upt_rec rotl_def sha1_f_def sha1_k_def sha1_round_eval del: sha1_round.simps)

lemma rounds_orig_1_40:
  "foldl sha1_round ([0xB69F4CBA, 0x616AB691, 0x66182162, 0xC0F0DE9A, 0x5175B18A, 0x6D796922, 0x2698F451, 0xF0476CE2, 0xAB963995, 0xE7ACFEEC, 0x49C38351, 0x8EA17886, 0x0845C7A3, 0xB311C5D9, 0xEAC13FB5, 0xEC79EEC7], (0x0454112F, 0x9DC2BB4B, 0xAC5BC77A, 0xBC528F8C, 0x2B0130BB)) [40 ..< 60] = ([0x4C8FA1BA, 0x170075C8, 0x033854BC, 0x6E3BBAE7, 0xCAA9D84A, 0x67B500E6, 0x142409D0, 0x22957A75, 0x937CB295, 0xB898AE0C, 0xB6DA64AA, 0x91A36820, 0x8F3F5F25, 0xDDA7DD8D, 0xD94E756F, 0xB9F3116F], (0xF815F0AB, 0x008AF53C, 0xFDD9E6D5, 0x7ACA19B3, 0xD5BCC14D))"
  by (simp add: upt_rec rotl_def sha1_f_def sha1_k_def sha1_round_eval del: sha1_round.simps)

lemma rounds_orig_1_60:
  "foldl sha1_round ([0x4C8FA1BA, 0x170075C8, 0x033854BC, 0x6E3BBAE7, 0xCAA9D84A, 0x67B500E6, 0x142409D0, 0x22957A75, 0x937CB295, 0xB898AE0C, 0xB6DA64AA, 0x91A36820, 0x8F3F5F25, 0xDDA7DD8D, 0xD94E756F, 0xB9F3116F], (0xF815F0AB, 0x008AF53C, 0xFDD9E6D5, 0x7ACA19B3, 0xD5BCC14D)) [60 ..< 80] = ([0xC0D14C4E, 0x2BECAAF2, 0xD7FE0422, 0xC65F12B1, 0x192691E2, 0x9E3FD52D, 0xE597B6B2, 0xC197D0E8, 0x113F6652, 0x545FA145, 0x9BFD2B33, 0xBE929A28, 0x85A3EDF9, 0x03E2357A, 0x2D4B2566, 0xB462B7B0], (0x8807DB5B, 0xE2B8AB0F, 0x8C971398, 0x5B46BB2C, 0x7278406E))"
  by (simp add: upt_rec rotl_def sha1_f_def sha1_k_def sha1_round_eval del: sha1_round.simps)

lemma block_orig_1:
  "sha1_block (0x9817AEF4, 0xAD5B8869, 0xC30AEA91, 0x6C45CEFA, 0xBD1735F3) (take 64 (drop 64 (sha1_pad (mkblob (example_commit ''1000000000'' ''1000000000''))))) = (0x201F8A4F, 0x90143378, 0x4FA1FE29, 0xC78C8A26, 0x2F8F7661)"
  unfolding sha1_block.simps words_orig_1 rounds_split rounds_orig_1_0 rounds_orig_1_20 rounds_orig_1_40 rounds_orig_1_60
  by simp

lemma words_orig_2:
  "block_words (take 64 (drop 128 (sha1_pad (mkblob (example_commit ''1000000000'' ''1000000000''))))) = [0x20636F6D, 0x6D69740A, 0x80000000, 0x00000000, 0x00000000, 0x00000000, 0x00000000, 0x00000000, 0x00000000, 0x00000000, 0x00000000, 0x00000000, 0x00000000, 0x00000000, 0x00000000, 0x00000440]"
  unfolding padded_orig(1) zeros by (simp add: example_commit_def nl_def be32_def)

lemma rounds_orig_2_0:
  "foldl sha1_round ([0x20636F6D, 0x6D69740A, 0x80000000, 0x00000000, 0x00000000, 0x00000000, 0x00000000, 0x00000000, 0x00000000, 0x00000000, 0x00000000, 0x00000000, 0x00000000, 0x00000000, 0x00000000, 0x00000440], (0x201F8A4F, 0x90143378, 0x4FA1FE29, 0xC78C8A26, 0x2F8F7661)) [0 ..< 20] = ([0xB5A5D029, 0x00001102, 0x031B7B6D, 0x6B4BA8D3, 0x818D9FB2, 0xB39326F3, 0xD69740A4, 0x00004408, 0x0C6DEDB4, 0xAD2EABCD, 0x87BBC37C, 0x7BE95267, 0xD8CBC44A, 0xDEEF605A, 0x31B794D6, 0xB28C59EC], (0xB0F766D8, 0x4F783E0D, 0x01EB6E23, 0xD61B6DC8, 0x46B2FB56))"
  by (simp add: upt_rec rotl_def sha1_f_def sha1_k_def sha1_round_eval del: sha1_round.simps)

lemma rounds_orig_2_20:
  "foldl sha1_round ([0xB5A5D029, 0x00001102, 0x031B7B6D, 0x6B4BA8D3, 0x818D9FB2, 0xB39326F3, 0xD69740A4, 0x00004408, 0x0C6DEDB4, 0xAD2EABCD, 0x87BBC37C, 0x7BE95267, 0xD8CBC44A, 0xDEEF605A, 0x31B794D6, 0xB28C59EC], (0xB0F766D8, 0x4F783E0D, 0x01EB6E23, 0xD61B6DC8, 0x46B2FB56)) [20 ..< 40] = ([0xC0E82D92, 0x047DFC7C, 0x7BBC37C0, 0xBE953777, 0x8FA73FC0, 0x85BD87FE, 0x1D4F99BD, 0xF8645FB7, 0x5853F5E1, 0xEAA2B8EE, 0xF42F63EA, 0x77DF2DDF, 0x847E6DCB, 0x9149974E, 0x8A74CADF, 0x5DE9D84D], (0xC828553B, 0xF41C41F2, 0xEF2941F5, 0x92115F58, 0x30E6D2FF))"
  by (simp add: upt_rec rotl_def sha1_f_def sha1_k_def sha1_round_eval del: sha1_round.simps)

lemma rounds_orig_2_40:
  "foldl sha1_round ([0xC0E82D92, 0x047DFC7C, 0x7BBC37C0, 0xBE953777, 0x8FA73FC0, 0x85BD87FE, 0x1D4F99BD, 0xF8645FB7, 0x5853F5E1, 0xEAA2B8EE, 0xF42F63EA, 0x77DF2DDF, 0x847E6DCB, 0x9149974E, 0x8A74CADF, 0x5DE9D84D], (0xC828553B, 0xF41C41F2, 0xEF2941F5, 0x92115F58, 0x30E6D2FF)) [40 ..< 60] = ([0x45D77387, 0xAE565092, 0x3F7CFFB5, 0x15F09926, 0xCD6C6EC7, 0x2CF831E2, 0xBC35E093, 0xF6581A1E, 0xCE4BCAE2, 0xBD87FE05, 0x4F99BD1D, 0x645FF3F8, 0x5F980CEC, 0x0F944FA7, 0x4C0C0F44, 0xAE813E72], (0xB5248C71, 0x4473FCC5, 0x3AA9712E, 0x95308E7D, 0x6451E69E))"
  by (simp add: upt_rec rotl_def sha1_f_def sha1_k_def sha1_round_eval del: sha1_round.simps)

lemma rounds_orig_2_60:
  "foldl sha1_round ([0x45D77387, 0xAE565092, 0x3F7CFFB5, 0x15F09926, 0xCD6C6EC7, 0x2CF831E2, 0xBC35E093, 0xF6581A1E, 0xCE4BCAE2, 0xBD87FE05, 0x4F99BD1D, 0x645FF3F8, 0x5F980CEC, 0x0F944FA7, 0x4C0C0F44, 0xAE813E72], (0xB5248C71, 0x4473FCC5, 0x3AA9712E, 0x95308E7D, 0x6451E69E)) [60 ..< 80] = ([0x7537E6A5, 0xE64880C3, 0xD2196D26, 0x20D27999, 0x22E5CBA6, 0x3F362263, 0x2D87D8A4, 0x3CA1C8BE, 0xB32B8EDC, 0xD5B45364, 0xA8B97067, 0x524571BB, 0x4F535C2F, 0xA9576090, 0x59CAD700, 0x85890FE9], (0x3913EFA1, 0x5BDCF6BA, 0x7AC6DB33, 0xF72858DE, 0x88C71712))"
  by (simp add: upt_rec rotl_def sha1_f_def sha1_k_def sha1_round_eval del: sha1_round.simps)

lemma block_orig_2:
  "sha1_block (0x201F8A4F, 0x90143378, 0x4FA1FE29, 0xC78C8A26, 0x2F8F7661) (take 64 (drop 128 (sha1_pad (mkblob (example_commit ''1000000000'' ''1000000000''))))) = (0x593379F0, 0xEBF12A32, 0xCA68D95C, 0xBEB4E304, 0xB8568D73)"
  unfolding sha1_block.simps words_orig_2 rounds_split rounds_orig_2_0 rounds_orig_2_20 rounds_orig_2_40 rounds_orig_2_60
  by simp

lemma digest_orig:
  "hex_encode (sha1 (mkblob (example_commit ''1000000000'' ''1000000000''))) = ''593379f0ebf12a32ca68d95cbeb4e304b8568d73''"
proof -
  have "sha1_blocks (0x67452301, 0xEFCDAB89, 0x98BADCFE, 0x10325476, 0xC3D2E1F0) (sha1_pad (mkblob (example_commit ''1000000000'' ''1000000000''))) = (0x593379F0, 0xEBF12A32, 0xCA68D95C, 0xBEB4E304, 0xB8568D73)"
    unfolding sha1_blocks_192[OF padded_orig(2)]
    using block_orig_0 block_orig_1 block_orig_2 by simp
  then show ?thesis
    by (simp add: sha1_def hex_encode_def word_bytes_def upt_rec hex_def)
qed

lemma text_short:
  "mkblob (example_commit ''9999999990'' ''1000000000'') = ''commit 125'' @ [CHR 0x00] @ example_commit ''9999999990'' ''1000000000''"
  "length (mkblob (example_commit ''9999999990'' ''1000000000'')) = 136"
  by code_simp+

lemma padded_short:
  "sha1_pad (mkblob (example_commit ''9999999990'' ''1000000000'')) = ''commit 125'' @ [CHR 0x00] @ example_commit ''9999999990'' ''1000000000'' @ [CHR 0x80] @ replicate 47 (CHR 0x00)
      @ [CHR 0x00, CHR 0x00, CHR 0x00, CHR 0x00, CHR 0x00, CHR 0x00, CHR 0x04, CHR 0x40]"
  "length (sha1_pad (mkblob (example_commit ''9999999990'' ''1000000000''))) = 192"
  by (simp_all only: sha1_pad_136[OF text_short(2)], simp_all only: text_short(1), simp_all add: example_commit_def)

lemma words_short_0:
  "block_words (take 64 (drop 0 (sha1_pad (mkblob (example_commit ''9999999990'' ''1000000000''))))) = [0x636F6D6D, 0x69742031, 0x32350074, 0x72656520, 0x34623832, 0x35646336, 0x34326362, 0x36656239, 0x61303630, 0x65353462, 0x66386436, 0x39323838, 0x66626565, 0x34393034, 0x0A617574, 0x686F7220]"
  unfolding padded_short(1) zeros by (simp add: example_commit_def nl_def be32_def)

lemma rounds_short_0_0:
  "foldl sha1_round ([0x636F6D6D, 0x69742031, 0x32350074, 0x72656520, 0x34623832, 0x35646336, 0x34326362, 0x36656239, 0x61303630, 0x65353462, 0x66386436, 0x39323838, 0x66626565, 0x34393034, 0x0A617574, 0x686F7220], (0x67452301, 0xEFCDAB89, 0x98BADCFE, 0x10325476, 0xC3D2E1F0)) [0 ..< 20] = ([0x1D706C77, 0x4E70DB36, 0x6491E01D, 0x4C9E9018, 0x83BCBE14, 0xA039C893, 0xB9899BD6, 0xC738CC60, 0xA29569EB, 0x575E05E9, 0x42DD1E67, 0xDDDD07BA, 0x988862CF, 0xCE8A1DA5, 0xD2495976, 0xF9D74B63], (0xDCFC819E, 0x35F17223, 0x4C177FF5, 0x6CDAC62F, 0x06F59066))"
  by (simp add: upt_rec rotl_def sha1_f_def sha1_k_def sha1_round_eval del: sha1_round.simps)

lemma rounds_short_0_20:
  "foldl sha1_round ([0x1D706C77, 0x4E70DB36, 0x6491E01D, 0x4C9E9018, 0x83BCBE14, 0xA039C893, 0xB9899BD6, 0xC738CC60, 0xA29569EB, 0x575E05E9, 0x42DD1E67, 0xDDDD07BA, 0x988862CF, 0xCE8A1DA5, 0xD2495976, 0xF9D74B63], (0xDCFC819E, 0x35F17223, 0x4C177FF5, 0x6CDAC62F, 0x06F59066)) [20 ..< 40] = ([0x5A9ED0DD, 0x238A1E98, 0xF8B5EB73, 0x665EA46E, 0xD07F32B9, 0xFB898C86, 0x088B9DB8, 0xEC4EECA9, 0xD7ACCFC5, 0x38B9ABCC, 0xDA9F5DC9, 0x8FAE1F56, 0xF6EAFE4E, 0x37D741BC, 0xCBEA8852, 0x1842A51A], (0x8047BF2E, 0x757DC8C5, 0xEAC79B43, 0x76B93778, 0x6A255A75))"
  by (simp add: upt_rec rotl_def sha1_f_def sha1_k_def sha1_round_eval del: sha1_round.simps)

lemma rounds_short_0_40:
  "foldl sha1_round ([0x5A9ED0DD, 0x238A1E98, 0xF8B5EB73, 0x665EA46E, 0xD07F32B9, 0xFB898C86, 0x088B9DB8, 0xEC4EECA9, 0xD7ACCFC5, 0x38B9ABCC, 0xDA9F5DC9, 0x8FAE1F56, 0xF6EAFE4E, 0x37D741BC, 0xCBEA8852, 0x1842A51A], (0x8047BF2E, 0x757DC8C5, 0xEAC79B43, 0x76B93778, 0x6A255A75)) [40 ..< 60] = ([0x8622C73C, 0xE87CC741, 0x72FAC41C, 0x952E4A86, 0xC3DC7DC6, 0x51C484AF, 0xDAEB5664, 0xAC2B361A, 0xD5CC6B1F, 0x3A04EB06, 0x233423F5, 0x6B5F6CA4, 0x52AF7EBB, 0x649E5B54, 0xC7717F9F, 0x76906F82], (0x0CEBB2C0, 0xE2695AA3, 0xF024E975, 0xD0D34C64, 0x0204CAEF))"
  by (simp add: upt_rec rotl_def sha1_f_def sha1_k_def sha1_round_eval del: sha1_round.simps)

lemma rounds_short_0_60:
  "foldl sha1_round ([0x8622C73C, 0xE87CC741, 0x72FAC41C, 0x952E4A86, 0xC3DC7DC6, 0x51C484AF, 0xDAEB5664, 0xAC2B361A, 0xD5CC6B1F, 0x3A04EB06, 0x233423F5, 0x6B5F6CA4, 0x52AF7EBB, 0x649E5B54, 0xC7717F9F, 0x76906F82], (0x0CEBB2C0, 0xE2695AA3, 0xF024E975, 0xD0D34C64, 0x0204CAEF)) [60 ..< 80] = ([0x97ACCF48, 0xA0E80574, 0x022B94A5, 0xEE26FBAC, 0xBA085691, 0xA67C4374, 0xAD709B72, 0xF915D3AF, 0x481D1A31, 0x3F2D55A0, 0x6EB6BC87, 0xA1CB7945, 0x8E691D79, 0x038E8BF1, 0xA4258C48, 0x3DAE8629], (0x30D28BF3, 0xBD8DDCE0, 0x2A500D93, 0x5C137A84, 0xF9445403))"
  by (simp add: upt_rec rotl_def sha1_f_def sha1_k_def sha1_round_eval del: sha1_round.simps)

lemma block_short_0:
  "sha1_block (0x67452301, 0xEFCDAB89, 0x98BADCFE, 0x10325476, 0xC3D2E1F0) (take 64 (drop 0 (sha1_pad (mkblob (example_commit ''9999999990'' ''1000000000''))))) = (0x9817AEF4, 0xAD5B8869, 0xC30AEA91, 0x6C45CEFA, 0xBD1735F3)"
  unfolding sha1_block.simps words_short_0 rounds_split rounds_short_0_0 rounds_short_0_20 rounds_short_0_40 rounds_short_0_60
  by simp

lemma words_short_1:
  "block_words (take 64 (drop 64 (sha1_pad (mkblob (example_commit ''9999999990'' ''1000000000''))))) = [0x61203C61, 0x3E203939, 0x39393939, 0x39393930, 0x202B3030, 0x30300A63, 0x6F6D6D69, 0x74746572, 0x2061203C, 0x613E2031, 0x30303030, 0x30303030, 0x30202B30, 0x3030300A, 0x0A696E69, 0x7469616C]"
  unfolding padded_short(1) zeros by (simp add: example_commit_def nl_def be32_def)

lemma rounds_short_1_0:
  "foldl sha1_round ([0x61203C61, 0x3E203939, 0x39393939, 0x39393930, 0x202B3030, 0x30300A63, 0x6F6D6D69, 0x74746572, 0x2061203C, 0x613E2031, 0x30303030, 0x30303030, 0x30202B30, 0x3030300A, 0x0A696E69, 0x7469616C], (0x9817AEF4, 0xAD5B8869, 0xC30AEA91, 0x6C45CEFA, 0xBD1735F3)) [0 ..< 20] = ([0x4FF5D597, 0x9DC5DF63, 0x2C6EE086, 0x5DADE370, 0x3A09CB66, 0x4BF8D84B, 0xCE5691B5, 0xD2B73046, 0x7C88910A, 0x2F943F60, 0xC84128EA, 0x1BA11F69, 0x7F36DCE0, 0x10EE7EF8, 0x4129D7C2, 0xC62CC174], (0x81EDAE98, 0x68B0245B, 0x6A82B3F3, 0xDBE15C1D, 0x93AA8126))"
  by (simp add: upt_rec rotl_def sha1_f_def sha1_k_def sha1_round_eval del: sha1_round.simps)

lemma rounds_short_1_20:
  "foldl sha1_round ([0x4FF5D597, 0x9DC5DF63, 0x2C6EE086, 0x5DADE370, 0x3A09CB66, 0x4BF8D84B, 0xCE5691B5, 0xD2B73046, 0x7C88910A, 0x2F943F60, 0xC84128EA, 0x1BA11F69, 0x7F36DCE0, 0x10EE7EF8, 0x4129D7C2, 0xC62CC174], (0x81EDAE98, 0x68B0245B, 0x6A82B3F3, 0xDBE15C1D, 0x93AA8126)) [20 ..< 40] = ([0xAD845EA1, 0x73682413, 0xAFD1E8AB, 0x2D1721E7, 0xB0B4506B, 0x8C9EC383, 0x54EAA223, 0x3FC825A5, 0x3E0B2C00, 0xE2807379, 0x9D975E15, 0x1136CBE1, 0xFBB42450, 0xD17A2FBA, 0xB09B673F, 0x26160D9D], (0x2FF2AC3F, 0x6A05EC07, 0x43795670, 0x4EF9EC5D, 0x4BD2F3EE))"
  by (simp add: upt_rec rotl_def sha1_f_def sha1_k_def sha1_round_eval del: sha1_round.simps)

lemma rounds_short_1_40:
  "foldl sha1_round ([0xAD845EA1, 0x73682413, 0xAFD1E8AB, 0x2D1721E7, 0xB0B4506B, 0x8C9EC383, 0x54EAA223, 0x3FC825A5, 0x3E0B2C00, 0xE2807379, 0x9D975E15, 0x1136CBE1, 0xFBB42450, 0xD17A2FBA, 0xB09B673F, 0x26160D9D], (0x2FF2AC3F, 0x6A05EC07, 0x43795670, 0x4EF9EC5D, 0x4BD2F3EE)) [40 ..< 60] = ([0x0E45EAF8, 0x57CA3E1A, 0x1F2CD9A8, 0xEA376373, 0x5C3E4EDC, 0xE8A484A9, 0x8BBB9F4F, 0x933C5E9E, 0x5B9C5A7D, 0x563B06E4, 0xCD8516D1, 0x1EEA2FEF, 0x330BEB91, 0xD00A69A9, 0xA5BB1993, 0x44221DBA], (0xA8A338BD, 0x01A56F96, 0xAE79F4FF, 0xB0657548, 0x37A4088E))"
  by (simp add: upt_rec rotl_def sha1_f_def sha1_k_def sha1_round_eval del: sha1_round.simps)

lemma rounds_short_1_60:
  "foldl sha1_round ([0x0E45EAF8, 0x57CA3E1A, 0x1F2CD9A8, 0xEA376373, 0x5C3E4EDC, 0xE8A484A9, 0x8BBB9F4F, 0x933C5E9E, 0x5B9C5A7D, 0x563B06E4, 0xCD8516D1, 0x1EEA2FEF, 0x330BEB91, 0xD00A69A9, 0xA5BB1993, 0x44221DBA], (0xA8A338BD, 0x01A56F96, 0xAE79F4FF, 0xB0657548, 0x37A4088E)) [60 ..< 80] = ([0xF0E97C7C, 0x7DF31742, 0x4D269DB2, 0xE3987378, 0xBC28B5CF, 0x321A610B, 0x10FB6C0F, 0x438EC3E2, 0xA887DEEA, 0xF2401EBD, 0x3DDA8D95, 0x278E6829, 0xDDFB2489, 0x806BF5B5, 0xA5EE80CA, 0x6112C4A3], (0x65C645D2, 0xE9F36971, 0xF4564D7D, 0x0E4EBA8A, 0xF2AB95EC))"
  by (simp add: upt_rec rotl_def sha1_f_def sha1_k_def sha1_round_eval del: sha1_round.simps)

lemma block_short_1:
  "sha1_block (0x9817AEF4, 0xAD5B8869, 0xC30AEA91, 0x6C45CEFA, 0xBD1735F3) (take 64 (drop 64 (sha1_pad (mkblob (example_commit ''9999999990'' ''1000000000''))))) = (0xFDDDF4C6, 0x974EF1DA, 0xB761380E, 0x7A948984, 0xAFC2CBDF)"
  unfolding sha1_block.simps words_short_1 rounds_split rounds_short_1_0 rounds_short_1_20 rounds_short_1_40 rounds_short_1_60
  by simp

lemma words_short_2:
  "block_words (take 64 (drop 128 (sha1_pad (mkblob (example_commit ''9999999990'' ''1000000000''))))) = [0x20636F6D, 0x6D69740A, 0x80000000, 0x00000000, 0x00000000, 0x00000000, 0x00000000, 0x00000000, 0x00000000, 0x00000000, 0x00000000, 0x00000000, 0x00000000, 0x00000000, 0x00000000, 0x00000440]"
  unfolding padded_short(1) zeros by (simp add: example_commit_def nl_def be32_def)

lemma rounds_short_2_0:
  "foldl sha1_round ([0x20636F6D, 0x6D69740A, 0x80000000, 0x00000000, 0x00000000, 0x00000000, 0x00000000, 0x00000000, 0x00000000, 0x00000000, 0x00000000, 0x00000000, 0x00000000, 0x00000000, 0x00000000, 0x00000440], (0xFDDDF4C6, 0x974EF1DA, 0xB761380E, 0x7A948984, 0xAFC2CBDF)) [0 ..< 20] = ([0xB5A5D029, 0x00001102, 0x031B7B6D, 0x6B4BA8D3, 0x818D9FB2, 0xB39326F3, 0xD69740A4, 0x00004408, 0x0C6DEDB4, 0xAD2EABCD, 0x87BBC37C, 0x7BE95267, 0xD8CBC44A, 0xDEEF605A, 0x31B794D6, 0xB28C59EC], (0xA9B92F95, 0x64831721, 0xD46FA8DA, 0xB9EDF4A6, 0x9143C2C9))"
  by (simp add: upt_rec rotl_def sha1_f_def sha1_k_def sha1_round_eval del: sha1_round.simps)

lemma rounds_short_2_20:
  "foldl sha1_round ([0xB5A5D029, 0x00001102, 0x031B7B6D, 0x6B4BA8D3, 0x818D9FB2, 0xB39326F3, 0xD69740A4, 0x00004408, 0x0C6DEDB4, 0xAD2EABCD, 0x87BBC37C, 0x7BE95267, 0xD8CBC44A, 0xDEEF605A, 0x31B794D6, 0xB28C59EC], (0xA9B92F95, 0x64831721, 0xD46FA8DA, 0xB9EDF4A6, 0x9143C2C9)) [20 ..< 40] = ([0xC0E82D92, 0x047DFC7C, 0x7BBC37C0, 0xBE953777, 0x8FA73FC0, 0x85BD87FE, 0x1D4F99BD, 0xF8645FB7, 0x5853F5E1, 0xEAA2B8EE, 0xF42F63EA, 0x77DF2DDF, 0x847E6DCB, 0x9149974E, 0x8A74CADF, 0x5DE9D84D], (0x407B0142, 0xCDE21A89, 0x1C953E99, 0x8AA0F75D, 0x38DA75F3))"
  by (simp add: upt_rec rotl_def sha1_f_def sha1_k_def sha1_round_eval del: sha1_round.simps)

lemma rounds_short_2_40:
  "foldl sha1_round ([0xC0E82D92, 0x047DFC7C, 0x7BBC37C0, 0xBE953777, 0x8FA73FC0, 0x85BD87FE, 0x1D4F99BD, 0xF8645FB7, 0x5853F5E1, 0xEAA2B8EE, 0xF42F63EA, 0x77DF2DDF, 0x847E6DCB, 0x9149974E, 0x8A74CADF, 0x5DE9D84D], (0x407B0142, 0xCDE21A89, 0x1C953E99, 0x8AA0F75D, 0x38DA75F3)) [40 ..< 60] = ([0x45D77387, 0xAE565092, 0x3F7CFFB5, 0x15F09926, 0xCD6C6EC7, 0x2CF831E2, 0xBC35E093, 0xF6581A1E, 0xCE4BCAE2, 0xBD87FE05, 0x4F99BD1D, 0x645FF3F8, 0x5F980CEC, 0x0F944FA7, 0x4C0C0F44, 0xAE813E72], (0xBFA749A0, 0xB23474AB, 0x14D25D2F, 0xA38C3421, 0xBB732D0B))"
  by (simp add: upt_rec rotl_def sha1_f_def sha1_k_def sha1_round_eval del: sha1_round.simps)

lemma rounds_short_2_60:
  "foldl sha1_round ([0x45D77387, 0xAE565092, 0x3F7CFFB5, 0x15F09926, 0xCD6C6EC7, 0x2CF831E2, 0xBC35E093, 0xF6581A1E, 0xCE4BCAE2, 0xBD87FE05, 0x4F99BD1D, 0x645FF3F8, 0x5F980CEC, 0x0F944FA7, 0x4C0C0F44, 0xAE813E72], (0xBFA749A0, 0xB23474AB, 0x14D25D2F, 0xA38C3421, 0xBB732D0B)) [60 ..< 80] = ([0x7537E6A5, 0xE64880C3, 0xD2196D26, 0x20D27999, 0x22E5CBA6, 0x3F362263, 0x2D87D8A4, 0x3CA1C8BE, 0xB32B8EDC, 0xD5B45364, 0xA8B97067, 0x524571BB, 0x4F535C2F, 0xA9576090, 0x59CAD700, 0x85890FE9], (0x1041E3AB, 0x1B2DF73B, 0x7A0D3ECD, 0x31411F3F, 0x32D69B58))"
  by (simp add: upt_rec rotl_def sha1_f_def sha1_k_def sha1_round_eval del: sha1_round.simps)

lemma block_short_2:
  "sha1_block (0xFDDDF4C6, 0x974EF1DA, 0xB761380E, 0x7A948984, 0xAFC2CBDF) (take 64 (drop 128 (sha1_pad (mkblob (example_commit ''9999999990'' ''1000000000''))))) = (0x0E1FD871, 0xB27CE915, 0x316E76DB, 0xABD5A8C3, 0xE2996737)"
  unfolding sha1_block.simps words_short_2 rounds_split rounds_short_2_0 rounds_short_2_20 rounds_short_2_40 rounds_short_2_60
  by simp

lemma digest_short:
  "hex_encode (sha1 (mkblob (example_commit ''9999999990'' ''1000000000''))) = ''0e1fd871b27ce915316e76dbabd5a8c3e2996737''"
proof -
  have "sha1_blocks (0x67452301, 0xEFCDAB89, 0x98BADCFE, 0x10325476, 0xC3D2E1F0) (sha1_pad (mkblob (example_commit ''9999999990'' ''1000000000''))) = (0x0E1FD871, 0xB27CE915, 0x316E76DB, 0xABD5A8C3, 0xE2996737)"
    unfolding sha1_blocks_192[OF padded_short(2)]
    using block_short_0 block_short_1 block_short_2 by simp
  then show ?thesis
    by (simp add: sha1_def hex_encode_def word_bytes_def upt_rec hex_def)
qed

lemma text_rebuilt:
  "mkblob (example_commit ''999999999'' ''1000000000'') = ''commit 124'' @ [CHR 0x00] @ example_commit ''999999999'' ''1000000000''"
  "length (mkblob (example_commit ''999999999'' ''1000000000'')) = 135"
  by code_simp+

lemma padded_rebuilt:
  "sha1_pad (mkblob (example_commit ''999999999'' ''1000000000'')) = ''commit 124'' @ [CHR 0x00] @ example_commit ''999999999'' ''1000000000'' @ [CHR 0x80] @ replicate 48 (CHR 0x00)
      @ [CHR 0x00, CHR 0x00, CHR 0x00, CHR 0x00, CHR 0x00, CHR 0x00, CHR 0x04, CHR 0x38]"
  "length (sha1_pad (mkblob (example_commit ''999999999'' ''1000000000''))) = 192"
  by (simp_all only: sha1_pad_135[OF text_rebuilt(2)], simp_all only: text_rebuilt(1), simp_all add: example_commit_def)

lemma words_rebuilt_0:
  "block_words (take 64 (drop 0 (sha1_pad (mkblob (example_commit ''999999999'' ''1000000000''))))) = [0x636F6D6D, 0x69742031, 0x32340074, 0x72656520, 0x34623832, 0x35646336, 0x34326362, 0x36656239, 0x61303630, 0x65353462, 0x66386436, 0x39323838, 0x66626565, 0x34393034, 0x0A617574, 0x686F7220]"
  unfolding padded_rebuilt(1) zeros by (simp add: example_commit_def nl_def be32_def)

lemma rounds_rebuilt_0_0:
  "foldl sha1_round ([0x636F6D6D, 0x69742031, 0x32340074, 0x72656520, 0x34623832, 0x35646336, 0x34326362, 0x36656239, 0x61303630, 0x65353462, 0x66386436, 0x39323838, 0x66626565, 0x34393034, 0x0A617574, 0x686F7220], (0x67452301, 0xEFCDAB89, 0x98BADCFE, 0x10325476, 0xC3D2E1F0)) [0 ..< 20] = ([0x1D706C77, 0x4E74DB36, 0x6499E01D, 0x4C9E9018, 0x83B0BE14, 0xA029C893, 0xB98D9BD6, 0xC728CC60, 0xA2B569EB, 0x575E05E9, 0x42E91E67, 0xDD9D07BA, 0x989062CF, 0xCECA1DA5, 0xD2C55976, 0xF9C74B63], (0xB6D90CBE, 0xF44E001F, 0xFD5FE66F, 0x36F33484, 0x47F5E312))"
  by (simp add: upt_rec rotl_def sha1_f_def sha1_k_def sha1_round_eval del: sha1_round.simps)

lemma rounds_rebuilt_0_20:
  "foldl sha1_round ([0x1D706C77, 0x4E74DB36, 0x6499E01D, 0x4C9E9018, 0x83B0BE14, 0xA029C893, 0xB98D9BD6, 0xC728CC60, 0xA2B569EB, 0x575E05E9, 0x42E91E67, 0xDD9D07BA, 0x989062CF, 0xCECA1DA5, 0xD2C55976, 0xF9C74B63], (0xB6D90CBE, 0xF44E001F, 0xFD5FE66F, 0x36F33484, 0x47F5E312)) [20 ..< 40] = ([0x589ED0DD, 0x238A1E98, 0xFBE5EB73, 0x625EA46E, 0xD1F732B9, 0xFF898C86, 0x00539DB8, 0xED5EECA9, 0xDA84CFC5, 0x29A9ABCC, 0xDEA75DC9, 0x9FFE1F56, 0xD6FAFE4E, 0x378741BC, 0xFE7A8852, 0x5842A51A], (0x34CE55D0, 0xA2417FAE, 0xEEBC79B1, 0xA28F7DD4, 0x3BFF66A0))"
  by (simp add: upt_rec rotl_def sha1_f_def sha1_k_def sha1_round_eval del: sha1_round.simps)

lemma rounds_rebuilt_0_40:
  "foldl sha1_round ([0x589ED0DD, 0x238A1E98, 0xFBE5EB73, 0x625EA46E, 0xD1F732B9, 0xFF898C86, 0x00539DB8, 0xED5EECA9, 0xDA84CFC5, 0x29A9ABCC, 0xDEA75DC9, 0x9FFE1F56, 0xD6FAFE4E, 0x378741BC, 0xFE7A8852, 0x5842A51A], (0x34CE55D0, 0xA2417FAE, 0xEEBC79B1, 0xA28F7DD4, 0x3BFF66A0)) [40 ..< 60] = ([0x56A2C73C, 0xF97CC740, 0x323AC41C, 0x942E4A87, 0xC35C7DC4, 0x50C484AF, 0x8B3B5667, 0xAD2B361E, 0x5DCC6B1E, 0x3B04EB02, 0xFB3423FD, 0x7B5F6CA5, 0x7A8F7EB6, 0x749E5B45, 0xFE517F9B, 0x26D06F92], (0x84BC47FF, 0x9360B916, 0x37D30C4F, 0xB109377B, 0xA304D173))"
  by (simp add: upt_rec rotl_def sha1_f_def sha1_k_def sha1_round_eval del: sha1_round.simps)

lemma rounds_rebuilt_0_60:
  "foldl sha1_round ([0x56A2C73C, 0xF97CC740, 0x323AC41C, 0x942E4A87, 0xC35C7DC4, 0x50C484AF, 0x8B3B5667, 0xAD2B361E, 0x5DCC6B1E, 0x3B04EB02, 0xFB3423FD, 0x7B5F6CA5, 0x7A8F7EB6, 0x749E5B45, 0xFE517F9B, 0x26D06F92], (0x84BC47FF, 0x9360B916, 0x37D30C4F, 0xB109377B, 0xA304D173)) [60 ..< 80] = ([0xC5CCCF50, 0xA0E80535, 0xC1CB9428, 0xEA66FBBC, 0x3B085641, 0xA33C4265, 0x65B09B32, 0xF915D2AE, 0xC45D1831, 0x2E2D55A1, 0xBA36BFD6, 0xB1CB7D44, 0xAF691CF1, 0x028E8FF0, 0x91658490, 0x7DAE8739], (0xE7826D7C, 0x82244F6C, 0x3D83F02C, 0x40C2A0E5, 0x5D64E835))"
  by (simp add: upt_rec rotl_def sha1_f_def sha1_k_def sha1_round_eval del: sha1_round.simps)

lemma block_rebuilt_0:
  "sha1_block (0x67452301, 0xEFCDAB89, 0x98BADCFE, 0x10325476, 0xC3D2E1F0) (take 64 (drop 0 (sha1_pad (mkblob (example_commit ''999999999'' ''1000000000''))))) = (0x4EC7907D, 0x71F1FAF5, 0xD63ECD2A, 0x50F4F55B, 0x2137CA25)"
  unfolding sha1_block.simps words_rebuilt_0 rounds_split rounds_rebuilt_0_0 rounds_rebuilt_0_20 rounds_rebuilt_0_40 rounds_rebuilt_0_60
  by simp

lemma words_rebuilt_1:
  "block_words (take 64 (drop 64 (sha1_pad (mkblob (example_commit ''999999999'' ''1000000000''))))) = [0x61203C61, 0x3E203939, 0x39393939, 0x39393920, 0x2B303030, 0x300A636F, 0x6D6D6974, 0x74657220, 0x61203C61, 0x3E203130, 0x30303030, 0x30303030, 0x202B3030, 0x30300A0A, 0x696E6974, 0x69616C20]"
  unfolding padded_rebuilt(1) zeros by (simp add: example_commit_def nl_def be32_def)

lemma rounds_rebuilt_1_0:
  "foldl sha1_round ([0x61203C61, 0x3E203939, 0x39393939, 0x39393920, 0x2B303030, 0x300A636F, 0x6D6D6974, 0x74657220, 0x61203C61, 0x3E203130, 0x30303030, 0x30303030, 0x202B3030, 0x30300A0A, 0x696E6974, 0x69616C20], (0x4EC7907D, 0x71F1FAF5, 0xD63ECD2A, 0x50F4F55B, 0x2137CA25)) [0 ..< 20] = ([0x8DB1B39D, 0xC5DF62EF, 0x660248A6, 0x5D2B395B, 0x0DBA11B1, 0x9179F239, 0xB70126D3, 0xB7306772, 0xAB1A31C0, 0x571E442C, 0x549C418D, 0x7FFDA802, 0xBC0D3393, 0x66D23678, 0xA7FB2EFD, 0x31805C79], (0x642D15C1, 0x7219F8FA, 0x662210E1, 0x6D1781CA, 0xD83F592D))"
  by (simp add: upt_rec rotl_def sha1_f_def sha1_k_def sha1_round_eval del: sha1_round.simps)

lemma rounds_rebuilt_1_20:
  "foldl sha1_round ([0x8DB1B39D, 0xC5DF62EF, 0x660248A6, 0x5D2B395B, 0x0DBA11B1, 0x9179F239, 0xB70126D3, 0xB7306772, 0xAB1A31C0, 0x571E442C, 0x549C418D, 0x7FFDA802, 0xBC0D3393, 0x66D23678, 0xA7FB2EFD, 0x31805C79], (0x642D15C1, 0x7219F8FA, 0x662210E1, 0x6D1781CA, 0xD83F592D)) [20 ..< 40] = ([0xAD28CC77, 0xBBA655EA, 0x8AA21A46, 0xF90D66A0, 0x11AFB942, 0xE4C72944, 0x19A93AF0, 0xEC6227EB, 0xA433F0BA, 0xEABA0A37, 0x1B99D4AD, 0x79395153, 0x5555876B, 0xA39B57DD, 0xA1E05C25, 0xF841834F], (0x4C5E173C, 0xE21B9039, 0xD6A59074, 0x85C3600B, 0x39500E7D))"
  by (simp add: upt_rec rotl_def sha1_f_def sha1_k_def sha1_round_eval del: sha1_round.simps)

lemma rounds_rebuilt_1_40:
  "foldl sha1_round ([0xAD28CC77, 0xBBA655EA, 0x8AA21A46, 0xF90D66A0, 0x11AFB942, 0xE4C72944, 0x19A93AF0, 0xEC6227EB, 0xA433F0BA, 0xEABA0A37, 0x1B99D4AD, 0x79395153, 0x5555876B, 0xA39B57DD, 0xA1E05C25, 0xF841834F], (0x4C5E173C, 0xE21B9039, 0xD6A59074, 0x85C3600B, 0x39500E7D)) [40 ..< 60] = ([0x9D639CD2, 0xB52B617C, 0xAA2ADCB2, 0xC7F46482, 0x958B4F8E, 0x54969ACC, 0xF127BD10, 0x0C8D626C, 0x7A81BAA0, 0x3FAC11FC, 0x8E0600AE, 0xADAD2FBA, 0x3790AA24, 0x003B51C9, 0x6085CF68, 0x8EB2A205], (0x3790F1E5, 0x15CF90CB, 0xC682570B, 0x016B4382, 0x4CED5B4C))"
  by (simp add: upt_rec rotl_def sha1_f_def sha1_k_def sha1_round_eval del: sha1_round.simps)

lemma rounds_rebuilt_1_60:
  "foldl sha1_round ([0x9D639CD2, 0xB52B617C, 0xAA2ADCB2, 0xC7F46482, 0x958B4F8E, 0x54969ACC, 0xF127BD10, 0x0C8D626C, 0x7A81BAA0, 0x3FAC11FC, 0x8E0600AE, 0xADAD2FBA, 0x3790AA24, 0x003B51C9, 0x6085CF68, 0x8EB2A205], (0x3790F1E5, 0x15CF90CB, 0xC682570B, 0x016B4382, 0x4CED5B4C)) [60 ..< 80] = ([0x11A3DCDC, 0x4C15948E, 0x42E58E2B, 0x58601A93, 0x46EAF124, 0x16120D73, 0x3FB9A66F, 0x425B0135, 0xA14969C6, 0xFA4B825B, 0xF7B82CC9, 0x58ECCF08, 0xB2D88C86, 0xE02D3147, 0x11B9AD2A, 0xED8E2DE1], (0xA5FFE1CA, 0x4B2CABC6, 0x83880283, 0xE8A41793, 0x38A2D593))"
  by (simp add: upt_rec rotl_def sha1_f_def sha1_k_def sha1_round_eval del: sha1_round.simps)

lemma block_rebuilt_1:
  "sha1_block (0x4EC7907D, 0x71F1FAF5, 0xD63ECD2A, 0x50F4F55B, 0x2137CA25) (take 64 (drop 64 (sha1_pad (mkblob (example_commit ''999999999'' ''1000000000''))))) = (0xF4C77247, 0xBD1EA6BB, 0x59C6CFAD, 0x39990CEE, 0x59DA9FB8)"
  unfolding sha1_block.simps words_rebuilt_1 rounds_split rounds_rebuilt_1_0 rounds_rebuilt_1_20 rounds_rebuilt_1_40 rounds_rebuilt_1_60
  by simp

lemma words_rebuilt_2:
  "block_words (take 64 (drop 128 (sha1_pad (mkblob (example_commit ''999999999'' ''1000000000''))))) = [0x636F6D6D, 0x69740A80, 0x00000000, 0x00000000, 0x00000000, 0x00000000, 0x00000000, 0x00000000, 0x00000000, 0x00000000, 0x00000000, 0x00000000, 0x00000000, 0x00000000, 0x00000000, 0x00000438]"
  unfolding padded_rebuilt(1) zeros by (simp add: example_commit_def nl_def be32_def)

lemma rounds_rebuilt_2_0:
  "foldl sha1_round ([0x636F6D6D, 0x69740A80, 0x00000000, 0x00000000, 0x00000000, 0x00000000, 0x00000000, 0x00000000, 0x00000000, 0x00000000, 0x00000000, 0x00000000, 0x00000000, 0x00000000, 0x00000000, 0x00000438], (0xF4C77247, 0xBD1EA6BB, 0x59C6CFAD, 0x39990CEE, 0x59DA9FB8)) [0 ..< 20] = ([0xA5D02A01, 0x000010E0, 0x1B7B6B6B, 0x4BA05C73, 0x8DBD9475, 0x9326FCD7, 0x9740A806, 0x00004380, 0x6DEDADAC, 0x2E8179BD, 0xBB4BE463, 0xE94BC1CF, 0xCBC47EC4, 0xEE717002, 0xB7B69771, 0x8CF33022], (0x423E08E2, 0xCEB0E50B, 0x369B5044, 0x47E9A79A, 0x1B8FDEF6))"
  by (simp add: upt_rec rotl_def sha1_f_def sha1_k_def sha1_round_eval del: sha1_round.simps)

lemma rounds_rebuilt_2_20:
  "foldl sha1_round ([0xA5D02A01, 0x000010E0, 0x1B7B6B6B, 0x4BA05C73, 0x8DBD9475, 0x9326FCD7, 0x9740A806, 0x00004380, 0x6DEDADAC, 0x2E8179BD, 0xBB4BE463, 0xE94BC1CF, 0xCBC47EC4, 0xEE717002, 0xB7B69771, 0x8CF33022], (0x423E08E2, 0xCEB0E50B, 0x369B5044, 0x47E9A79A, 0x1B8FDEF6)) [20 ..< 40] = ([0xE82C0C10, 0x7F5733D4, 0xB4BE463B, 0x94BC0C1E, 0xA73C8727, 0xACB775ED, 0x4D9F800D, 0x6E850E58, 0x71D32090, 0xA095E7F2, 0x2FC5CD34, 0x9966B027, 0x7E741FC4, 0x62329B41, 0xFC52D50A, 0xF1C5271D], (0x514496F2, 0x3F487A11, 0x41A8962F, 0x8CD0FF75, 0x534DE9FC))"
  by (simp add: upt_rec rotl_def sha1_f_def sha1_k_def sha1_round_eval del: sha1_round.simps)

lemma rounds_rebuilt_2_40:
  "foldl sha1_round ([0xE82C0C10, 0x7F5733D4, 0xB4BE463B, 0x94BC0C1E, 0xA73C8727, 0xACB775ED, 0x4D9F800D, 0x6E850E58, 0x71D32090, 0xA095E7F2, 0x2FC5CD34, 0x9966B027, 0x7E741FC4, 0x62329B41, 0xFC52D50A, 0xF1C5271D], (0x514496F2, 0x3F487A11, 0x41A8962F, 0x8CD0FF75, 0x534DE9FC)) [40 ..< 60] = ([0xF51E0517, 0x76096D3E, 0x7E1443AF, 0x95979741, 0x6DF0C6DD, 0x537E1C3E, 0xBE4427B4, 0xD36173F7, 0x488DA7CE, 0xB775EDAC, 0x9F800D4D, 0x850E1BEE, 0xBECD3DDD, 0xBB64BEAD, 0xAAA0DE4C, 0xC962EEA8], (0x797FBC17, 0x40795797, 0x73732C3B, 0x343DE70B, 0xBF5BB4A5))"
  by (simp add: upt_rec rotl_def sha1_f_def sha1_k_def sha1_round_eval del: sha1_round.simps)

lemma rounds_rebuilt_2_60:
  "foldl sha1_round ([0xF51E0517, 0x76096D3E, 0x7E1443AF, 0x95979741, 0x6DF0C6DD, 0x537E1C3E, 0xBE4427B4, 0xD36173F7, 0x488DA7CE, 0xB775EDAC, 0x9F800D4D, 0x850E1BEE, 0xBECD3DDD, 0xBB64BEAD, 0xAAA0DE4C, 0xC962EEA8], (0x797FBC17, 0x40795797, 0x73732C3B, 0x343DE70B, 0xBF5BB4A5)) [60 ..< 80] = ([0x23DC9F17, 0x62EE3895, 0x705600F2, 0x1D55DFC9, 0x884A5B40, 0x7D74CB1F, 0x6C2844EF, 0xA4C54099, 0x958B6F32, 0xF98058FE, 0x1FEA4323, 0x7A579AD9, 0x1400E24C, 0xF4968A99, 0x7F5F181F, 0x6CD3881F], (0xCB9EBEFC, 0x74DB334C, 0xF32A5B9E, 0x4B39FC22, 0xB9590AA6))"
  by (simp add: upt_rec rotl_def sha1_f_def sha1_k_def sha1_round_eval del: sha1_round.simps)

lemma block_rebuilt_2:
  "sha1_block (0xF4C77247, 0xBD1EA6BB, 0x59C6CFAD, 0x39990CEE, 0x59DA9FB8) (take 64 (drop 128 (sha1_pad (mkblob (example_commit ''999999999'' ''1000000000''))))) = (0xC0663143, 0x31F9DA07, 0x4CF12B4B, 0x84D30910, 0x1333AA5E)"
  unfolding sha1_block.simps words_rebuilt_2 rounds_split rounds_rebuilt_2_0 rounds_rebuilt_2_20 rounds_rebuilt_2_40 rounds_rebuilt_2_60
  by simp

lemma digest_rebuilt:
  "hex_encode (sha1 (mkblob (example_commit ''999999999'' ''1000000000''))) = ''c066314331f9da074cf12b4b84d309101333aa5e''"
proof -
  have "sha1_blocks (0x67452301, 0xEFCDAB89, 0x98BADCFE, 0x10325476, 0xC3D2E1F0) (sha1_pad (mkblob (example_commit ''999999999'' ''1000000000''))) = (0xC0663143, 0x31F9DA07, 0x4CF12B4B, 0x84D30910, 0x1333AA5E)"
    unfolding sha1_blocks_192[OF padded_rebuilt(2)]
    using block_rebuilt_0 block_rebuilt_1 block_rebuilt_2 by simp
  then show ?thesis
    by (simp add: sha1_def hex_encode_def word_bytes_def upt_rec hex_def)
qed

subsection \<open>A reported solution whose record has another digest\<close>

lemma pass_bytes:
  assumes "ai + length (FormatInt (date_n aD - authorBehind t)) \<le> len (blob w)"
    and "ci + length (FormatInt (date_n cD - commitBehind t)) \<le> len (blob w)"
    and "len (blob w) \<le> cap (blob w)" "40 \<le> cap (hexBuf w)"
  obtains w' where
    "attempt p aD ai cD ci w t
       = Some (w', \<lparr>author = shifted aD (authorBehind t), committer = shifted cD (commitBehind t)\<rparr>,
               HasPrefix (hex_encode (sha1 (bytes_of (blob w')))) p)"
    "bytes_of (blob w') = overwrite (overwrite (bytes_of (blob w)) ai (FormatInt (date_n aD - authorBehind t)))
                     ci (FormatInt (date_n cD - commitBehind t))"
    "len (blob w') = len (blob w)" "cap (blob w') = cap (blob w)" "cap (hexBuf w') = cap (hexBuf w)"
proof -
  obtain b' where b': "rewrite aD ai cD ci (blob w) t = Some b'"
    "bytes_of b' = overwrite (overwrite (bytes_of (blob w)) ai (FormatInt (date_n aD - authorBehind t)))
                     ci (FormatInt (date_n cD - commitBehind t))"
    using assms(1,2,3) by (rule rewrite_bytes)
  have "ai \<le> cap (blob w)" "ci \<le> cap (blob w)" using assms(1,2,3) by simp_all
  then obtain w' hit where a: "attempt p aD ai cD ci w t
       = Some (w', \<lparr>author = shifted aD (authorBehind t), committer = shifted cD (commitBehind t)\<rparr>, hit)"
    and r: "rewrite aD ai cD ci (blob w) t = Some (blob w')"
    and h: "hit = HasPrefix (hex_encode (sha1 (bytes_of (blob w')))) p"
    and s: "cap (blob w') = cap (blob w)" "len (blob w') = len (blob w)" "cap (hexBuf w') = cap (hexBuf w)"
    using assms(4) by (rule attempt_Some)
  have "blob w' = b'" using r b'(1) by simp
  then show thesis using a h s b'(2) by (intro that[of w']) simp_all
qed

lemma example_overwrite_10_same:
  "overwrite (overwrite (mkblob (example_commit ''1000000000'' ''1000000000'')) 70 ''1000000000'') 103 ''1000000000''
     = mkblob (example_commit ''1000000000'' ''1000000000'')"
  by code_simp

lemma explore_first_two:
  "explore 4 = [\<lparr>commitBehind = 0, authorBehind = 0\<rparr>, \<lparr>commitBehind = 0, authorBehind = 1\<rparr>]"
  by (simp add: explore_def eval_nat_numeral word_sle_eq)

lemma worker_loop_Won:
  assumes "worker_loop p aD ai cD ci w evs = Won s"
  shows "\<exists>w0 t w'. attempt p aD ai cD ci w0 t = Some (w', s, True)"
  using assms
proof (induction evs arbitrary: w)
  case Nil
  then show ?case by simp
next
  case (Cons ev evs)
  obtain t closed where ev: "ev = (t, closed)" by (cases ev)
  show ?case
  proof (cases "attempt p aD ai cD ci w t")
    case None
    then show ?thesis using Cons.prems ev by (simp split: if_splits)
  next
    case (Some r)
    obtain w' s' hit where r: "r = (w', s', hit)" by (cases r)
    show ?thesis
    proof (cases hit)
      case True
      then have "s' = s" using Cons.prems ev Some r by (simp split: if_splits)
      then have "attempt p aD ai cD ci w t = Some (w', s, True)" using Some r True by simp
      then show ?thesis by blast
    next
      case False
      then have "worker_loop p aD ai cD ci w' evs = Won s"
        using Cons.prems ev Some r by (simp split: if_splits)
      then show ?thesis by (rule Cons.IH)
    qed
  qed
qed

text \<open>
  C1, a failing input: the commit of the end-to-end scenario, both timestamps at 1000000000
  with the time zone \<^verbatim>\<open>+0000\<close>, and the prefix \<^verbatim>\<open>0\<close>.  A worker that receives the first
  two candidates of \<^verbatim>\<open>explore\<close> finds no match for the first and reports a solution for
  the second, the author's seconds at 999999999.  The bytes it has hashed read
  \<^verbatim>\<open>9999999990\<close> there, and their digest starts with \<^verbatim>\<open>0\<close>; the digest of the record
  rebuilt with the reported timestamps is \<^verbatim>\<open>c066314331f9da074cf12b4b84d309101333aa5e\<close>,
  which does not start with the prefix.
\<close>

theorem solution_digest_without_prefix:
  "explore 4 = [\<lparr>commitBehind = 0, authorBehind = 0\<rparr>, \<lparr>commitBehind = 0, authorBehind = 1\<rparr>]
   \<and> bruteForce ''0'' (example_commit ''1000000000'' ''1000000000'') 0 (map (\<lambda>t. (t, False)) (explore 4))
       = Won \<lparr>author = \<lparr>date_n = 999999999, date_tz = ''+0000''\<rparr>,
               committer = \<lparr>date_n = 1000000000, date_tz = ''+0000''\<rparr>\<rparr>
   \<and> hex_encode (sha1 (rebuild (example_commit ''1000000000'' ''1000000000'')
         \<lparr>author = \<lparr>date_n = 999999999, date_tz = ''+0000''\<rparr>,
          committer = \<lparr>date_n = 1000000000, date_tz = ''+0000''\<rparr>\<rparr>))
       = ''c066314331f9da074cf12b4b84d309101333aa5e''
   \<and> \<not> HasPrefix (hex_encode (sha1 (rebuild (example_commit ''1000000000'' ''1000000000'')
         \<lparr>author = \<lparr>date_n = 999999999, date_tz = ''+0000''\<rparr>,
          committer = \<lparr>date_n = 1000000000, date_tz = ''+0000''\<rparr>\<rparr>))) (ToLower ''0'')"
proof -
  let ?obj = "example_commit ''1000000000'' ''1000000000''"
  let ?d = "\<lparr>date_n = 1000000000, date_tz = ''+0000''\<rparr>"
  let ?t0 = "\<lparr>commitBehind = 0, authorBehind = 0\<rparr>"
  let ?t1 = "\<lparr>commitBehind = 0, authorBehind = 1\<rparr>"
  let ?s = "\<lparr>author = \<lparr>date_n = 999999999, date_tz = ''+0000''\<rparr>, committer = ?d\<rparr>"
  let ?w = "\<lparr>blob = bytes_slice (mkblob ?obj) 0, hexBuf = make_empty 40\<rparr>"
  have low: "ToLower ''0'' = ''0''" by (simp add: ToLower_def)
  have f0: "FormatInt (date_n ?d - authorBehind ?t0) = ''1000000000''"
    "FormatInt (date_n ?d - commitBehind ?t0) = ''1000000000''"
    and f1: "FormatInt (date_n ?d - authorBehind ?t1) = ''999999999''"
    "FormatInt (date_n ?d - commitBehind ?t1) = ''1000000000''"
    by (simp_all add: format_decimal_examples)
  have w: "len (blob ?w) = 136" "cap (blob ?w) = 136" "bytes_of (blob ?w) = mkblob ?obj"
    by (simp_all add: bytes_slice_shape example_fields_10)
  have hb: "40 \<le> cap (hexBuf ?w)" by (simp add: cap_def make_empty_def)
  obtain w1 where a1: "attempt ''0'' ?d 70 ?d 103 ?w ?t0
       = Some (w1, \<lparr>author = shifted ?d (authorBehind ?t0), committer = shifted ?d (commitBehind ?t0)\<rparr>,
               HasPrefix (hex_encode (sha1 (bytes_of (blob w1)))) ''0'')"
    and b1: "bytes_of (blob w1) = overwrite (overwrite (bytes_of (blob ?w)) 70 (FormatInt (date_n ?d - authorBehind ?t0)))
                     103 (FormatInt (date_n ?d - commitBehind ?t0))"
    and s1: "len (blob w1) = len (blob ?w)" "cap (blob w1) = cap (blob ?w)" "cap (hexBuf w1) = cap (hexBuf ?w)"
  proof -
    have "70 + length (FormatInt (date_n ?d - authorBehind ?t0)) \<le> len (blob ?w)"
      "103 + length (FormatInt (date_n ?d - commitBehind ?t0)) \<le> len (blob ?w)"
      "len (blob ?w) \<le> cap (blob ?w)"
      unfolding f0 w by simp_all
    then show thesis using hb by (rule pass_bytes) (rule that)
  qed
  have m1: "bytes_of (blob w1) = mkblob ?obj"
    unfolding b1 f0 w by (rule example_overwrite_10_same)
  have h1: "\<not> HasPrefix (hex_encode (sha1 (bytes_of (blob w1)))) ''0''"
    unfolding m1 digest_orig by (simp add: HasPrefix_def)
  obtain w2 where a2: "attempt ''0'' ?d 70 ?d 103 w1 ?t1
       = Some (w2, \<lparr>author = shifted ?d (authorBehind ?t1), committer = shifted ?d (commitBehind ?t1)\<rparr>,
               HasPrefix (hex_encode (sha1 (bytes_of (blob w2)))) ''0'')"
    and b2: "bytes_of (blob w2) = overwrite (overwrite (bytes_of (blob w1)) 70 (FormatInt (date_n ?d - authorBehind ?t1)))
                     103 (FormatInt (date_n ?d - commitBehind ?t1))"
  proof -
    have "70 + length (FormatInt (date_n ?d - authorBehind ?t1)) \<le> len (blob w1)"
      "103 + length (FormatInt (date_n ?d - commitBehind ?t1)) \<le> len (blob w1)"
      "len (blob w1) \<le> cap (blob w1)" "40 \<le> cap (hexBuf w1)"
      unfolding f1 s1 w using hb by simp_all
    then show thesis by (rule pass_bytes) (rule that)
  qed
  have m2: "bytes_of (blob w2) = mkblob (example_commit ''9999999990'' ''1000000000'')"
    unfolding b2 m1 f1 by (rule example_overwrite_10)
  have h2: "HasPrefix (hex_encode (sha1 (bytes_of (blob w2)))) ''0''"
    unfolding m2 digest_short by (simp add: HasPrefix_def)
  have sh: "shifted ?d (authorBehind ?t1) = \<lparr>date_n = 999999999, date_tz = ''+0000''\<rparr>"
    "shifted ?d (commitBehind ?t1) = ?d"
    by (simp_all add: shifted_def)
  have loop: "worker_loop ''0'' ?d 70 ?d 103 ?w [(?t0, False), (?t1, False)] = Won ?s"
    using a1 h1 a2 h2 sh by simp
  have run: "bruteForce ''0'' ?obj 0 (map (\<lambda>t. (t, False)) (explore 4)) = Won ?s"
    unfolding explore_first_two bruteForce_def Let_def low
    using loop by (simp add: bytes_slice_shape example_getDate_10)
  have dg: "hex_encode (sha1 (rebuild ?obj ?s)) = ''c066314331f9da074cf12b4b84d309101333aa5e''"
    unfolding example_rebuild_10_solution by (rule digest_rebuilt)
  have "\<not> HasPrefix (hex_encode (sha1 (rebuild ?obj ?s))) (ToLower ''0'')"
    unfolding dg low by (simp add: HasPrefix_def)
  with explore_first_two run dg show ?thesis by blast
qed

subsection \<open>One solution is delivered\<close>

lemma delivered_update_other:
  assumes "i < length ws" "sent_of (ws ! i) = []" "sent_of x = []"
  shows "concat (map sent_of (ws[i := x])) = concat (map sent_of ws)"
proof -
  have "ws = take i ws @ ws ! i # drop (Suc i) ws" using assms(1) by (simp add: id_take_nth_drop)
  moreover have "ws[i := x] = take i ws @ x # drop (Suc i) ws" using assms(1) by (simp add: upd_conv_take_nth_drop)
  ultimately show ?thesis using assms(2,3)
    by (metis (no_types, lifting) append_Nil concat.simps(2) concat_append list.simps(9) map_append)
qed

lemma delivered_update_sent:
  assumes "i < length ws" "concat (map sent_of ws) = []"
  shows "concat (map sent_of (ws[i := Sent s])) = [s]"
proof -
  have a: "ws = take i ws @ ws ! i # drop (Suc i) ws" using assms(1) by (simp add: id_take_nth_drop)
  have b: "ws[i := Sent s] = take i ws @ Sent s # drop (Suc i) ws"
    using assms(1) by (simp add: upd_conv_take_nth_drop)
  have "concat (map sent_of (take i ws)) = []" "concat (map sent_of (drop (Suc i) ws)) = []"
    using assms(2) by (metis a append_is_Nil_conv concat.simps(2) concat_append list.simps(9) map_append)+
  then show ?thesis by (subst b) (simp del: concat_eq_Nil_conv)
qed

lemma sys_inv_init: "sys_inv P (init P)"
  by (simp add: sys_inv_def init_def delivered_def)

lemma sys_inv_step:
  assumes "sys_step p obj \<sigma> \<sigma>'" "sys_inv P \<sigma>"
  shows "sys_inv P \<sigma>'"
  using assms
proof (induction rule: sys_step.induct)
  case (deliver \<sigma> i s)
  then have "concat (map sent_of (workers \<sigma>)) = []" by (simp add: sys_inv_def delivered_def)
  then have "concat (map sent_of ((workers \<sigma>)[i := Sent s])) = [s]"
    using deliver.hyps(3) by (intro delivered_update_sent)
  then show ?case using deliver by (simp add: sys_inv_def delivered_def)
qed (simp_all add: sys_inv_def delivered_def delivered_update_other)


lemma sys_inv_reachable:
  assumes "(sys_step p obj)\<^sup>*\<^sup>* (init P) \<sigma>"
  shows "sys_inv P \<sigma>"
  using assms by (induction rule: rtranclp_induct) (auto intro: sys_inv_init sys_inv_step)

lemma received_stable_step:
  assumes "sys_step p obj \<sigma> \<sigma>'" "coordinator \<sigma> \<noteq> Receiving"
  shows "coordinator \<sigma>' \<noteq> Receiving" "received (coordinator \<sigma>') = received (coordinator \<sigma>)"
    "length (workers \<sigma>') = length (workers \<sigma>)"
    "i < length (workers \<sigma>) \<Longrightarrow> workers \<sigma> ! i = Sending s' \<Longrightarrow> workers \<sigma>' ! i = Sending s'"
  using assms by (induction rule: sys_step.induct) (auto simp: nth_list_update)

lemma received_stable:
  assumes "(sys_step p obj)\<^sup>*\<^sup>* \<sigma> \<sigma>'" "coordinator \<sigma> \<noteq> Receiving"
  shows "coordinator \<sigma>' \<noteq> Receiving \<and> received (coordinator \<sigma>') = received (coordinator \<sigma>)
    \<and> length (workers \<sigma>') = length (workers \<sigma>)
    \<and> (\<forall>i < length (workers \<sigma>). \<forall>s'. workers \<sigma> ! i = Sending s' \<longrightarrow> workers \<sigma>' ! i = Sending s')"
  using assms
proof (induction rule: rtranclp_induct)
  case base
  then show ?case by simp
next
  case (step y z)
  then have y: "coordinator y \<noteq> Receiving" "received (coordinator y) = received (coordinator \<sigma>)"
    "length (workers y) = length (workers \<sigma>)"
    "\<forall>i < length (workers \<sigma>). \<forall>s'. workers \<sigma> ! i = Sending s' \<longrightarrow> workers y ! i = Sending s'"
    by simp_all
  note st = received_stable_step[OF step.hyps(2) y(1)]
  have "\<forall>i < length (workers \<sigma>). \<forall>s'. workers \<sigma> ! i = Sending s' \<longrightarrow> workers z ! i = Sending s'"
    using y(3,4) st(4) by simp
  then show ?case using st(1,2,3) y(2,3) by simp
qed

lemma example_attempt_hit:
  "\<exists>w'. attempt (ToLower ''0'') \<lparr>date_n = 1000000000, date_tz = ''+0000''\<rparr> 70
            \<lparr>date_n = 1000000000, date_tz = ''+0000''\<rparr> 103
            \<lparr>blob = bytes_slice (mkblob (example_commit ''1000000000'' ''1000000000'')) 0,
             hexBuf = make_empty 40\<rparr>
            \<lparr>commitBehind = 0, authorBehind = 1\<rparr>
     = Some (w', \<lparr>author = \<lparr>date_n = 999999999, date_tz = ''+0000''\<rparr>,
                   committer = \<lparr>date_n = 1000000000, date_tz = ''+0000''\<rparr>\<rparr>, True)"
proof -
  let ?obj = "example_commit ''1000000000'' ''1000000000''"
  let ?d = "\<lparr>date_n = 1000000000, date_tz = ''+0000''\<rparr>"
  let ?t1 = "\<lparr>commitBehind = 0, authorBehind = 1\<rparr>"
  let ?w = "\<lparr>blob = bytes_slice (mkblob ?obj) 0, hexBuf = make_empty 40\<rparr>"
  have low: "ToLower ''0'' = ''0''" by (simp add: ToLower_def)
  have f1: "FormatInt (date_n ?d - authorBehind ?t1) = ''999999999''"
    "FormatInt (date_n ?d - commitBehind ?t1) = ''1000000000''"
    by (simp_all add: format_decimal_examples)
  have w: "len (blob ?w) = 136" "cap (blob ?w) = 136" "bytes_of (blob ?w) = mkblob ?obj"
    by (simp_all add: bytes_slice_shape example_fields_10)
  have hb: "40 \<le> cap (hexBuf ?w)" by (simp add: cap_def make_empty_def)
  obtain w2 where a2: "attempt ''0'' ?d 70 ?d 103 ?w ?t1
       = Some (w2, \<lparr>author = shifted ?d (authorBehind ?t1), committer = shifted ?d (commitBehind ?t1)\<rparr>,
               HasPrefix (hex_encode (sha1 (bytes_of (blob w2)))) ''0'')"
    and b2: "bytes_of (blob w2) = overwrite (overwrite (bytes_of (blob ?w)) 70 (FormatInt (date_n ?d - authorBehind ?t1)))
                     103 (FormatInt (date_n ?d - commitBehind ?t1))"
  proof -
    have "70 + length (FormatInt (date_n ?d - authorBehind ?t1)) \<le> len (blob ?w)"
      "103 + length (FormatInt (date_n ?d - commitBehind ?t1)) \<le> len (blob ?w)"
      "len (blob ?w) \<le> cap (blob ?w)"
      unfolding f1 w by simp_all
    then show thesis using hb by (rule pass_bytes) (rule that)
  qed
  have m2: "bytes_of (blob w2) = mkblob (example_commit ''9999999990'' ''1000000000'')"
    unfolding b2 w f1 by (rule example_overwrite_10)
  have h2: "HasPrefix (hex_encode (sha1 (bytes_of (blob w2)))) ''0''"
    unfolding m2 digest_short by (simp add: HasPrefix_def)
  have sh: "shifted ?d (authorBehind ?t1) = \<lparr>date_n = 999999999, date_tz = ''+0000''\<rparr>"
    "shifted ?d (commitBehind ?t1) = ?d"
    by (simp_all add: shifted_def)
  show ?thesis using a2 h2 unfolding sh low by auto
qed

text \<open>
  C8: in every state that \<^verbatim>\<open>main\<close> and its \<open>P\<close> workers reach, whatever the order in which
  the goroutines move and however many workers have found a match, the sends on \<^verbatim>\<open>winner\<close>
  that have been taken are exactly the solutions \<^verbatim>\<open>main\<close> holds, and there is at most one;
  \<^verbatim>\<open>done\<close> is closed exactly when \<^verbatim>\<open>main\<close> has passed \<^verbatim>\<open>close(done)\<close>, after it has received
  its solution; and once \<^verbatim>\<open>main\<close> has received a solution it keeps that one, while every
  other worker that is sending stays at its send for ever.
\<close>

theorem one_solution_delivered:
  assumes "(sys_step p obj)\<^sup>*\<^sup>* (init P) \<sigma>"
  shows "length (workers \<sigma>) = P
     \<and> delivered \<sigma> = received (coordinator \<sigma>)
     \<and> length (delivered \<sigma>) \<le> 1
     \<and> (done_closed \<sigma> \<longleftrightarrow> (\<exists>s. coordinator \<sigma> = Closed s))
     \<and> (\<forall>\<sigma>'. (sys_step p obj)\<^sup>*\<^sup>* \<sigma> \<sigma>' \<longrightarrow> coordinator \<sigma> \<noteq> Receiving \<longrightarrow>
           received (coordinator \<sigma>') = received (coordinator \<sigma>)
           \<and> (\<forall>i < P. \<forall>s'. workers \<sigma> ! i = Sending s' \<longrightarrow> workers \<sigma>' ! i = Sending s'))"
proof -
  have inv: "sys_inv P \<sigma>" using assms by (rule sys_inv_reachable)
  then have 1: "length (workers \<sigma>) = P" "delivered \<sigma> = received (coordinator \<sigma>)"
    "done_closed \<sigma> \<longleftrightarrow> (\<exists>s. coordinator \<sigma> = Closed s)"
    by (simp_all add: sys_inv_def)
  have 2: "length (delivered \<sigma>) \<le> 1" unfolding 1(2) by (cases "coordinator \<sigma>") simp_all
  have 3: "received (coordinator \<sigma>') = received (coordinator \<sigma>)
           \<and> (\<forall>i < P. \<forall>s'. workers \<sigma> ! i = Sending s' \<longrightarrow> workers \<sigma>' ! i = Sending s')"
    if "(sys_step p obj)\<^sup>*\<^sup>* \<sigma> \<sigma>'" "coordinator \<sigma> \<noteq> Receiving" for \<sigma>'
    using received_stable[OF that] 1(1) by simp
  from 1 2 3 show ?thesis by blast
qed

theorem one_solution_delivered_witness:
  "(sys_step ''0'' (example_commit ''1000000000'' ''1000000000''))\<^sup>*\<^sup>* (init 2)
     \<lparr>sequencer = FirstLoop 1 1, possibilities = [],
      workers =
        [Working \<lparr>w_author = \<lparr>date_n = 1000000000, date_tz = ''+0000''\<rparr>, w_adatei = 70,
                  w_committer = \<lparr>date_n = 1000000000, date_tz = ''+0000''\<rparr>, w_cdatei = 103,
                  buffers = \<lparr>blob = bytes_slice (mkblob (example_commit ''1000000000'' ''1000000000'')) 0,
                             hexBuf = make_empty 40\<rparr>\<rparr>
           \<lparr>commitBehind = 0, authorBehind = 0\<rparr>,
         Sent \<lparr>author = \<lparr>date_n = 999999999, date_tz = ''+0000''\<rparr>,
               committer = \<lparr>date_n = 1000000000, date_tz = ''+0000''\<rparr>\<rparr>],
      coordinator = Closed \<lparr>author = \<lparr>date_n = 999999999, date_tz = ''+0000''\<rparr>,
                            committer = \<lparr>date_n = 1000000000, date_tz = ''+0000''\<rparr>\<rparr>,
      done_closed = True, exited = False\<rparr>
   \<and> delivered
     \<lparr>sequencer = FirstLoop 1 1, possibilities = [],
      workers =
        [Working \<lparr>w_author = \<lparr>date_n = 1000000000, date_tz = ''+0000''\<rparr>, w_adatei = 70,
                  w_committer = \<lparr>date_n = 1000000000, date_tz = ''+0000''\<rparr>, w_cdatei = 103,
                  buffers = \<lparr>blob = bytes_slice (mkblob (example_commit ''1000000000'' ''1000000000'')) 0,
                             hexBuf = make_empty 40\<rparr>\<rparr>
           \<lparr>commitBehind = 0, authorBehind = 0\<rparr>,
         Sent \<lparr>author = \<lparr>date_n = 999999999, date_tz = ''+0000''\<rparr>,
               committer = \<lparr>date_n = 1000000000, date_tz = ''+0000''\<rparr>\<rparr>],
      coordinator = Closed \<lparr>author = \<lparr>date_n = 999999999, date_tz = ''+0000''\<rparr>,
                            committer = \<lparr>date_n = 1000000000, date_tz = ''+0000''\<rparr>\<rparr>,
      done_closed = True, exited = False\<rparr>
     = [\<lparr>author = \<lparr>date_n = 999999999, date_tz = ''+0000''\<rparr>,
         committer = \<lparr>date_n = 1000000000, date_tz = ''+0000''\<rparr>\<rparr>]"
proof -
  let ?obj = "example_commit ''1000000000'' ''1000000000''"
  let ?d = "\<lparr>date_n = 1000000000, date_tz = ''+0000''\<rparr>"
  let ?t0 = "\<lparr>commitBehind = 0, authorBehind = 0\<rparr>"
  let ?t1 = "\<lparr>commitBehind = 0, authorBehind = 1\<rparr>"
  let ?s = "\<lparr>author = \<lparr>date_n = 999999999, date_tz = ''+0000''\<rparr>, committer = ?d\<rparr>"
  let ?w = "\<lparr>blob = bytes_slice (mkblob ?obj) 0, hexBuf = make_empty 40\<rparr>"
  let ?r = "\<lparr>w_author = ?d, w_adatei = 70, w_committer = ?d, w_cdatei = 103, buffers = ?w\<rparr>"
  let ?S = "\<lambda>g q ws c d. \<lparr>sequencer = g, possibilities = q, workers = ws, coordinator = c,
                         done_closed = d, exited = False\<rparr>"
  let ?step = "sys_step ''0'' ?obj"
  have 1: "?step (init 2) (?S (SecondLoop 0 0) [] [Starting, Starting] Receiving False)"
    using explore_loop[where \<sigma> = "init 2" and g = "SecondLoop 0 0" and p = "''0''" and obj = ?obj]
    by (simp add: init_def word_sle_eq numeral_2_eq_2)
  have 2: "?step (?S (SecondLoop 0 0) [] [Starting, Starting] Receiving False)
                 (?S (SecondLoop 0 1) [?t0] [Starting, Starting] Receiving False)"
    using explore_send[where \<sigma> = "?S (SecondLoop 0 0) [] [Starting, Starting] Receiving False"
        and g = "SecondLoop 0 1" and t = ?t0 and p = "''0''" and obj = ?obj]
    by (simp add: word_sle_eq)
  have 3: "?step (?S (SecondLoop 0 1) [?t0] [Starting, Starting] Receiving False)
                 (?S (FirstLoop 1 0) [?t0] [Starting, Starting] Receiving False)"
    using explore_loop[where \<sigma> = "?S (SecondLoop 0 1) [?t0] [Starting, Starting] Receiving False"
        and g = "FirstLoop 1 0" and p = "''0''" and obj = ?obj]
    by (simp add: word_sle_eq)
  have 4: "?step (?S (FirstLoop 1 0) [?t0] [Starting, Starting] Receiving False)
                 (?S (FirstLoop 1 1) [?t0, ?t1] [Starting, Starting] Receiving False)"
    using explore_send[where \<sigma> = "?S (FirstLoop 1 0) [?t0] [Starting, Starting] Receiving False"
        and g = "FirstLoop 1 1" and t = ?t1 and p = "''0''" and obj = ?obj]
    by (simp add: word_sle_eq)
  have 5: "?step (?S (FirstLoop 1 1) [?t0, ?t1] [Starting, Starting] Receiving False)
                 (?S (FirstLoop 1 1) [?t0, ?t1] [Ready ?r, Starting] Receiving False)"
    using worker_start[where \<sigma> = "?S (FirstLoop 1 1) [?t0, ?t1] [Starting, Starting] Receiving False"
        and i = 0 and spare = 0 and p = "''0''", OF _ _ _ example_getDate_10]
    by simp
  have 6: "?step (?S (FirstLoop 1 1) [?t0, ?t1] [Ready ?r, Starting] Receiving False)
                 (?S (FirstLoop 1 1) [?t0, ?t1] [Ready ?r, Ready ?r] Receiving False)"
    using worker_start[where \<sigma> = "?S (FirstLoop 1 1) [?t0, ?t1] [Ready ?r, Starting] Receiving False"
        and i = 1 and spare = 0 and p = "''0''", OF _ _ _ example_getDate_10]
    by simp
  have 7: "?step (?S (FirstLoop 1 1) [?t0, ?t1] [Ready ?r, Ready ?r] Receiving False)
                 (?S (FirstLoop 1 1) [?t1] [Working ?r ?t0, Ready ?r] Receiving False)"
    using worker_take[where \<sigma> = "?S (FirstLoop 1 1) [?t0, ?t1] [Ready ?r, Ready ?r] Receiving False"
        and i = 0 and r = ?r and t = ?t0 and q = "[?t1]" and p = "''0''" and obj = ?obj]
    by simp
  have 8: "?step (?S (FirstLoop 1 1) [?t1] [Working ?r ?t0, Ready ?r] Receiving False)
                 (?S (FirstLoop 1 1) [] [Working ?r ?t0, Working ?r ?t1] Receiving False)"
    using worker_take[where \<sigma> = "?S (FirstLoop 1 1) [?t1] [Working ?r ?t0, Ready ?r] Receiving False"
        and i = 1 and r = ?r and t = ?t1 and q = "[]" and p = "''0''" and obj = ?obj]
    by simp
  obtain w' where hit: "attempt (ToLower ''0'') ?d 70 ?d 103 ?w ?t1 = Some (w', ?s, True)"
    using example_attempt_hit by blast
  have 9: "?step (?S (FirstLoop 1 1) [] [Working ?r ?t0, Working ?r ?t1] Receiving False)
                 (?S (FirstLoop 1 1) [] [Working ?r ?t0, Sending ?s] Receiving False)"
    using worker_hit[where \<sigma> = "?S (FirstLoop 1 1) [] [Working ?r ?t0, Working ?r ?t1] Receiving False"
        and i = 1 and r = ?r and t = ?t1 and w' = w' and s = ?s and p = "''0''" and obj = ?obj] hit
    by simp
  have 10: "?step (?S (FirstLoop 1 1) [] [Working ?r ?t0, Sending ?s] Receiving False)
                  (?S (FirstLoop 1 1) [] [Working ?r ?t0, Sent ?s] (Received ?s) False)"
    using deliver[where \<sigma> = "?S (FirstLoop 1 1) [] [Working ?r ?t0, Sending ?s] Receiving False"
        and i = 1 and s = ?s and p = "''0''" and obj = ?obj]
    by simp
  have 11: "?step (?S (FirstLoop 1 1) [] [Working ?r ?t0, Sent ?s] (Received ?s) False)
                  (?S (FirstLoop 1 1) [] [Working ?r ?t0, Sent ?s] (Closed ?s) True)"
    using close_done[where \<sigma> = "?S (FirstLoop 1 1) [] [Working ?r ?t0, Sent ?s] (Received ?s) False"
        and s = ?s and p = "''0''" and obj = ?obj]
    by simp
  have reach: "?step\<^sup>*\<^sup>* (init 2) (?S (FirstLoop 1 1) [] [Working ?r ?t0, Sent ?s] (Closed ?s) True)"
    using 1 2 3 4 5 6 7 8 9 10 11
    by (meson rtranclp.rtrancl_into_rtrancl rtranclp.rtrancl_refl)
  from one_solution_delivered[OF reach] have "delivered (?S (FirstLoop 1 1) [] [Working ?r ?t0, Sent ?s] (Closed ?s) True) = [?s]"
    by simp
  with reach show ?thesis by simp
qed

end
